theory Spec2Isabelle
  imports Complex_Main
begin

section \<open>JavaScript values used by tle.js\<close>

text \<open>
  A JavaScript number is a binary64 value. The model keeps the three special values
  apart and represents every finite value by an exact real number: rounding to binary64
  and the sign of zero are not modelled. All control flow of the functions below
  depends on comparisons, on \<open>Math.abs\<close>, on halving and on adding integers, which
  are exact on the values that occur (integers below \<open>2^53\<close> and their halves).
\<close>

datatype num = NaN | PInf | NInf | Num real

text \<open>ToBoolean on a number: \<open>0\<close> and \<open>NaN\<close> are falsy.\<close>

fun truthy :: "num \<Rightarrow> bool" where
  "truthy NaN = False"
| "truthy (Num x) = (x \<noteq> 0)"
| "truthy _ = True"

text \<open>
  An argument that may be \<open>undefined\<close> (an index into an empty array, an omitted
  parameter) is a \<open>num option\<close>, \<open>None\<close> being \<open>undefined\<close>.
\<close>

fun truthyOpt :: "num option \<Rightarrow> bool" where
  "truthyOpt None = False"
| "truthyOpt (Some n) = truthy n"

fun jabs :: "num \<Rightarrow> num" where
  "jabs NaN = NaN"
| "jabs (Num x) = Num \<bar>x\<bar>"
| "jabs _ = PInf"

text \<open>The relational operator \<open>a > b\<close>; any comparison with \<open>NaN\<close> is false.\<close>

fun jgt :: "num \<Rightarrow> num \<Rightarrow> bool" where
  "jgt NaN _ = False"
| "jgt _ NaN = False"
| "jgt PInf b = (b \<noteq> PInf)"
| "jgt NInf _ = False"
| "jgt (Num x) PInf = False"
| "jgt (Num x) NInf = True"
| "jgt (Num x) (Num y) = (y < x)"

definition jlt :: "num \<Rightarrow> num \<Rightarrow> bool" where
  "jlt a b = jgt b a"

fun jneg :: "num \<Rightarrow> num" where
  "jneg NaN = NaN"
| "jneg PInf = NInf"
| "jneg NInf = PInf"
| "jneg (Num x) = Num (- x)"

fun jadd :: "num \<Rightarrow> num \<Rightarrow> num" where
  "jadd NaN _ = NaN"
| "jadd _ NaN = NaN"
| "jadd PInf NInf = NaN"
| "jadd NInf PInf = NaN"
| "jadd PInf _ = PInf"
| "jadd NInf _ = NInf"
| "jadd _ PInf = PInf"
| "jadd _ NInf = NInf"
| "jadd (Num x) (Num y) = Num (x + y)"

definition jsub :: "num \<Rightarrow> num \<Rightarrow> num" where
  "jsub a b = jadd a (jneg b)"

fun jmul :: "num \<Rightarrow> num \<Rightarrow> num" where
  "jmul NaN _ = NaN"
| "jmul _ NaN = NaN"
| "jmul (Num x) (Num y) = Num (x * y)"
| "jmul (Num x) PInf = (if x = 0 then NaN else if 0 < x then PInf else NInf)"
| "jmul (Num x) NInf = (if x = 0 then NaN else if 0 < x then NInf else PInf)"
| "jmul PInf (Num y) = (if y = 0 then NaN else if 0 < y then PInf else NInf)"
| "jmul NInf (Num y) = (if y = 0 then NaN else if 0 < y then NInf else PInf)"
| "jmul PInf PInf = PInf"
| "jmul NInf NInf = PInf"
| "jmul PInf NInf = NInf"
| "jmul NInf PInf = NInf"

text \<open>
  Division. A finite nonzero dividend over zero is infinite, with the sign of the
  dividend (the divisor is read as \<open>+0\<close>).
\<close>

fun jdiv :: "num \<Rightarrow> num \<Rightarrow> num" where
  "jdiv NaN _ = NaN"
| "jdiv _ NaN = NaN"
| "jdiv (Num x) (Num y) =
     (if y = 0 then (if x = 0 then NaN else if 0 < x then PInf else NInf)
      else Num (x / y))"
| "jdiv (Num x) _ = Num 0"
| "jdiv PInf (Num y) = (if 0 \<le> y then PInf else NInf)"
| "jdiv NInf (Num y) = (if 0 \<le> y then NInf else PInf)"
| "jdiv _ _ = NaN"

fun jfloor :: "num \<Rightarrow> num" where
  "jfloor (Num x) = Num (of_int \<lfloor>x\<rfloor>)"
| "jfloor n = n"

text \<open>\<open>Number.isInteger\<close>.\<close>

fun isInteger :: "num \<Rightarrow> bool" where
  "isInteger (Num x) = (of_int \<lfloor>x\<rfloor> = x)"
| "isInteger _ = False"

text \<open>Strict equality \<open>===\<close> of two numbers: \<open>NaN\<close> equals nothing.\<close>

definition strictEq :: "num \<Rightarrow> num \<Rightarrow> bool" where
  "strictEq a b = (a \<noteq> NaN \<and> a = b)"

section \<open>Antemeridian crossing predicate\<close>

text \<open>
  Modelled from the spec: \<open>isPositive\<close> is imported from \<open>./tle-utils\<close>, which is not
  among the source files. The spec speaks only of the sign of a longitude.
  \<open>crossesAntemeridian\<close> calls it on truthy numbers only, so its value at zero and at
  \<open>NaN\<close> is never observed.
\<close>

fun isPositive :: "num \<Rightarrow> bool" where
  "isPositive (Num x) = (0 < x)"
| "isPositive PInf = True"
| "isPositive _ = False"

text \<open>
  \<^verbatim>\<open>
  crossesAntemeridian(longitude1, longitude2) {
    if (!longitude1 || !longitude2) return false;
    const isLong1Positive = isPositive(longitude1);
    const isLong2Positive = isPositive(longitude2);
    const haveSameSigns = isLong1Positive === isLong2Positive;
    if (haveSameSigns) return false;
    const isNearAntemeridian = Math.abs(longitude1) > 100;
    return isNearAntemeridian;
  }
  \<close>
  The callers pass \<open>lastLatLon[1]\<close>, which is \<open>undefined\<close> while \<open>lastLatLon\<close> is the
  empty array.
\<close>

definition crossesAntemeridian :: "num option \<Rightarrow> num option \<Rightarrow> bool" where
  "crossesAntemeridian longitude1 longitude2 =
     (case (longitude1, longitude2) of
        (Some l1, Some l2) \<Rightarrow>
          if \<not> truthy l1 \<or> \<not> truthy l2 then False
          else if isPositive l1 = isPositive l2 then False
          else jgt (jabs l1) (Num 100)
      | _ \<Rightarrow> False)"

text \<open>
  C1 (as amended). For all longitudes \<open>a\<close> and \<open>b\<close>, \<open>crossesAntemeridian(a, b)\<close> is true
  if and only if both are nonzero, their signs differ and the FIRST one has absolute
  value greater than 100; the second longitude's magnitude is never inspected. The three
  documented examples hold: \<open>(179.9, -179.9)\<close> crosses, \<open>(10, -10)\<close> does not,
  \<open>(-170, 170)\<close> crosses.
\<close>

theorem crossesAntemeridian_iff:
  "(crossesAntemeridian (Some (Num a)) (Some (Num b)) \<longleftrightarrow>
      a \<noteq> 0 \<and> b \<noteq> 0 \<and> (0 < a) \<noteq> (0 < b) \<and> 100 < \<bar>a\<bar>)
   \<and> crossesAntemeridian (Some (Num (1799 / 10))) (Some (Num (- (1799 / 10))))
   \<and> \<not> crossesAntemeridian (Some (Num 10)) (Some (Num (- 10)))
   \<and> crossesAntemeridian (Some (Num (- 170))) (Some (Num 170))"
  by (simp add: crossesAntemeridian_def)

theorem crossesAntemeridian_iff_witness:
  "crossesAntemeridian (Some (Num 150)) (Some (Num (- 3)))"
  using crossesAntemeridian_iff [of 150 "- 3"] by simp

text \<open>
  The claim as stated ("at least one of a, b has absolute value greater than 100")
  fails at \<open>(50, -170)\<close>: the signs differ and \<open>|b| > 100\<close>, yet the code answers false.
\<close>

theorem crossesAntemeridian_first_only_counterexample:
  "\<not> (crossesAntemeridian (Some (Num 50)) (Some (Num (- 170))) \<longleftrightarrow>
        ((0 < (50::real)) \<noteq> (0 < (- 170::real)) \<and> (100 < \<bar>50::real\<bar> \<or> 100 < \<bar>- 170::real\<bar>)))"
  by (simp add: crossesAntemeridian_def)

section \<open>Strings and the number parsers\<close>

text \<open>
  A string is a list of characters; a \<^typ>\<open>char\<close> stands for one code unit (TLEs are
  ASCII). \<open>isWhiteSpace\<close> is the set that \<open>trim\<close>, \<open>parseInt\<close> and \<open>parseFloat\<close>
  skip: TAB, LF, VT, FF, CR, SP and NBSP.
\<close>

definition isWhiteSpace :: "char \<Rightarrow> bool" where
  "isWhiteSpace c = (of_char c \<in> {9, 10, 11, 12, 13, 32, 160 :: nat})"

definition trim :: "string \<Rightarrow> string" where
  "trim s = rev (dropWhile isWhiteSpace (rev (dropWhile isWhiteSpace s)))"

definition substr :: "string \<Rightarrow> nat \<Rightarrow> nat \<Rightarrow> string" where
  "substr s start len = take len (drop start s)"

text \<open>\<open>s.split(d)\<close> for a one-character separator: \<open>''.split(d)\<close> is \<open>['']\<close>.\<close>

fun split :: "char \<Rightarrow> string \<Rightarrow> string list" where
  "split d [] = [[]]"
| "split d (c # cs) =
     (if c = d then [] # split d cs
      else (case split d cs of
              [] \<Rightarrow> [[c]]
            | l # ls \<Rightarrow> (c # l) # ls))"

definition isDigit :: "char \<Rightarrow> bool" where
  "isDigit c = (48 \<le> (of_char c :: nat) \<and> (of_char c :: nat) \<le> 57)"

definition digitVal :: "char \<Rightarrow> nat" where
  "digitVal c = of_char c - 48"

definition digitsVal :: "string \<Rightarrow> nat" where
  "digitsVal ds = foldl (\<lambda>a c. 10 * a + digitVal c) 0 ds"

text \<open>An optional sign in front of a numeric literal: the sign found and the rest.\<close>

fun signOf :: "string \<Rightarrow> bool \<times> string" where
  "signOf (c # cs) =
     (if c = CHR ''-'' then (True, cs) else if c = CHR ''+'' then (False, cs)
      else (False, c # cs))"
| "signOf [] = (False, [])"

definition signed :: "bool \<Rightarrow> real \<Rightarrow> num" where
  "signed neg x = Num (if neg then - x else x)"

text \<open>
  \<open>parseInt(s, 10)\<close>: leading white space is skipped, then an optional sign, then the
  longest run of decimal digits; with no digit the result is \<open>NaN\<close>.
\<close>

definition parseInt :: "string \<Rightarrow> num" where
  "parseInt s =
     (case signOf (dropWhile isWhiteSpace s) of
        (neg, r) \<Rightarrow>
          (let ds = takeWhile isDigit r
           in if ds = [] then NaN else signed neg (of_nat (digitsVal ds))))"

text \<open>
  \<open>parseInt(x, 10)\<close> on a number converts it to a string first. For \<open>NaN\<close> and the
  infinities no digit is found; for a finite \<open>x\<close> whose string is in plain decimal
  notation (\<open>x = 0\<close> or \<open>1e-6 \<le> |x| < 1e21\<close>) the digits before the point are read, which
  truncates towards zero.
\<close>

fun parseIntNum :: "num \<Rightarrow> num" where
  "parseIntNum (Num x) = Num (of_int (if 0 \<le> x then \<lfloor>x\<rfloor> else \<lceil>x\<rceil>))"
| "parseIntNum _ = NaN"

text \<open>
  The exponent part of a decimal literal (\<open>e\<close> or \<open>E\<close>, an optional sign, digits): its
  value and the text after it; without a complete exponent part nothing is consumed.
\<close>

definition exponentPart :: "string \<Rightarrow> int \<times> string" where
  "exponentPart s =
     (case s of
        [] \<Rightarrow> (0, s)
      | c # cs \<Rightarrow>
          if c = CHR ''e'' \<or> c = CHR ''E'' then
            (case signOf cs of
               (neg, r) \<Rightarrow>
                 (let ds = takeWhile isDigit r
                  in if ds = [] then (0, s)
                     else ((if neg then - int (digitsVal ds) else int (digitsVal ds)),
                           dropWhile isDigit r)))
          else (0, s))"

text \<open>
  The longest prefix that is a signed decimal literal (\<open>StrDecimalLiteral\<close>):
  \<open>Infinity\<close>, or digits with an optional fraction and exponent, or a fraction that
  starts with the point. The result is the value and the text left over; \<open>None\<close>
  when no prefix is a literal.
\<close>

definition decimalLiteral :: "string \<Rightarrow> (num \<times> string) option" where
  "decimalLiteral s =
     (case signOf s of
        (neg, r) \<Rightarrow>
          if take 8 r = ''Infinity'' then Some (if neg then NInf else PInf, drop 8 r)
          else
            (let ip = takeWhile isDigit r;
                 r1 = dropWhile isDigit r;
                 hasPoint = (r1 \<noteq> [] \<and> hd r1 = CHR ''.'');
                 fp = (if hasPoint then takeWhile isDigit (tl r1) else []);
                 r2 = (if hasPoint then dropWhile isDigit (tl r1) else r1)
             in if ip = [] \<and> fp = [] then None
                else (case exponentPart r2 of
                        (e, r3) \<Rightarrow>
                          Some (signed neg
                                  ((of_nat (digitsVal ip)
                                     + of_nat (digitsVal fp) / 10 ^ length fp)
                                   * 10 powi e),
                                r3))))"

definition parseFloat :: "string \<Rightarrow> num" where
  "parseFloat s =
     (case decimalLiteral (dropWhile isWhiteSpace s) of
        None \<Rightarrow> NaN
      | Some (v, _) \<Rightarrow> v)"

text \<open>The remainder operator \<open>a % b\<close>; it truncates, so the sign is the dividend's.\<close>

fun jmod :: "num \<Rightarrow> num \<Rightarrow> num" where
  "jmod (Num x) (Num y) =
     (if y = 0 then NaN
      else Num (x - y * of_int (if 0 \<le> x / y then \<lfloor>x / y\<rfloor> else \<lceil>x / y\<rceil>)))"
| "jmod (Num x) PInf = Num x"
| "jmod (Num x) NInf = Num x"
| "jmod _ _ = NaN"

section \<open>Field decoder: assumed decimal point with exponent\<close>

text \<open>
  \<open>Number(s)\<close> on a string (\<open>StringToNumber\<close>), which the arithmetic operators apply to
  a string operand: the text is trimmed; the empty text is \<open>0\<close>; otherwise the whole
  text must be a decimal literal or an unsigned \<open>0x\<close>, \<open>0o\<close> or \<open>0b\<close> integer.
\<close>

definition radixDigit :: "char \<Rightarrow> nat option" where
  "radixDigit c =
     (let n = (of_char c :: nat)
      in if 48 \<le> n \<and> n \<le> 57 then Some (n - 48)
         else if 97 \<le> n \<and> n \<le> 102 then Some (n - 87)
         else if 65 \<le> n \<and> n \<le> 70 then Some (n - 55)
         else None)"

definition radixVal :: "nat \<Rightarrow> string \<Rightarrow> num" where
  "radixVal b ds =
     (if ds \<noteq> [] \<and> list_all (\<lambda>c. case radixDigit c of None \<Rightarrow> False | Some v \<Rightarrow> v < b) ds
      then Num (of_nat (foldl (\<lambda>a c. b * a + the (radixDigit c)) 0 ds))
      else NaN)"

definition nonDecimalLiteral :: "string \<Rightarrow> num" where
  "nonDecimalLiteral s =
     (if take 2 s = ''0x'' \<or> take 2 s = ''0X'' then radixVal 16 (drop 2 s)
      else if take 2 s = ''0o'' \<or> take 2 s = ''0O'' then radixVal 8 (drop 2 s)
      else if take 2 s = ''0b'' \<or> take 2 s = ''0B'' then radixVal 2 (drop 2 s)
      else NaN)"

definition toNumber :: "string \<Rightarrow> num" where
  "toNumber s =
     (let t = trim s
      in if t = [] then Num 0
         else (case decimalLiteral t of
                 Some (v, []) \<Rightarrow> v
               | _ \<Rightarrow> nonDecimalLiteral t))"

text \<open>The decimal digits of a natural number, as \<open>Number.prototype.toString\<close> prints them.\<close>

definition digitChar :: "nat \<Rightarrow> char" where
  "digitChar d = ''0123456789'' ! d"

fun natToString :: "nat \<Rightarrow> string" where
  "natToString n =
     (if n < 10 then [digitChar n]
      else natToString (n div 10) @ [digitChar (n mod 10)])"

declare natToString.simps [simp del]

text \<open>
  \<^verbatim>\<open>
  getDigitCount(num) {
    const absVal = Math.abs(num);
    return absVal.toString().length;
  }
  \<close>
  \<open>Math.abs\<close> converts its argument to a number. The string of \<open>NaN\<close> has three
  characters and that of \<open>Infinity\<close> eight; an integer below \<open>10^21\<close> prints as its
  decimal digits. The rendering of the other finite numbers (shortest round-trip
  digits of the binary64 value) is outside the model: the result is \<open>None\<close> there.
\<close>

fun getDigitCount :: "num \<Rightarrow> nat option" where
  "getDigitCount NaN = Some 3"
| "getDigitCount (Num x) =
     (if of_int \<lfloor>x\<rfloor> = x \<and> \<bar>x\<bar> < 10 ^ 21 then Some (length (natToString (nat \<lfloor>\<bar>x\<bar>\<rfloor>)))
      else None)"
| "getDigitCount _ = Some 8"

text \<open>
  \<^verbatim>\<open>
  toLeadingDecimal(num) {
    const numDigits = this.getDigitCount(num);
    const zeroes = '0'.repeat(numDigits - 1);
    return parseFloat(num * `0.${zeroes}1`);
  }
  \<close>
  The argument is the field text. \<open>parseFloat\<close> of a number prints and reads it back,
  which leaves it as it is.
\<close>

definition toLeadingDecimal :: "string \<Rightarrow> num option" where
  "toLeadingDecimal num =
     (case getDigitCount (toNumber num) of
        None \<Rightarrow> None
      | Some numDigits \<Rightarrow>
          (let zeroes = replicate (numDigits - 1) CHR ''0''
           in Some (jmul (toNumber num) (toNumber (''0.'' @ zeroes @ ''1'')))))"

text \<open>
  \<open>Math.pow(10, n)\<close>, called on a result of \<open>parseInt\<close> only: \<open>NaN\<close> or an integer.
\<close>

fun pow10 :: "num \<Rightarrow> num" where
  "pow10 (Num n) = Num (10 powi \<lfloor>n\<rfloor>)"
| "pow10 PInf = PInf"
| "pow10 NInf = Num 0"
| "pow10 NaN = NaN"

text \<open>
  \<open>x.toPrecision(p)\<close> for a positive \<open>x\<close>. \<open>exp10 x\<close> is the decimal exponent \<open>e\<close> with
  \<open>10^e \<le> x < 10^(e+1)\<close>, found by counting the digits of the integer part of \<open>x\<close> or of
  \<open>1/x\<close>. \<open>precisionDigits p x\<close> is the pair \<open>(n, e)\<close> of ECMAScript: \<open>n\<close> has \<open>p\<close>
  digits and \<open>n * 10^(e-p+1)\<close> is as close to \<open>x\<close> as possible, the larger \<open>n\<close> on a tie.
\<close>

definition exp10 :: "real \<Rightarrow> int" where
  "exp10 x =
     (if 1 \<le> x then int (length (natToString (nat \<lfloor>x\<rfloor>))) - 1
      else - int (length (natToString (nat (\<lceil>1 / x\<rceil> - 1)))))"

definition precisionDigits :: "nat \<Rightarrow> real \<Rightarrow> nat \<times> int" where
  "precisionDigits p x =
     (let e = exp10 x;
          n = nat \<lfloor>x / 10 powi (e - int p + 1) + 1 / 2\<rfloor>
      in if 10 ^ p \<le> n then (10 ^ (p - 1), e + 1) else (n, e))"

definition formatPrecision :: "nat \<Rightarrow> nat \<times> int \<Rightarrow> string" where
  "formatPrecision p ne =
     (case ne of
        (n, e) \<Rightarrow>
          (let m = natToString n
           in if e < - 6 \<or> int p \<le> e then
                take 1 m @ (if 1 < p then ''.'' @ drop 1 m else [])
                  @ ''e'' @ (if 0 \<le> e then ''+'' else ''-'') @ natToString (nat \<bar>e\<bar>)
              else if e = int p - 1 then m
              else if 0 \<le> e then take (nat (e + 1)) m @ ''.'' @ drop (nat (e + 1)) m
              else ''0.'' @ replicate (nat (- (e + 1))) CHR ''0'' @ m))"

fun toPrecision :: "nat \<Rightarrow> num \<Rightarrow> string" where
  "toPrecision p NaN = ''NaN''"
| "toPrecision p PInf = ''Infinity''"
| "toPrecision p NInf = ''-Infinity''"
| "toPrecision p (Num x) =
     (if x = 0 then ''0'' @ (if 1 < p then ''.'' @ replicate (p - 1) CHR ''0'' else [])
      else (if x < 0 then ''-'' else []) @ formatPrecision p (precisionDigits p \<bar>x\<bar>))"

text \<open>
  \<^verbatim>\<open>
  decimalAssumedEToFloat(str) {
    const numWithAssumedLeadingDecimal = str.substr(0, str.length - 2);
    const num = this.toLeadingDecimal(numWithAssumedLeadingDecimal);
    const leadingDecimalPoints = parseInt(str.substr(str.length - 2, 2), 10);
    const float = num * Math.pow(10, leadingDecimalPoints);
    return float.toPrecision(5);
  }
  \<close>
  The result is a string.
\<close>

definition decimalAssumedEToFloat :: "string \<Rightarrow> string option" where
  "decimalAssumedEToFloat str =
     (let numWithAssumedLeadingDecimal = take (length str - 2) str
      in case toLeadingDecimal numWithAssumedLeadingDecimal of
           None \<Rightarrow> None
         | Some num \<Rightarrow>
             (let leadingDecimalPoints = parseInt (drop (length str - 2) str);
                  float = jmul num (pow10 leadingDecimalPoints)
              in Some (toPrecision 5 float)))"

section \<open>TLE records, errors and the memoization cache\<close>

text \<open>
  The canonical record that \<open>parseTLE\<close> produces: \<open>{ name, arr }\<close>. An input is a
  string, an array of line strings, such a record, or (\<open>InOther\<close>) a number or a
  boolean.
\<close>

record tle =
  name :: string
  arr :: "string list"

datatype input = InStr string | InArr "string list" | InRec tle | InOther

text \<open>
  The exceptions: the three \<open>Error\<close>s the file throws itself, the \<open>TypeError\<close> of the
  engine (a method called on \<open>undefined\<close>, or a property that is not a function), and
  whatever the propagator throws.
\<close>

datatype error =
    TLEInputInvalid
  | CharacterArrayEmpty
  | TLECouldNotBeParsed
  | TypeError
  | PropagationError

text \<open>Sequencing of two steps, the first of which may throw.\<close>

definition bindE :: "error + 'a \<Rightarrow> ('a \<Rightarrow> error + 'b) \<Rightarrow> error + 'b" where
  "bindE m f = (case m of Inl e \<Rightarrow> Inl e | Inr x \<Rightarrow> f x)"

text \<open>The object \<open>getSatelliteInfo\<close> returns, and a \<open>[lat, lng]\<close> pair.\<close>

record satinfo =
  lng :: num
  lat :: num
  elevation :: num
  azimuth :: num
  rangeSat :: num
  height :: num
  velocity :: num

type_synonym latlon = "num \<times> num"

text \<open>
  An entry of \<open>cache.antemeridianCrossings\<close>: the sentinel \<open>-1\<close> or the array of the
  crossing times pushed so far.
\<close>

datatype crossings = NoCrossing | Times "num list"

text \<open>
  \<open>x.toFixed()\<close>, which prints \<open>x\<close> rounded to an integer (half away from zero), with a
  minus sign whenever \<open>x < 0\<close>: \<open>(-0.4).toFixed()\<close> is \<open>-0\<close>. The printed text is
  represented by the sign and the integer.
\<close>

datatype fixed = Fixed bool nat | FixedNaN | FixedInf bool

fun toFixed :: "num \<Rightarrow> fixed" where
  "toFixed (Num x) = Fixed (x < 0) (nat \<lfloor>\<bar>x\<bar> + 1 / 2\<rfloor>)"
| "toFixed NaN = FixedNaN"
| "toFixed PInf = FixedInf False"
| "toFixed NInf = FixedInf True"

text \<open>
  \<open>this.cache\<close> is one object whose keys are strings built as
  \<open>`${fnName}-${tleStr}-...`\<close>, plus the sub-object \<open>antemeridianCrossings\<close>. Keys of
  different functions start with different function names and never meet, so the model
  has one map per function; a key is the tuple of the values printed into it (the
  function name left out).
\<close>

record cache =
  parseCache :: "string \<rightharpoonup> tle"
  validCache :: "string \<rightharpoonup> bool"
  satInfoCache :: "string \<times> num \<times> num option \<times> num option \<times> num option \<rightharpoonup> satinfo"
  orbitLengthCache :: "string \<rightharpoonup> num"
  antemeridianCrossings :: "string \<rightharpoonup> crossings"
  groundTrackCache :: "string \<times> num option \<times> fixed \<rightharpoonup> latlon list list"
  orbitTrackCache :: "string \<times> fixed \<times> num option \<rightharpoonup> latlon list"

definition emptyCache :: cache where
  "emptyCache =
     \<lparr>parseCache = Map.empty, validCache = Map.empty, satInfoCache = Map.empty,
      orbitLengthCache = Map.empty, antemeridianCrossings = Map.empty,
      groundTrackCache = Map.empty, orbitTrackCache = Map.empty\<rparr>"

text \<open>
  What the code takes from outside the repository: the clock, the date parser of the
  platform and the \<open>satellite.js\<close> propagator. \<open>now\<close> is \<open>Date.now()\<close> and \<open>currentYear\<close>
  is \<open>(new Date()).getFullYear()\<close>, one reading for the whole call; \<open>yearStart y\<close> is
  \<open>new Date(`1/1/${y} 0:0:0 Z`).getTime()\<close>; \<open>propagate\<close> stands for lines 688 to 747
  of \<open>getSatelliteInfo\<close> (the sanity check, \<open>twoline2satrec\<close>, \<open>propagate\<close> and the
  coordinate transforms) as a function of the lines, the time and the observer.
\<close>

record env =
  now :: num
  currentYear :: num
  yearStart :: "num \<Rightarrow> num"
  propagate :: "string list \<Rightarrow> num \<Rightarrow> num \<Rightarrow> num \<Rightarrow> num \<Rightarrow> error + satinfo"

section \<open>The parser\<close>

text \<open>
  \<^verbatim>\<open>
  parseTLE(inputTLE) {
    const fnName = 'parseTLE';
    if (typeof inputTLE === 'object' && inputTLE.arr) return inputTLE;
    const tleStrLong = (Array.isArray(inputTLE)) ? inputTLE.join('') : inputTLE;
    const tleStr = tleStrLong.substr && tleStrLong.substr(0, 30);
    const cacheKey = `${fnName}-${tleStr}`;
    if (this.cache[cacheKey]) return this.cache[cacheKey];
    const outputObj = {};
    const tleType = (Array.isArray(inputTLE)) ? 'array' : typeof inputTLE;
    let tleArr = [];
    switch (tleType) {
    case 'array':  tleArr = inputTLE.concat(); break;
    case 'string': tleArr = inputTLE.split('\n'); break;
    default: throw new Error('TLE input is invalid');
    }
    if (tleArr.length > 2) {
      outputObj.name = tleArr[0];
      tleArr.splice(0, 1);
    } else {
      outputObj.name = 'Unknown';
    }
    tleArr = tleArr.map(line => line.trim());
    outputObj.arr = tleArr;
    this.cache[cacheKey] = outputObj;
    return outputObj;
  }
  \<close>
  A number has no \<open>substr\<close>, so its \<open>tleStr\<close> is \<open>undefined\<close> and its key is the one of
  the string \<open>undefined\<close>.
\<close>

definition tleStrOf :: "input \<Rightarrow> string" where
  "tleStrOf inputTLE =
     (case inputTLE of
        InArr a \<Rightarrow> take 30 (concat a)
      | InStr s \<Rightarrow> take 30 s
      | _ \<Rightarrow> ''undefined'')"

definition buildTLE :: "string list \<Rightarrow> tle" where
  "buildTLE tleArr =
     (if 2 < length tleArr
      then \<lparr>name = hd tleArr, arr = map trim (tl tleArr)\<rparr>
      else \<lparr>name = ''Unknown'', arr = map trim tleArr\<rparr>)"

definition parseTLE :: "cache \<Rightarrow> input \<Rightarrow> error + (tle \<times> cache)" where
  "parseTLE c inputTLE =
     (case inputTLE of
        InRec r \<Rightarrow> Inr (r, c)
      | _ \<Rightarrow>
          (case parseCache c (tleStrOf inputTLE) of
             Some r \<Rightarrow> Inr (r, c)
           | None \<Rightarrow>
               (case inputTLE of
                  InArr a \<Rightarrow>
                    Inr (buildTLE a,
                         c\<lparr>parseCache := (parseCache c)(tleStrOf inputTLE \<mapsto> buildTLE a)\<rparr>)
                | InStr s \<Rightarrow>
                    Inr (buildTLE (split (CHR 0x0A) s),
                         c\<lparr>parseCache :=
                             (parseCache c)(tleStrOf inputTLE \<mapsto> buildTLE (split (CHR 0x0A) s))\<rparr>)
                | _ \<Rightarrow> Inl TLEInputInvalid)))"

section \<open>Field schema and the generated getters\<close>

text \<open>\<open>DATA_TYPES\<close>; the constructors carry the prefix \<open>T_\<close>.\<close>

datatype data_type = T_INT | T_FLOAT | T_CHAR | T_DECIMAL_ASSUMED | T_DECIMAL_ASSUMED_E

datatype line_id = line1 | line2

record field =
  f_line :: line_id
  f_start :: nat
  f_length :: nat
  f_type :: data_type

definition lineNumber1 :: field where
  "lineNumber1 = \<lparr>f_line = line1, f_start = 0, f_length = 1, f_type = T_INT\<rparr>"

definition epochYear :: field where
  "epochYear = \<lparr>f_line = line1, f_start = 18, f_length = 2, f_type = T_INT\<rparr>"

definition epochDay :: field where
  "epochDay = \<lparr>f_line = line1, f_start = 20, f_length = 12, f_type = T_FLOAT\<rparr>"

definition bstarDrag :: field where
  "bstarDrag = \<lparr>f_line = line1, f_start = 53, f_length = 8, f_type = T_DECIMAL_ASSUMED_E\<rparr>"

definition checksum1 :: field where
  "checksum1 = \<lparr>f_line = line1, f_start = 68, f_length = 1, f_type = T_INT\<rparr>"

definition lineNumber2 :: field where
  "lineNumber2 = \<lparr>f_line = line2, f_start = 0, f_length = 1, f_type = T_INT\<rparr>"

definition eccentricity :: field where
  "eccentricity = \<lparr>f_line = line2, f_start = 26, f_length = 7, f_type = T_DECIMAL_ASSUMED\<rparr>"

definition meanMotion :: field where
  "meanMotion = \<lparr>f_line = line2, f_start = 52, f_length = 11, f_type = T_FLOAT\<rparr>"

definition checksum2 :: field where
  "checksum2 = \<lparr>f_line = line2, f_start = 68, f_length = 1, f_type = T_INT\<rparr>"

text \<open>
  A getter's output: a number, or a string for \<open>CHAR\<close> and for \<open>DECIMAL_ASSUMED_E\<close>
  (\<open>toPrecision\<close> returns a string). \<open>VOutside\<close> is the string of a
  \<open>DECIMAL_ASSUMED_E\<close> field whose digit count is outside the model.
\<close>

datatype "value" = VNum num | VStr string | VOutside

definition decode :: "data_type \<Rightarrow> string \<Rightarrow> value" where
  "decode t s =
     (case t of
        T_INT \<Rightarrow> VNum (parseInt s)
      | T_FLOAT \<Rightarrow> VNum (parseFloat s)
      | T_DECIMAL_ASSUMED \<Rightarrow> VNum (parseFloat (''0.'' @ s))
      | T_DECIMAL_ASSUMED_E \<Rightarrow>
          (case decimalAssumedEToFloat s of None \<Rightarrow> VOutside | Some r \<Rightarrow> VStr r)
      | T_CHAR \<Rightarrow> VStr (trim s))"

text \<open>
  The getter \<open>createTLEValGetter(tleLine, prop)\<close> installs: parse the input, take the
  first or the second line, cut the field out and decode it. A missing line is
  \<open>undefined\<close>, and \<open>undefined.substr\<close> is a \<open>TypeError\<close>.
\<close>

definition getField :: "field \<Rightarrow> cache \<Rightarrow> input \<Rightarrow> error + (value \<times> cache)" where
  "getField f c inputTLE =
     bindE (parseTLE c inputTLE) (\<lambda>(parsedTLE, c').
       (let tleArr = arr parsedTLE;
            i = (if f_line f = line1 then 0 else 1)
        in if i < length tleArr
           then Inr (decode (f_type f) (substr (tleArr ! i) (f_start f) (f_length f)), c')
           else Inl TypeError))"

text \<open>The number a getter's output is read as where the code computes with it.\<close>

fun numOf :: "value \<Rightarrow> num" where
  "numOf (VNum n) = n"
| "numOf (VStr s) = toNumber s"
| "numOf VOutside = NaN"

text \<open>\<open>v === n\<close> for a getter's output \<open>v\<close> and a number \<open>n\<close>.\<close>

fun valueIs :: "value \<Rightarrow> num \<Rightarrow> bool" where
  "valueIs (VNum m) n = strictEq m n"
| "valueIs _ n = False"

section \<open>Checksum\<close>

text \<open>
  \<^verbatim>\<open>
  tleLineChecksum(tleLineStr) {
    const charArr = tleLineStr.split('');
    charArr.splice(charArr.length - 1, 1);
    if (charArr.length === 0) {
      throw new Error('Character array empty!', tleLineStr);
    }
    const checksum = charArr.reduce((sum, val) => {
      const parsedVal = parseInt(val, 10);
      const parsedSum = parseInt(sum, 10);
      if (Number.isInteger(parsedVal)) {
        return parsedSum + parsedVal;
      } else if (val === '-') {
        return parsedSum + 1;
      }
      return parsedSum;
    });
    return checksum % 10;
  }
  \<close>
  \<open>reduce\<close> is called without an initial value: the accumulator starts as the first
  character (a string, \<open>Inl\<close>), which the callback never sees as \<open>val\<close>, and is a number
  (\<open>Inr\<close>) from the first call of the callback on. The parameter \<open>sum\<close> is \<open>acc\<close> here.
\<close>

definition parseIntAcc :: "string + num \<Rightarrow> num" where
  "parseIntAcc acc = (case acc of Inl s \<Rightarrow> parseInt s | Inr n \<Rightarrow> parseIntNum n)"

definition checksumStep :: "string + num \<Rightarrow> char \<Rightarrow> string + num" where
  "checksumStep acc val =
     (let parsedVal = parseInt [val];
          parsedSum = parseIntAcc acc
      in Inr (if isInteger parsedVal then jadd parsedSum parsedVal
              else if val = CHR ''-'' then jadd parsedSum (Num 1)
              else parsedSum))"

definition tleLineChecksum :: "string \<Rightarrow> error + num" where
  "tleLineChecksum tleLineStr =
     (let charArr = butlast tleLineStr
      in case charArr of
           [] \<Rightarrow> Inl CharacterArrayEmpty
         | c # cs \<Rightarrow>
             (let checksum = foldl checksumStep (Inl [c]) cs
              in Inr (jmod (case checksum of Inl s \<Rightarrow> toNumber s | Inr n \<Rightarrow> n) (Num 10))))"

section \<open>Validity check\<close>

text \<open>
  \<^verbatim>\<open>
  isValidTLE(tle) {
    const fnName = 'isValidTLE';
    const parsedTLE = this.parseTLE(tle);
    const tleStr = parsedTLE.arr.join('').substr(0, 30);
    const cacheKey = `${fnName}-${tleStr}`;
    if (this.cache[cacheKey]) return this.cache[cacheKey];
    let isValid = true;
    if (parsedTLE.arr.length !== 2) return false;
    parsedTLE.arr.forEach((line, index) => {
      if (!isValid) return;
      const lineNumber = index + 1;
      const parsedLineNumber = this[`getLineNumber${lineNumber}`](parsedTLE);
      const lineNumberIsValid = parsedLineNumber === lineNumber;
      const calculatedLineChecksum = this.tleLineChecksum(parsedTLE.arr[index]);
      const parsedChecksum = this[`getChecksum${lineNumber}`](parsedTLE);
      const checksumIsValid = parsedChecksum === calculatedLineChecksum;
      if (!lineNumberIsValid || !checksumIsValid) {
        isValid = false;
      }
    });
    this.cache[cacheKey] = isValid;
    return isValid;
  }
  \<close>
  \<open>checkLine\<close> is the body of the callback for one index, \<open>forEachLine\<close> the loop over
  the indices. The cache holds \<open>true\<close> or \<open>false\<close> under the key; only a stored \<open>true\<close>
  is truthy and returned.
\<close>

definition lineGetters :: "nat \<Rightarrow> (field \<times> field) option" where
  "lineGetters index =
     (if index = 0 then Some (lineNumber1, checksum1)
      else if index = 1 then Some (lineNumber2, checksum2)
      else None)"

definition checkLine :: "cache \<Rightarrow> tle \<Rightarrow> nat \<Rightarrow> error + (bool \<times> cache)" where
  "checkLine c parsedTLE index =
     (case lineGetters index of
        None \<Rightarrow> Inl TypeError
      | Some (lineNumberField, checksumField) \<Rightarrow>
          bindE (getField lineNumberField c (InRec parsedTLE)) (\<lambda>(parsedLineNumber, c1).
          bindE (tleLineChecksum (arr parsedTLE ! index)) (\<lambda>calculatedLineChecksum.
          bindE (getField checksumField c1 (InRec parsedTLE)) (\<lambda>(parsedChecksum, c2).
            (let lineNumberIsValid = valueIs parsedLineNumber (Num (of_nat (index + 1)));
                 checksumIsValid = valueIs parsedChecksum calculatedLineChecksum
             in Inr (lineNumberIsValid \<and> checksumIsValid, c2))))))"

fun forEachLine :: "cache \<Rightarrow> tle \<Rightarrow> nat list \<Rightarrow> bool \<Rightarrow> error + (bool \<times> cache)" where
  "forEachLine c parsedTLE [] isValid = Inr (isValid, c)"
| "forEachLine c parsedTLE (index # rest) isValid =
     (if \<not> isValid then forEachLine c parsedTLE rest isValid
      else bindE (checkLine c parsedTLE index) (\<lambda>(ok, c').
             forEachLine c' parsedTLE rest ok))"

definition isValidTLE :: "cache \<Rightarrow> input \<Rightarrow> error + (bool \<times> cache)" where
  "isValidTLE c inputTLE =
     bindE (parseTLE c inputTLE) (\<lambda>(parsedTLE, c1).
       (let tleStr = take 30 (concat (arr parsedTLE))
        in if validCache c1 tleStr = Some True then Inr (True, c1)
           else if length (arr parsedTLE) \<noteq> 2 then Inr (False, c1)
           else bindE (forEachLine c1 parsedTLE [0 ..< length (arr parsedTLE)] True)
                  (\<lambda>(isValid, c2).
                     Inr (isValid, c2\<lparr>validCache := (validCache c2)(tleStr \<mapsto> isValid)\<rparr>))))"

section \<open>Facts about the parsers\<close>

lemma bindE_simps [simp]:
  "bindE (Inl e) f = Inl e" "bindE (Inr x) f = f x"
  by (simp_all add: bindE_def)




lemma isDigit_not_ws: "isDigit c \<Longrightarrow> \<not> isWhiteSpace c"
  by (auto simp: isDigit_def isWhiteSpace_def)

lemma not_isDigit_chars:
  "\<not> isDigit CHR ''-''" "\<not> isDigit CHR ''+''" "\<not> isDigit CHR ''.''" "\<not> isDigit CHR ''I''"
  by (simp_all add: isDigit_def)

lemma isDigit_not_sign:
  "isDigit c \<Longrightarrow> c \<noteq> CHR ''-'' \<and> c \<noteq> CHR ''+'' \<and> c \<noteq> CHR ''.'' \<and> c \<noteq> CHR ''I''"
  using not_isDigit_chars by metis

lemma signOf_digit: "isDigit c \<Longrightarrow> signOf (c # cs) = (False, c # cs)"
  using isDigit_not_sign [of c] by auto

lemma parseInt_digit: "isDigit c \<Longrightarrow> parseInt [c] = Num (of_nat (digitVal c))"
  using isDigit_not_sign [of c]
  by (simp add: parseInt_def isDigit_not_ws signed_def digitsVal_def)

lemma parseInt_nondigit: "\<not> isDigit c \<Longrightarrow> parseInt [c] = NaN"
  by (simp add: parseInt_def)

lemma toNumber_digit: "isDigit c \<Longrightarrow> toNumber [c] = Num (of_nat (digitVal c))"
  using isDigit_not_sign [of c]
  by (simp add: toNumber_def trim_def isDigit_not_ws decimalLiteral_def signOf_digit exponentPart_def
      signed_def digitsVal_def)

lemma jmod_of_nat: "jmod (Num (of_nat n)) (Num 10) = Num (of_nat (n mod 10))"
proof -
  have "\<lfloor>(of_nat n :: real) / 10\<rfloor> = int (n div 10)"
    using floor_divide_of_nat_eq [of n 10, where ?'a = real] by simp
  moreover have "(of_nat n :: real) - 10 * of_nat (n div 10) = of_nat (n mod 10)"
    by (metis add_diff_cancel_left' of_nat_add of_nat_mult of_nat_numeral mult_div_mod_eq)
  ultimately show ?thesis by simp
qed

section \<open>The checksum is the digit sum plus the minus signs, modulo 10\<close>

text \<open>What one character of the body adds to the sum.\<close>

definition contribution :: "char \<Rightarrow> nat" where
  "contribution c = (if isDigit c then digitVal c else if c = CHR ''-'' then 1 else 0)"

lemma checksumStep_num:
  "checksumStep (Inr (Num (of_nat n))) c = Inr (Num (of_nat (n + contribution c)))"
  by (cases "isDigit c")
     (simp_all add: checksumStep_def parseIntAcc_def parseInt_digit parseInt_nondigit contribution_def)

lemma checksumStep_first:
  "isDigit d \<Longrightarrow> checksumStep (Inl [d]) c = Inr (Num (of_nat (digitVal d + contribution c)))"
  by (cases "isDigit c")
     (simp_all add: checksumStep_def parseIntAcc_def parseInt_digit parseInt_nondigit contribution_def)

lemma foldl_checksumStep:
  "foldl checksumStep (Inr (Num (of_nat n))) cs =
     Inr (Num (of_nat (n + sum_list (map contribution cs))))"
  by (induction cs arbitrary: n) (simp_all add: checksumStep_num add.assoc del: of_nat_add)

lemma sum_list_contribution:
  "sum_list (map contribution xs) =
     sum_list (map digitVal (filter isDigit xs)) + length (filter (\<lambda>x. x = CHR ''-'') xs)"
  using not_isDigit_chars(1) by (induction xs) (auto simp: contribution_def)

lemma tleLineChecksum_short: "length l \<le> 1 \<Longrightarrow> tleLineChecksum l = Inl CharacterArrayEmpty"
  by (cases l) (simp_all add: tleLineChecksum_def)

lemma tleLineChecksum_long: "2 \<le> length l \<Longrightarrow> \<exists>n. tleLineChecksum l = Inr n"
proof -
  assume "2 \<le> length l"
  then have "butlast l \<noteq> []" by (cases l rule: rev_cases) auto
  then show ?thesis by (auto simp: tleLineChecksum_def Let_def split: list.splits)
qed

lemma tleLineChecksum_digit_first:
  assumes "body \<noteq> []" and "isDigit (hd body)"
  shows "tleLineChecksum (body @ [c]) =
           Inr (Num (of_nat ((sum_list (map digitVal (filter isDigit body))
                               + length (filter (\<lambda>x. x = CHR ''-'') body)) mod 10)))"
proof -
  define S where "S = sum_list (map contribution body)"
  obtain d ds where body: "body = d # ds" using assms(1) by (cases body) auto
  with assms(2) have d: "isDigit d" by simp
  then have cd: "contribution d = digitVal d" by (simp add: contribution_def)
  have butlast: "butlast (body @ [c]) = d # ds" by (simp add: body)
  have "jmod (case foldl checksumStep (Inl [d]) ds of Inl s \<Rightarrow> toNumber s | Inr n \<Rightarrow> n) (Num 10)
          = Num (of_nat (S mod 10))"
  proof (cases ds)
    case Nil
    then have "S = digitVal d" by (simp add: S_def body cd)
    then show ?thesis using d Nil by (simp add: toNumber_digit jmod_of_nat del: jmod.simps)
  next
    case (Cons x xs)
    have "S = digitVal d + contribution x + sum_list (map contribution xs)"
      by (simp add: S_def body Cons cd)
    then have "foldl checksumStep (Inl [d]) ds = Inr (Num (of_nat S))"
      using d by (simp add: Cons checksumStep_first foldl_checksumStep del: of_nat_add)
    then show ?thesis by (simp add: jmod_of_nat del: jmod.simps)
  qed
  then have "tleLineChecksum (body @ [c]) = Inr (Num (of_nat (S mod 10)))"
    unfolding tleLineChecksum_def butlast by simp
  then show ?thesis by (simp add: S_def sum_list_contribution)
qed

text \<open>
  C2 (as amended). For every line whose body (all characters but the last, which is the
  checksum position) is not empty and starts with a decimal digit, \<open>tleLineChecksum\<close>
  returns \<open>(d_1 + ... + d_n + k) mod 10\<close>, where \<open>d_1..d_n\<close> are the digits of the body and
  \<open>k\<close> the number of its minus signs; every other character contributes 0. On a line of
  at most one character, whose body is empty, it raises instead of returning.
\<close>

theorem tleLineChecksum_sum:
  "(body \<noteq> [] \<and> isDigit (hd body) \<longrightarrow>
      tleLineChecksum (body @ [c]) =
        Inr (Num (of_nat ((sum_list (map digitVal (filter isDigit body))
                            + length (filter (\<lambda>x. x = CHR ''-'') body)) mod 10))))
   \<and> (length l \<le> 1 \<longrightarrow> tleLineChecksum l = Inl CharacterArrayEmpty)"
  using tleLineChecksum_digit_first [of body c] tleLineChecksum_short [of l] by blast

theorem tleLineChecksum_sum_witness:
  "tleLineChecksum ''1-59'' = Inr (Num 7) \<and> tleLineChecksum ''7'' = Inl CharacterArrayEmpty"
  using tleLineChecksum_sum [of "''1-5''" "CHR ''9''" "''7''"]
  by (simp add: isDigit_def digitVal_def)

text \<open>
  The claim as stated fails on a line with no digit and no minus sign before the
  checksum position, such as the one-character line \<open>7\<close>: the claimed value is 0 and the
  code raises. It also fails on \<open>-10\<close>, whose body \<open>-1\<close> has the digit 1 and one minus sign:
  the claimed value is 2, and the code returns \<open>NaN\<close>, because the accumulator of \<open>reduce\<close>
  starts as the first character and \<open>parseInt('-', 10)\<close> is \<open>NaN\<close>.
\<close>

theorem tleLineChecksum_counterexample:
  "tleLineChecksum ''7'' = Inl CharacterArrayEmpty \<and> tleLineChecksum ''-10'' = Inr NaN"
  by (simp add: tleLineChecksum_def checksumStep_def parseIntAcc_def parseInt_def isDigit_def
      isWhiteSpace_def signed_def Let_def)

section \<open>When the validity check returns and when it raises\<close>

lemma getField_rec:
  "getField f c (InRec r) =
     (if (if f_line f = line1 then 0 else 1) < length (arr r)
      then Inr (decode (f_type f)
                 (substr (arr r ! (if f_line f = line1 then 0 else 1)) (f_start f) (f_length f)), c)
      else Inl TypeError)"
  by (simp add: getField_def parseTLE_def Let_def)

lemma checkLine_long:
  assumes "index < 2" "length (arr r) = 2" "2 \<le> length (arr r ! index)"
  shows "\<exists>b. checkLine c r index = Inr (b, c)"
proof -
  obtain n where n: "tleLineChecksum (arr r ! index) = Inr n"
    using tleLineChecksum_long [OF assms(3)] by blast
  from assms(1) have "index = 0 \<or> index = 1" by auto
  then show ?thesis
    using assms(2) n
    by (auto simp: checkLine_def lineGetters_def getField_rec lineNumber1_def lineNumber2_def
        checksum1_def checksum2_def Let_def)
qed

lemma checkLine_short:
  assumes "index < 2" "length (arr r) = 2" "length (arr r ! index) \<le> 1"
  shows "checkLine c r index = Inl CharacterArrayEmpty"
proof -
  from assms(1) have "index = 0 \<or> index = 1" by auto
  then show ?thesis
    using assms(2) tleLineChecksum_short [OF assms(3)]
    by (auto simp: checkLine_def lineGetters_def getField_rec lineNumber1_def lineNumber2_def
        checksum1_def checksum2_def Let_def)
qed

lemma upt_0_2: "[0 ..< 2] = [0, Suc 0]"
  by (simp add: upt_rec numeral_2_eq_2)

lemma forEachLine_long:
  assumes "length (arr r) = 2" "\<forall>l \<in> set (arr r). 2 \<le> length l"
  shows "\<exists>b. forEachLine c r [0 ..< 2] True = Inr (b, c)"
proof -
  have l0: "2 \<le> length (arr r ! 0)" and l1: "2 \<le> length (arr r ! 1)"
    using assms by (simp_all)
  obtain b0 where b0: "checkLine c r 0 = Inr (b0, c)"
    using checkLine_long [of 0 r c] assms(1) l0 by auto
  obtain b1 where b1: "checkLine c r 1 = Inr (b1, c)"
    using checkLine_long [of 1 r c] assms(1) l1 by auto
  show ?thesis
    using b0 b1 by (cases b0) (auto simp: upt_0_2)
qed

text \<open>
  Following the spec's words (section 4.2): a record is valid "iff: exactly two lines
  present; each line's first column decodes (as INTEGER) to its expected line number (1
  for line 1, 2 for line 2); each line's checksum column matches the computed checksum",
  where the checksum is to "sum every decimal digit character in the line excluding the
  final checksum character itself; add 1 for every '-' character encountered; all other
  characters contribute 0; result = sum mod 10". The checksum column is the one of the
  schema, index 68. These three definitions are the spec's, to be compared with
  \<open>isValidTLE\<close>; they are not code of the repository.
\<close>

definition specChecksum :: "string \<Rightarrow> nat" where
  "specChecksum l =
     (sum_list (map digitVal (filter isDigit (butlast l)))
        + length (filter (\<lambda>x. x = CHR ''-'') (butlast l))) mod 10"

definition specLineValid :: "nat \<Rightarrow> string \<Rightarrow> bool" where
  "specLineValid n l =
     (parseInt (substr l 0 1) = Num (of_nat n)
      \<and> parseInt (substr l 68 1) = Num (of_nat (specChecksum l)))"

definition specValid :: "tle \<Rightarrow> bool" where
  "specValid r =
     (length (arr r) = 2 \<and> specLineValid 1 (arr r ! 0) \<and> specLineValid 2 (arr r ! 1))"

lemma parseInt_single_digit: "parseInt [a] = Num x \<Longrightarrow> isDigit a"
  using parseInt_nondigit [of a] by (cases "isDigit a") simp_all

lemma checkLine_spec:
  assumes "index < 2" "length (arr r) = 2" "2 \<le> length (arr r ! index)"
  shows "checkLine c r index = Inr (specLineValid (index + 1) (arr r ! index), c)"
proof -
  define l where "l = arr r ! index"
  from assms(3) have "Suc (Suc 0) \<le> length l" by (simp add: l_def)
  then obtain a rest where l: "l = a # rest" and "Suc 0 \<le> length rest"
    unfolding Suc_le_length_iff by blast
  then have rest: "rest \<noteq> []" by auto
  have first: "substr l 0 1 = [a]" by (simp add: substr_def l)
  have body: "butlast l \<noteq> []" "hd (butlast l) = a" "butlast l @ [last l] = l"
    using rest by (simp_all add: l)
  obtain n where n: "tleLineChecksum l = Inr n"
    using tleLineChecksum_long [of l] assms(3) unfolding l_def by blast
  from assms(1) have idx: "index = 0 \<or> index = 1" by auto
  have getters: "lineGetters index = Some (if index = 0 then (lineNumber1, checksum1)
                                          else (lineNumber2, checksum2))"
    using idx by (auto simp: lineGetters_def)
  have fields: "getField (if index = 0 then lineNumber1 else lineNumber2) c (InRec r)
                  = Inr (VNum (parseInt (substr l 0 1)), c)"
    "getField (if index = 0 then checksum1 else checksum2) c (InRec r)
                  = Inr (VNum (parseInt (substr l 68 1)), c)"
    using idx assms(2)
    by (auto simp: getField_rec lineNumber1_def lineNumber2_def checksum1_def checksum2_def
        decode_def l_def)
  have unf: "checkLine c r index =
     Inr (strictEq (parseInt (substr l 0 1)) (Num (of_nat (index + 1)))
          \<and> strictEq (parseInt (substr l 68 1)) n, c)"
    using idx fields n
    by (auto simp: checkLine_def getters l_def [symmetric] Let_def)
  show ?thesis
  proof (cases "parseInt (substr l 0 1) = Num (of_nat (index + 1))")
    case True
    then have "isDigit a" unfolding first by (rule parseInt_single_digit)
    with tleLineChecksum_digit_first [of "butlast l" "last l"] body
    have "tleLineChecksum l = Inr (Num (of_nat (specChecksum l)))"
      by (simp add: specChecksum_def)
    with n have "n = Num (of_nat (specChecksum l))" by simp
    with True show ?thesis
      unfolding unf l_def [symmetric] by (auto simp: specLineValid_def strictEq_def)
  next
    case False
    then show ?thesis
      unfolding unf l_def [symmetric] by (simp add: specLineValid_def strictEq_def)
  qed
qed

lemma forEachLine_spec:
  assumes "length (arr r) = 2" "\<forall>l \<in> set (arr r). 2 \<le> length l"
  shows "forEachLine c r [0 ..< 2] True
           = Inr (specLineValid 1 (arr r ! 0) \<and> specLineValid 2 (arr r ! 1), c)"
proof -
  have l0: "2 \<le> length (arr r ! 0)" and l1: "2 \<le> length (arr r ! 1)"
    using assms by simp_all
  have c0: "checkLine c r 0 = Inr (specLineValid 1 (arr r ! 0), c)"
    using checkLine_spec [of 0 r c] assms(1) l0 by simp
  have c1: "checkLine c r (Suc 0) = Inr (specLineValid 2 (arr r ! 1), c)"
    using checkLine_spec [of 1 r c] assms(1) l1 by (simp add: numeral_2_eq_2)
  show ?thesis by (simp add: upt_0_2 c0 c1)
qed

text \<open>
  C3 (as amended). For every record whose lines each have at least two characters, and
  every state of the cache, \<open>isValidTLE\<close> does not raise: it returns a boolean, and this
  is true exactly when the record is valid in the spec's sense or a \<open>true\<close> is memoized
  under the record's 30-character key. So, nothing being memoized, it returns false on
  a wrong line count, on a corrupted line number column and on a corrupted checksum
  column. With a line count other than 2 it returns false whatever the lines are. On a
  two-line record whose first line has fewer than two characters it raises, instead of
  returning false, because \<open>tleLineChecksum\<close> throws on an empty line body and
  \<open>isValidTLE\<close> does not catch it.
\<close>

theorem isValidTLE_record:
  "((\<forall>l \<in> set (arr r). 2 \<le> length l) \<longrightarrow>
      (\<exists>c'. isValidTLE c (InRec r)
              = Inr (validCache c (take 30 (concat (arr r))) = Some True \<or> specValid r, c')))
   \<and> (length (arr r) \<noteq> 2 \<and> validCache c (take 30 (concat (arr r))) \<noteq> Some True
        \<longrightarrow> isValidTLE c (InRec r) = Inr (False, c))
   \<and> (length (arr r) = 2 \<and> validCache c (take 30 (concat (arr r))) \<noteq> Some True
        \<and> length (arr r ! 0) \<le> 1
        \<longrightarrow> isValidTLE c (InRec r) = Inl CharacterArrayEmpty)"
proof (intro conjI impI)
  assume long: "\<forall>l \<in> set (arr r). 2 \<le> length l"
  show "\<exists>c'. isValidTLE c (InRec r)
              = Inr (validCache c (take 30 (concat (arr r))) = Some True \<or> specValid r, c')"
  proof (cases "validCache c (take 30 (concat (arr r))) = Some True")
    case True
    then show ?thesis by (simp add: isValidTLE_def parseTLE_def Let_def)
  next
    case memo: False
    show ?thesis
    proof (cases "length (arr r) = 2")
      case False
      with memo show ?thesis
        by (simp add: isValidTLE_def parseTLE_def Let_def specValid_def)
    next
      case True
      from forEachLine_spec [OF True long, of c] True memo show ?thesis
        by (simp add: isValidTLE_def parseTLE_def Let_def specValid_def)
    qed
  qed
next
  assume "length (arr r) \<noteq> 2 \<and> validCache c (take 30 (concat (arr r))) \<noteq> Some True"
  then show "isValidTLE c (InRec r) = Inr (False, c)"
    by (simp add: isValidTLE_def parseTLE_def Let_def)
next
  assume a: "length (arr r) = 2 \<and> validCache c (take 30 (concat (arr r))) \<noteq> Some True
        \<and> length (arr r ! 0) \<le> 1"
  then have "checkLine c r 0 = Inl CharacterArrayEmpty"
    using checkLine_short [of 0 r c] by simp
  then show "isValidTLE c (InRec r) = Inl CharacterArrayEmpty"
    using a by (simp add: isValidTLE_def parseTLE_def Let_def upt_0_2)
qed

text \<open>
  The ISS (ZARYA) lines of the README are valid. With the checksum column of line 2
  changed from 0 to 5, or the line number column of line 1 changed from 1 to 3, or
  line 2 missing, the answer is false; with a first line of one character the call
  raises.
\<close>

lemma iss_specValid:
  "specLineValid (Suc 0) ''1 25544U 98067A   17206.18396726  .00001961  00000-0  36771-4 0  9993''"
  "specLineValid 2 ''2 25544  51.6400 208.9163 0006317  69.9862  25.2906 15.54225995 67660''"
  "\<not> specLineValid 2 ''2 25544  51.6400 208.9163 0006317  69.9862  25.2906 15.54225995 67665''"
  "\<not> specLineValid (Suc 0) ''3 25544U 98067A   17206.18396726  .00001961  00000-0  36771-4 0  9993''"
  by (simp_all add: specLineValid_def specChecksum_def substr_def parseInt_def isWhiteSpace_def
      isDigit_def digitVal_def digitsVal_def signed_def)

theorem isValidTLE_record_witness:
  "(\<exists>c'. isValidTLE emptyCache
           (InRec \<lparr>name = ''Unknown'', arr =
              [''1 25544U 98067A   17206.18396726  .00001961  00000-0  36771-4 0  9993'',
               ''2 25544  51.6400 208.9163 0006317  69.9862  25.2906 15.54225995 67660'']\<rparr>)
         = Inr (True, c'))
   \<and> (\<exists>c'. isValidTLE emptyCache
           (InRec \<lparr>name = ''Unknown'', arr =
              [''1 25544U 98067A   17206.18396726  .00001961  00000-0  36771-4 0  9993'',
               ''2 25544  51.6400 208.9163 0006317  69.9862  25.2906 15.54225995 67665'']\<rparr>)
         = Inr (False, c'))
   \<and> (\<exists>c'. isValidTLE emptyCache
           (InRec \<lparr>name = ''Unknown'', arr =
              [''3 25544U 98067A   17206.18396726  .00001961  00000-0  36771-4 0  9993'',
               ''2 25544  51.6400 208.9163 0006317  69.9862  25.2906 15.54225995 67660'']\<rparr>)
         = Inr (False, c'))
   \<and> isValidTLE emptyCache
        (InRec \<lparr>name = ''Unknown'', arr =
           [''1 25544U 98067A   17206.18396726  .00001961  00000-0  36771-4 0  9993'']\<rparr>)
        = Inr (False, emptyCache)
   \<and> isValidTLE emptyCache (InRec \<lparr>name = ''Unknown'', arr = [''1'', ''2 7'']\<rparr>)
        = Inl CharacterArrayEmpty"
  using isValidTLE_record [of "\<lparr>name = ''Unknown'', arr =
              [''1 25544U 98067A   17206.18396726  .00001961  00000-0  36771-4 0  9993'',
               ''2 25544  51.6400 208.9163 0006317  69.9862  25.2906 15.54225995 67660'']\<rparr>"
           emptyCache]
        isValidTLE_record [of "\<lparr>name = ''Unknown'', arr =
              [''1 25544U 98067A   17206.18396726  .00001961  00000-0  36771-4 0  9993'',
               ''2 25544  51.6400 208.9163 0006317  69.9862  25.2906 15.54225995 67665'']\<rparr>"
           emptyCache]
        isValidTLE_record [of "\<lparr>name = ''Unknown'', arr =
              [''3 25544U 98067A   17206.18396726  .00001961  00000-0  36771-4 0  9993'',
               ''2 25544  51.6400 208.9163 0006317  69.9862  25.2906 15.54225995 67660'']\<rparr>"
           emptyCache]
        isValidTLE_record [of "\<lparr>name = ''Unknown'', arr =
           [''1 25544U 98067A   17206.18396726  .00001961  00000-0  36771-4 0  9993'']\<rparr>"
           emptyCache]
        isValidTLE_record [of "\<lparr>name = ''Unknown'', arr = [''1'', ''2 7'']\<rparr>" emptyCache]
  by (simp add: emptyCache_def specValid_def iss_specValid)

text \<open>
  The claim as stated fails on the record with two empty lines, which is also what the
  parser makes of the string that is a single newline: \<open>isValidTLE\<close> raises. It also
  fails after a valid record has been checked: the answer \<open>true\<close> is memoized under the
  first 30 characters of the joined lines, and the record with the checksum column of
  line 2 corrupted, which has the same key, is then answered \<open>true\<close>.
\<close>

theorem isValidTLE_raises_counterexample:
  "isValidTLE emptyCache (InRec \<lparr>name = ''Unknown'', arr = [[], []]\<rparr>) = Inl CharacterArrayEmpty
   \<and> isValidTLE emptyCache (InStr [CHR 0x0A]) = Inl CharacterArrayEmpty
   \<and> (\<exists>c1. isValidTLE emptyCache
              (InRec \<lparr>name = ''Unknown'', arr =
                 [''1 25544U 98067A   17206.18396726  .00001961  00000-0  36771-4 0  9993'',
                  ''2 25544  51.6400 208.9163 0006317  69.9862  25.2906 15.54225995 67660'']\<rparr>)
              = Inr (True, c1)
          \<and> isValidTLE c1
              (InRec \<lparr>name = ''Unknown'', arr =
                 [''1 25544U 98067A   17206.18396726  .00001961  00000-0  36771-4 0  9993'',
                  ''2 25544  51.6400 208.9163 0006317  69.9862  25.2906 15.54225995 67665'']\<rparr>)
              = Inr (True, c1))"
proof (intro conjI)
  show "isValidTLE emptyCache (InRec \<lparr>name = ''Unknown'', arr = [[], []]\<rparr>)
          = Inl CharacterArrayEmpty"
    by (simp add: isValidTLE_def parseTLE_def Let_def upt_0_2 emptyCache_def checkLine_def
        lineGetters_def getField_rec lineNumber1_def tleLineChecksum_def)
  show "isValidTLE emptyCache (InStr [CHR 0x0A]) = Inl CharacterArrayEmpty"
    by (simp add: isValidTLE_def parseTLE_def Let_def upt_0_2 emptyCache_def checkLine_def
        lineGetters_def getField_rec lineNumber1_def tleLineChecksum_def tleStrOf_def buildTLE_def
        trim_def)
  define good where "good = \<lparr>name = ''Unknown'', arr =
      [''1 25544U 98067A   17206.18396726  .00001961  00000-0  36771-4 0  9993'',
       ''2 25544  51.6400 208.9163 0006317  69.9862  25.2906 15.54225995 67660'']\<rparr>"
  define bad where "bad = \<lparr>name = ''Unknown'', arr =
      [''1 25544U 98067A   17206.18396726  .00001961  00000-0  36771-4 0  9993'',
       ''2 25544  51.6400 208.9163 0006317  69.9862  25.2906 15.54225995 67665'']\<rparr>"
  define c1 where
    "c1 = emptyCache\<lparr>validCache := [take 30 (concat (arr good)) \<mapsto> True]\<rparr>"
  have fe: "forEachLine emptyCache good [0 ..< 2] True = Inr (True, emptyCache)"
    using forEachLine_spec [of good emptyCache] by (simp add: good_def iss_specValid)
  have v: "validCache emptyCache k = None" for k by (simp add: emptyCache_def)
  have v': "validCache emptyCache = Map.empty" by (simp add: emptyCache_def)
  have len: "length (arr good) = 2" by (simp add: good_def)
  have 1: "isValidTLE emptyCache (InRec good) = Inr (True, c1)"
    using fe by (simp add: isValidTLE_def parseTLE_def Let_def c1_def v v' len)
  have key: "take 30 (concat (arr bad)) = take 30 (concat (arr good))"
    by (simp add: good_def bad_def)
  have 2: "isValidTLE c1 (InRec bad) = Inr (True, c1)"
    by (simp add: isValidTLE_def parseTLE_def Let_def key c1_def)
  from 1 2 show "\<exists>c1. isValidTLE emptyCache
              (InRec \<lparr>name = ''Unknown'', arr =
                 [''1 25544U 98067A   17206.18396726  .00001961  00000-0  36771-4 0  9993'',
                  ''2 25544  51.6400 208.9163 0006317  69.9862  25.2906 15.54225995 67660'']\<rparr>)
              = Inr (True, c1)
          \<and> isValidTLE c1
              (InRec \<lparr>name = ''Unknown'', arr =
                 [''1 25544U 98067A   17206.18396726  .00001961  00000-0  36771-4 0  9993'',
                  ''2 25544  51.6400 208.9163 0006317  69.9862  25.2906 15.54225995 67665'']\<rparr>)
              = Inr (True, c1)"
    unfolding good_def bad_def by blast
qed

section \<open>Epoch time\<close>

text \<open>
  \<^verbatim>\<open>
  const MS_IN_A_DAY = 1000 * 60 * 60 * 24;

  dayOfYearToTimeStamp(dayOfYear, year) {
    year = year || (new Date()).getFullYear();
    const yearStart = new Date(`1/1/${year} 0:0:0 Z`);
    const yearStartMS = yearStart.getTime();
    return Math.floor(yearStartMS + ((dayOfYear - 1) * MS_IN_A_DAY));
  }

  getEpochTimestamp(tle) {
    const epochDay = this.getEpochDay(tle);
    const epochYear = this.getEpochYear(tle);
    return this.dayOfYearToTimeStamp(epochDay, epochYear);
  }

  getTLEEpochTimestamp(tle) {
    const epochYear = this.getEpochYear(tle);
    const epochDayOfYear = this.getEpochDay(tle);
    const timestamp = this.dayOfYearToTimeStamp(epochDayOfYear, epochYear);
    return timestamp;
  }
  \<close>
\<close>

definition MS_IN_A_DAY :: real where
  "MS_IN_A_DAY = 1000 * 60 * 60 * 24"

definition dayOfYearToTimeStamp :: "env \<Rightarrow> num \<Rightarrow> num \<Rightarrow> num" where
  "dayOfYearToTimeStamp e dayOfYear year =
     (let year' = (if truthy year then year else currentYear e);
          yearStartMS = yearStart e year'
      in jfloor (jadd yearStartMS (jmul (jsub dayOfYear (Num 1)) (Num MS_IN_A_DAY))))"

definition getEpochDay :: "cache \<Rightarrow> input \<Rightarrow> error + (value \<times> cache)" where
  "getEpochDay = getField epochDay"

definition getEpochYear :: "cache \<Rightarrow> input \<Rightarrow> error + (value \<times> cache)" where
  "getEpochYear = getField epochYear"

definition getEpochTimestamp :: "env \<Rightarrow> cache \<Rightarrow> input \<Rightarrow> error + (num \<times> cache)" where
  "getEpochTimestamp e c tle =
     bindE (getEpochDay c tle) (\<lambda>(epochDay, c1).
     bindE (getEpochYear c1 tle) (\<lambda>(epochYear, c2).
       Inr (dayOfYearToTimeStamp e (numOf epochDay) (numOf epochYear), c2)))"

definition getTLEEpochTimestamp :: "env \<Rightarrow> cache \<Rightarrow> input \<Rightarrow> error + (num \<times> cache)" where
  "getTLEEpochTimestamp e c tle =
     bindE (getEpochYear c tle) (\<lambda>(epochYear, c1).
     bindE (getEpochDay c1 tle) (\<lambda>(epochDayOfYear, c2).
       Inr (dayOfYearToTimeStamp e (numOf epochDayOfYear) (numOf epochYear), c2)))"

section \<open>Geometry queries\<close>

text \<open>
  \<^verbatim>\<open>
  getSatelliteInfo(tle, timestamp, observerLat, observerLng, observerHeight) {
    const fnName = 'getSatelliteInfo';
    const timestampCopy = timestamp || Date.now();
    const tleArr = (this.parseTLE(tle)).arr;
    const tleStrShort = tleArr.join('').substr(0, 30);
    const defaultObserverPosition = { lat: 36.9613422, lng: -122.0308, height: 0.370 };
    const obsLat = observerLat || defaultObserverPosition.lat;
    const obsLng = observerLng || defaultObserverPosition.lng;
    const obsHeight = observerHeight || defaultObserverPosition.height;
    const cacheKey = `${fnName}-${tleStrShort}-${timestampCopy}-${observerLat}-${observerLng}
  -${observerHeight}`;
    if (this.cache[cacheKey]) return this.cache[cacheKey];
    ... (the propagator and the coordinate transforms; these may throw) ...
    this.cache[cacheKey] = output;
    return output;
  }

  getLatLon(tle, optionalTimestamp = Date.now()) {
    const tleObj = this.parseTLE(tle);
    if (!this.isValidTLE(tleObj)) {
      throw new Error('TLE could not be parsed:', tle);
    }
    const satInfo = this.getSatelliteInfo(tleObj.arr, optionalTimestamp);
    return { lat: satInfo.lat, lng: satInfo.lng };
  }

  getLatLonArr(tle, optionalTimestamp = Date.now()) {
    const ll = this.getLatLon(tle, optionalTimestamp);
    return [ll.lat, ll.lng];
  }
  \<close>
\<close>

definition orDefault :: "num option \<Rightarrow> num \<Rightarrow> num" where
  "orDefault v d = (case v of None \<Rightarrow> d | Some n \<Rightarrow> if truthy n then n else d)"

definition getSatelliteInfo ::
  "env \<Rightarrow> cache \<Rightarrow> input \<Rightarrow> num option \<Rightarrow> num option \<Rightarrow> num option \<Rightarrow> num option
     \<Rightarrow> error + (satinfo \<times> cache)" where
  "getSatelliteInfo e c tle timestamp observerLat observerLng observerHeight =
     (let timestampCopy = orDefault timestamp (now e)
      in bindE (parseTLE c tle) (\<lambda>(parsedTLE, c1).
           (let tleArr = arr parsedTLE;
                tleStrShort = take 30 (concat tleArr);
                obsLat = orDefault observerLat (Num (369613422 / 10000000));
                obsLng = orDefault observerLng (Num (- (1220308 / 10000)));
                obsHeight = orDefault observerHeight (Num (370 / 1000));
                cacheKey = (tleStrShort, timestampCopy, observerLat, observerLng, observerHeight)
            in case satInfoCache c1 cacheKey of
                 Some output \<Rightarrow> Inr (output, c1)
               | None \<Rightarrow>
                   bindE (propagate e tleArr timestampCopy obsLat obsLng obsHeight) (\<lambda>output.
                     Inr (output,
                          c1\<lparr>satInfoCache := (satInfoCache c1)(cacheKey \<mapsto> output)\<rparr>)))))"

definition getLatLon :: "env \<Rightarrow> cache \<Rightarrow> input \<Rightarrow> num option \<Rightarrow> error + (latlon \<times> cache)" where
  "getLatLon e c tle optionalTimestamp =
     (let timestamp = (case optionalTimestamp of None \<Rightarrow> now e | Some t \<Rightarrow> t)
      in bindE (parseTLE c tle) (\<lambda>(tleObj, c1).
         bindE (isValidTLE c1 (InRec tleObj)) (\<lambda>(valid, c2).
           if \<not> valid then Inl TLECouldNotBeParsed
           else bindE (getSatelliteInfo e c2 (InArr (arr tleObj)) (Some timestamp) None None None)
                  (\<lambda>(satInfo, c3). Inr ((lat satInfo, lng satInfo), c3)))))"

definition getLatLonArr :: "env \<Rightarrow> cache \<Rightarrow> input \<Rightarrow> num option \<Rightarrow> error + (latlon \<times> cache)" where
  "getLatLonArr e c tle optionalTimestamp = getLatLon e c tle optionalTimestamp"

section \<open>Orbit length\<close>

text \<open>
  \<^verbatim>\<open>
  getAverageOrbitLengthMins(tle) {
    const fnName = 'getAverageOrbitLengthMins';
    const tleStr = tle.join('').substr(0, 30);
    const cacheKey = `${fnName}-${tleStr}`;
    if (this.cache[cacheKey]) return this.cache[cacheKey];
    const meanMotionSeconds = (24 * 60) / this.getMeanMotion(tle);
    this.cache[cacheKey] = meanMotionSeconds;
    return meanMotionSeconds;
  }

  getOrbitTimeMS(tle) {
    return parseInt(MS_IN_A_DAY / this.getMeanMotion(tle), 10);
  }
  \<close>
  Only an array has a \<open>join\<close> method: on a string, a record, a number or a boolean the
  call \<open>tle.join('')\<close> is a \<open>TypeError\<close>.
\<close>

definition getMeanMotion :: "cache \<Rightarrow> input \<Rightarrow> error + (value \<times> cache)" where
  "getMeanMotion = getField meanMotion"

definition getAverageOrbitLengthMins :: "cache \<Rightarrow> input \<Rightarrow> error + (num \<times> cache)" where
  "getAverageOrbitLengthMins c tle =
     (case tle of
        InArr a \<Rightarrow>
          (let tleStr = take 30 (concat a)
           in case orbitLengthCache c tleStr of
                Some cached \<Rightarrow>
                  if truthy cached then Inr (cached, c)
                  else bindE (getMeanMotion c tle) (\<lambda>(mm, c1).
                         (let meanMotionSeconds = jdiv (Num (24 * 60)) (numOf mm)
                          in Inr (meanMotionSeconds,
                                  c1\<lparr>orbitLengthCache :=
                                       (orbitLengthCache c1)(tleStr \<mapsto> meanMotionSeconds)\<rparr>)))
              | None \<Rightarrow>
                  bindE (getMeanMotion c tle) (\<lambda>(mm, c1).
                    (let meanMotionSeconds = jdiv (Num (24 * 60)) (numOf mm)
                     in Inr (meanMotionSeconds,
                             c1\<lparr>orbitLengthCache :=
                                  (orbitLengthCache c1)(tleStr \<mapsto> meanMotionSeconds)\<rparr>))))
      | _ \<Rightarrow> Inl TypeError)"

definition getOrbitTimeMS :: "cache \<Rightarrow> input \<Rightarrow> error + (num \<times> cache)" where
  "getOrbitTimeMS c tle =
     bindE (getMeanMotion c tle) (\<lambda>(mm, c1).
       Inr (parseIntNum (jdiv (Num MS_IN_A_DAY) (numOf mm)), c1))"

section \<open>Sample data and an environment\<close>

text \<open>
  The ISS (ZARYA) lines of the repository's README, the same element set as one string,
  and a first line whose epoch is day 1 of the two-digit year 00.
\<close>

definition issLine1 :: string where
  "issLine1 = ''1 25544U 98067A   17206.18396726  .00001961  00000-0  36771-4 0  9993''"

definition issLine2 :: string where
  "issLine2 = ''2 25544  51.6400 208.9163 0006317  69.9862  25.2906 15.54225995 67660''"

definition issString :: string where
  "issString = issLine1 @ [CHR 0x0A] @ issLine2"

definition y2kLine1 :: string where
  "y2kLine1 = ''1 25544U 98067A   00001.00000000  .00001961  00000-0  36771-4 0  9996''"

text \<open>
  Modelled from the spec: the claim's \<open>startOfYear(Y)\<close>, the first millisecond of the
  calendar year \<open>Y\<close> in UTC, counted from 1970, and its mapping of a two-digit year to a
  four-digit one (57 to 99 are the 1900s, 00 to 56 the 2000s). Neither is code of the
  repository.
\<close>

definition leapDaysBefore :: "int \<Rightarrow> int" where
  "leapDaysBefore y = (y - 1) div 4 - (y - 1) div 100 + (y - 1) div 400"

definition startOfYear :: "int \<Rightarrow> real" where
  "startOfYear y =
     of_int ((365 * (y - 1970) + leapDaysBefore y - leapDaysBefore 1970) * 86400000)"

definition fourDigitYear :: "int \<Rightarrow> int" where
  "fourDigitYear yy = (if 57 \<le> yy then 1900 + yy else 2000 + yy)"

text \<open>
  An environment as favourable to the claim as a platform can be: its date parser reads
  a year from 0 to 99 by the TLE convention and any other year as the calendar year it
  names. Its clock stands in the year 2026, and its propagator always fails.
\<close>

definition conventionYearStart :: "num \<Rightarrow> num" where
  "conventionYearStart y =
     (case y of
        Num x \<Rightarrow>
          if of_int \<lfloor>x\<rfloor> = x
          then Num (startOfYear
                     (if 0 \<le> \<lfloor>x\<rfloor> \<and> \<lfloor>x\<rfloor> \<le> 99 then fourDigitYear \<lfloor>x\<rfloor> else \<lfloor>x\<rfloor>))
          else NaN
      | _ \<Rightarrow> NaN)"

definition env2026 :: env where
  "env2026 =
     \<lparr>now = Num 1780000000000, currentYear = Num 2026, yearStart = conventionYearStart,
      propagate = (\<lambda>tleArr t obsLat obsLng obsHeight. Inl PropagationError)\<rparr>"

lemma emptyCache_fields [simp]:
  "parseCache emptyCache = Map.empty" "validCache emptyCache = Map.empty"
  "satInfoCache emptyCache = Map.empty" "orbitLengthCache emptyCache = Map.empty"
  "antemeridianCrossings emptyCache = Map.empty" "groundTrackCache emptyCache = Map.empty"
  "orbitTrackCache emptyCache = Map.empty"
  by (simp_all add: emptyCache_def)

lemmas str_eval = trim_def isWhiteSpace_def substr_def parseFloat_def decimalLiteral_def
  exponentPart_def isDigit_def digitsVal_def digitVal_def signed_def parseInt_def

lemmas epoch_eval = dayOfYearToTimeStamp_def env2026_def conventionYearStart_def startOfYear_def
  fourDigitYear_def leapDaysBefore_def MS_IN_A_DAY_def jsub_def

section \<open>Facts about the parser and the getters\<close>

lemma parseTLE_again: "parseTLE c tle = Inr (p, c1) \<Longrightarrow> parseTLE c1 tle = Inr (p, c1)"
  by (auto simp: parseTLE_def split: input.splits option.splits)

lemma getField_parse:
  "getField f c tle =
     (case parseTLE c tle of
        Inl err \<Rightarrow> Inl err
      | Inr (p, c1) \<Rightarrow>
          if (if f_line f = line1 then 0 else 1) < length (arr p)
          then Inr (decode (f_type f)
                     (substr (arr p ! (if f_line f = line1 then 0 else 1)) (f_start f) (f_length f)),
                    c1)
          else Inl TypeError)"
  by (simp add: getField_def bindE_def Let_def split: sum.splits prod.splits)

lemma iss_parse:
  "parseTLE emptyCache (InArr [issLine1, issLine2]) =
     Inr (\<lparr>name = ''Unknown'', arr = [issLine1, issLine2]\<rparr>,
          emptyCache\<lparr>parseCache :=
            [take 30 issLine1 \<mapsto> \<lparr>name = ''Unknown'', arr = [issLine1, issLine2]\<rparr>]\<rparr>)"
  by (simp add: parseTLE_def tleStrOf_def buildTLE_def issLine1_def issLine2_def
      trim_def isWhiteSpace_def)

lemma iss_parse_string:
  "parseTLE emptyCache (InStr issString) =
     Inr (\<lparr>name = ''Unknown'', arr = [issLine1, issLine2]\<rparr>,
          emptyCache\<lparr>parseCache :=
            [take 30 issLine1 \<mapsto> \<lparr>name = ''Unknown'', arr = [issLine1, issLine2]\<rparr>]\<rparr>)"
  by (simp add: parseTLE_def tleStrOf_def buildTLE_def issString_def issLine1_def issLine2_def
      trim_def isWhiteSpace_def)

lemma iss_meanMotion:
  "decode T_FLOAT (substr issLine2 52 11) = VNum (Num (1554225995 / 100000000))"
  by (simp add: decode_def issLine2_def str_eval)

lemma iss_getMeanMotion:
  "getMeanMotion emptyCache (InArr [issLine1, issLine2]) =
     Inr (VNum (Num (1554225995 / 100000000)),
          emptyCache\<lparr>parseCache :=
            [take 30 issLine1 \<mapsto> \<lparr>name = ''Unknown'', arr = [issLine1, issLine2]\<rparr>]\<rparr>)"
  "getMeanMotion emptyCache (InStr issString) =
     Inr (VNum (Num (1554225995 / 100000000)),
          emptyCache\<lparr>parseCache :=
            [take 30 issLine1 \<mapsto> \<lparr>name = ''Unknown'', arr = [issLine1, issLine2]\<rparr>]\<rparr>)"
  by (simp_all add: getMeanMotion_def getField_parse iss_parse iss_parse_string meanMotion_def
      iss_meanMotion)

lemma y2k_fields:
  "getEpochYear c (InRec \<lparr>name = ''Unknown'', arr = [y2kLine1, issLine2]\<rparr>)
     = Inr (VNum (Num 0), c)"
  "getEpochDay c (InRec \<lparr>name = ''Unknown'', arr = [y2kLine1, issLine2]\<rparr>)
     = Inr (VNum (Num 1), c)"
  by (simp_all add: getEpochYear_def getEpochDay_def getField_rec epochYear_def epochDay_def
      decode_def y2kLine1_def str_eval)

lemma iss_fields:
  "getEpochYear c (InRec \<lparr>name = ''Unknown'', arr = [issLine1, issLine2]\<rparr>)
     = Inr (VNum (Num 17), c)"
  "getEpochDay c (InRec \<lparr>name = ''Unknown'', arr = [issLine1, issLine2]\<rparr>)
     = Inr (VNum (Num (20618396726 / 100000000)), c)"
  by (simp_all add: getEpochYear_def getEpochDay_def getField_rec epochYear_def epochDay_def
      decode_def issLine1_def str_eval)

section \<open>The two epoch entry points\<close>

text \<open>
  C9. For every TLE input (string, array, record or anything else), every state of the
  cache and every environment, \<open>getEpochTimestamp\<close> and \<open>getTLEEpochTimestamp\<close> give the
  same outcome: the same timestamp and the same cache afterwards, or the same exception.
\<close>

theorem epoch_entry_points_equal:
  "getEpochTimestamp e c tle = getTLEEpochTimestamp e c tle"
proof (cases "parseTLE c tle")
  case (Inl err)
  then show ?thesis
    by (simp add: getEpochTimestamp_def getTLEEpochTimestamp_def getEpochDay_def getEpochYear_def
        getField_parse)
next
  case (Inr pc)
  obtain p c1 where pc: "pc = (p, c1)" by (cases pc)
  have again: "parseTLE c1 tle = Inr (p, c1)"
    using Inr pc parseTLE_again by simp
  show ?thesis
    using Inr pc again
    by (simp add: getEpochTimestamp_def getTLEEpochTimestamp_def getEpochDay_def getEpochYear_def
        getField_parse epochDay_def epochYear_def)
qed

text \<open>
  On the README's ISS element set both give 1500956694771, the README's value.
\<close>

theorem epoch_entry_points_equal_witness:
  "getTLEEpochTimestamp env2026 emptyCache
     (InRec \<lparr>name = ''Unknown'', arr = [issLine1, issLine2]\<rparr>)
     = Inr (Num 1500956694771, emptyCache)"
proof -
  have "getEpochTimestamp env2026 emptyCache
          (InRec \<lparr>name = ''Unknown'', arr = [issLine1, issLine2]\<rparr>)
     = Inr (Num 1500956694771, emptyCache)"
    by (simp add: getEpochTimestamp_def iss_fields epoch_eval)
  then show ?thesis
    using epoch_entry_points_equal
      [of env2026 emptyCache "InRec \<lparr>name = ''Unknown'', arr = [issLine1, issLine2]\<rparr>"]
    by simp
qed

section \<open>The epoch of a TLE of the year 2000\<close>

text \<open>
  C4. The claim is that \<open>getEpochTimestamp\<close> returns
  \<open>floor(startOfYear(Y) + (epochDay - 1) * 86400000)\<close> with \<open>Y\<close> the four-digit year of
  the TLE convention. The code hands the two-digit year to the platform's date parser
  and maps nothing itself; and a year that reads as 0 is falsy, so
  \<open>year || (new Date()).getFullYear()\<close> replaces it by the current year. On the element
  set whose epoch is day 1 of year 00, with the clock in 2026, the code returns the
  start of 2026 (1767225600000) and the claim asks for the start of 2000
  (946684800000), even on a platform whose date parser follows the TLE convention.
\<close>

theorem getEpochTimestamp_year_00:
  "getEpochTimestamp env2026 emptyCache
     (InRec \<lparr>name = ''Unknown'', arr = [y2kLine1, issLine2]\<rparr>)
     = Inr (Num 1767225600000, emptyCache)
   \<and> jfloor (Num (startOfYear (fourDigitYear 0) + (1 - 1) * MS_IN_A_DAY)) = Num 946684800000"
  by (simp add: getEpochTimestamp_def y2k_fields epoch_eval)

section \<open>The orbit length accepts arrays only\<close>

text \<open>
  C10. For every string input and every state of the cache, \<open>getAverageOrbitLengthMins\<close>
  raises (a \<open>TypeError\<close>: a string has no \<open>join\<close>); whenever it returns a value, its
  input was an array. The getters accept the same element set as a string.
\<close>

theorem getAverageOrbitLengthMins_array_only:
  "getAverageOrbitLengthMins c (InStr s) = Inl TypeError
   \<and> (getAverageOrbitLengthMins c tle = Inr r \<longrightarrow> (\<exists>a. tle = InArr a))"
  by (cases tle) (simp_all add: getAverageOrbitLengthMins_def)

theorem getAverageOrbitLengthMins_array_only_witness:
  "getAverageOrbitLengthMins emptyCache (InStr issString) = Inl TypeError
   \<and> (\<exists>c'. getAverageOrbitLengthMins emptyCache (InArr [issLine1, issLine2])
               = Inr (Num (1440 / (1554225995 / 100000000)), c'))
   \<and> (\<exists>a. InArr [issLine1, issLine2] = InArr a)
   \<and> (\<exists>c'. getMeanMotion emptyCache (InStr issString)
               = Inr (VNum (Num (1554225995 / 100000000)), c'))"
proof -
  have a: "\<exists>c'. getAverageOrbitLengthMins emptyCache (InArr [issLine1, issLine2])
               = Inr (Num (1440 / (1554225995 / 100000000)), c')"
    by (simp add: getAverageOrbitLengthMins_def iss_getMeanMotion Let_def)
  then obtain c' where "getAverageOrbitLengthMins emptyCache (InArr [issLine1, issLine2])
               = Inr (Num (1440 / (1554225995 / 100000000)), c')" by blast
  then show ?thesis
    using getAverageOrbitLengthMins_array_only
      [of emptyCache issString "InArr [issLine1, issLine2]"
          "(Num (1440 / (1554225995 / 100000000)), c')"]
    by (simp add: iss_getMeanMotion)
qed

section \<open>What the exponent decoder computes\<close>


















section \<open>Antemeridian crossing search\<close>

text \<open>
  \<^verbatim>\<open>
  getCachedLastAntemeridianCrossingTimeMS(tle, timeMS) {
    const orbitLengthMS = this.getAverageOrbitLengthMins(tle.arr) * 60 * 1000;
    const tleStr = tle.arr.join('').substr(0, 30);
    const cachedCrossingTimes = this.cache.antemeridianCrossings[tleStr];
    if (!cachedCrossingTimes) return false;
    if (cachedCrossingTimes === -1) return cachedCrossingTimes;
    const cachedTime = cachedCrossingTimes.filter(val => {
      if (typeof val === 'object' && val.tle === tle) return -1;
      const diff = timeMS - val;
      const isDiffPositive = diff > 0;
      const isWithinOrbit = isDiffPositive && diff < orbitLengthMS;
      return isWithinOrbit;
    });
    return cachedTime[0] || false;
  }
  \<close>
  The result is \<open>false\<close> (\<open>None\<close>) or a number. The entries of the array are numbers,
  never objects, so the first line of the filter's callback does nothing.
\<close>

definition getCachedLastAntemeridianCrossingTimeMS ::
  "cache \<Rightarrow> tle \<Rightarrow> num \<Rightarrow> error + (num option \<times> cache)" where
  "getCachedLastAntemeridianCrossingTimeMS c tle timeMS =
     bindE (getAverageOrbitLengthMins c (InArr (arr tle))) (\<lambda>(mins, c1).
       (let orbitLengthMS = jmul (jmul mins (Num 60)) (Num 1000);
            tleStr = take 30 (concat (arr tle))
        in case antemeridianCrossings c1 tleStr of
             None \<Rightarrow> Inr (None, c1)
           | Some NoCrossing \<Rightarrow> Inr (Some (Num (- 1)), c1)
           | Some (Times cachedCrossingTimes) \<Rightarrow>
               (let cachedTime =
                      filter (\<lambda>val. let diff = jsub timeMS val
                                     in jgt diff (Num 0) \<and> jlt diff orbitLengthMS)
                        cachedCrossingTimes
                in Inr ((case cachedTime of
                           [] \<Rightarrow> None
                         | t # ts \<Rightarrow> if truthy t then Some t else None), c1))))"

text \<open>
  \<^verbatim>\<open>
  getLastAntemeridianCrossingTimeMS(tle, timeMS) {
    const parsedTLE = this.parseTLE(tle);
    const cachedVal = this.getCachedLastAntemeridianCrossingTimeMS(parsedTLE, timeMS);
    if (cachedVal) return cachedVal;
    const time = timeMS || Date.now();
    let step = 1000 * 60 * 10;
    let curLatLon = [];
    let lastLatLon = [];
    let curTimeMS = time;
    let didCrossAntemeridian = false;
    let tries = 0;
    let isDone = false;
    const maxTries = 1000;
    while (!isDone) {
      curLatLon = this.getLatLonArr(parsedTLE.arr, curTimeMS);
      didCrossAntemeridian = this.crossesAntemeridian(lastLatLon[1], curLatLon[1]);
      if (didCrossAntemeridian) {
        curTimeMS += step;
        step = (step > 20000) ? 20000 : step / 2;
      } else {
        curTimeMS -= step;
        lastLatLon = curLatLon;
      }
      isDone = step < 500 || tries >= maxTries;
      tries++;
    }
    const couldNotFindCrossing = tries - 1 === maxTries;
    const crossingTime = (couldNotFindCrossing) ? -1 : parseInt(curTimeMS, 10);
    const tleStr = parsedTLE.arr.join('').substr(0, 30);
    if (!this.cache.antemeridianCrossings[tleStr]) this.cache.antemeridianCrossings[tleStr] = [];
    if (couldNotFindCrossing) {
      this.cache.antemeridianCrossings[tleStr] = -1;
    } else {
      this.cache.antemeridianCrossings[tleStr].push(crossingTime);
    }
    return crossingTime;
  }
  \<close>
  The variables of the loop are a record; \<open>searchBody\<close> is one pass through the body
  given the sample \<open>curLatLon\<close>, so \<open>tries\<close> counts the passes. \<open>searchLoop\<close> is the
  \<open>while\<close> loop: it samples, runs the body, and stops when the body has set \<open>isDone\<close>
  (the test \<open>tries >= maxTries\<close> reads \<open>tries\<close> before the increment) or when the
  sampler throws.
\<close>

record search_state =
  step :: real
  curTimeMS :: num
  lastLatLon :: "latlon option"
  tries :: nat

definition maxTries :: nat where
  "maxTries = 1000"

definition initialSearch :: "num \<Rightarrow> search_state" where
  "initialSearch time =
     \<lparr>step = 1000 * 60 * 10, curTimeMS = time, lastLatLon = None, tries = 0\<rparr>"

definition searchBody :: "search_state \<Rightarrow> latlon \<Rightarrow> search_state" where
  "searchBody s curLatLon =
     (let didCrossAntemeridian =
            crossesAntemeridian (map_option snd (lastLatLon s)) (Some (snd curLatLon));
          s1 = (if didCrossAntemeridian
                then s\<lparr>curTimeMS := jadd (curTimeMS s) (Num (step s)),
                       step := (if 20000 < step s then 20000 else step s / 2)\<rparr>
                else s\<lparr>curTimeMS := jsub (curTimeMS s) (Num (step s)),
                       lastLatLon := Some curLatLon\<rparr>)
      in s1\<lparr>tries := Suc (tries s)\<rparr>)"

function searchLoop ::
  "env \<Rightarrow> string list \<Rightarrow> search_state \<Rightarrow> cache \<Rightarrow> error + (search_state \<times> cache)" where
  "searchLoop e tleArr s c =
     (case getLatLonArr e c (InArr tleArr) (Some (curTimeMS s)) of
        Inl err \<Rightarrow> Inl err
      | Inr (curLatLon, c') \<Rightarrow>
          if step (searchBody s curLatLon) < 500 \<or> maxTries \<le> tries s
          then Inr (searchBody s curLatLon, c')
          else searchLoop e tleArr (searchBody s curLatLon) c')"
  by pat_completeness auto
termination
  by (relation "measure (\<lambda>(e, tleArr, s, c). maxTries - tries s)")
     (auto simp: searchBody_def Let_def)

declare searchLoop.simps [simp del]

text \<open>What follows the cache check: the search, and the update of the crossing history.\<close>

definition searchAndStore ::
  "env \<Rightarrow> cache \<Rightarrow> tle \<Rightarrow> num \<Rightarrow> error + (num \<times> cache)" where
  "searchAndStore e c parsedTLE timeMS =
     (let time = (if truthy timeMS then timeMS else now e)
      in bindE (searchLoop e (arr parsedTLE) (initialSearch time) c) (\<lambda>(s, c1).
           (let couldNotFindCrossing = (tries s - 1 = maxTries);
                crossingTime = (if couldNotFindCrossing then Num (- 1)
                                else parseIntNum (curTimeMS s));
                tleStr = take 30 (concat (arr parsedTLE));
                history = (case antemeridianCrossings c1 tleStr of
                             None \<Rightarrow> Times []
                           | Some h \<Rightarrow> h)
            in if couldNotFindCrossing
               then Inr (crossingTime,
                         c1\<lparr>antemeridianCrossings :=
                              (antemeridianCrossings c1)(tleStr \<mapsto> NoCrossing)\<rparr>)
               else (case history of
                       Times ts \<Rightarrow>
                         Inr (crossingTime,
                              c1\<lparr>antemeridianCrossings :=
                                   (antemeridianCrossings c1)
                                     (tleStr \<mapsto> Times (ts @ [crossingTime]))\<rparr>)
                     | NoCrossing \<Rightarrow> Inl TypeError))))"

definition getLastAntemeridianCrossingTimeMS ::
  "env \<Rightarrow> cache \<Rightarrow> input \<Rightarrow> num \<Rightarrow> error + (num \<times> cache)" where
  "getLastAntemeridianCrossingTimeMS e c tle timeMS =
     bindE (parseTLE c tle) (\<lambda>(parsedTLE, c1).
     bindE (getCachedLastAntemeridianCrossingTimeMS c1 parsedTLE timeMS) (\<lambda>(cachedVal, c2).
       case cachedVal of
         None \<Rightarrow> searchAndStore e c2 parsedTLE timeMS
       | Some v \<Rightarrow> if truthy v then Inr (v, c2) else searchAndStore e c2 parsedTLE timeMS))"

section \<open>Orbit tracks and ground tracks\<close>

text \<open>
  \<^verbatim>\<open>
  getOrbitTrack(TLEArr, startTimeMS, stepMS, maxTimeMS = 6000000) {
    const fnName = 'getOrbitTrack';
    if (!startTimeMS) return [];
    const tleStr = TLEArr.join('');
    const tleStrTrimmed = tleStr.substr(0, 30);
    const startTime = (startTimeMS / 10000).toFixed();
    const cacheKey = `${fnName}-${tleStrTrimmed}-${startTime}-${stepMS}`;
    if (this.cache[cacheKey]) return this.cache[cacheKey];
    const defaultStepMS = 1000 * 60 * 1;
    let stepMSCopy = stepMS || defaultStepMS;
    const latLons = [];
    let curTimeMS = startTimeMS;
    let lastLatLon = [];
    let curLatLon = [];
    let isDone = false;
    let crossesAntemeridian = false;
    while (!isDone) {
      curLatLon = this.getLatLonArr(TLEArr, curTimeMS);
      crossesAntemeridian = this.crossesAntemeridian(lastLatLon[1], curLatLon[1]);
      if (crossesAntemeridian) {
        if (stepMSCopy === 500) isDone = true;
        curTimeMS -= stepMSCopy;
        stepMSCopy = 500;
      } else {
        latLons.push(curLatLon);
        curTimeMS += stepMSCopy;
        lastLatLon = curLatLon;
      }
      if (maxTimeMS && (curTimeMS - startTimeMS > maxTimeMS)) isDone = true;
    }
    this.cache[cacheKey] = latLons;
    return latLons;
  }
  \<close>
  Nothing bounds this loop when \<open>maxTimeMS\<close> is \<open>false\<close>, so it is a partial function:
  \<open>None\<close> is a run that never ends. \<open>maxTimeMS\<close> is the parameter after its default has
  been applied, \<open>None\<close> being \<open>false\<close>. The loop's variables are the arguments \<open>latLons\<close>,
  \<open>curTime\<close>, \<open>lastSeen\<close> and \<open>stepMSCopy\<close> of \<open>trackLoop\<close>.

  The times of the loop are exact reals here, binary64 numbers in the code. The two agree
  as long as the times are whole numbers of milliseconds below \<open>2 ^ 53\<close> in magnitude,
  which holds for a start within the range of a JavaScript date (at most 8640000000000000
  in magnitude) and the steps and budgets used by \<open>getGroundTrackLatLng\<close>: every sum and
  difference is then an integer that binary64 represents. At larger times binary64 may
  absorb the step (\<open>1e22 + 600000\<close> is \<open>1e22\<close>), and the loop of the code may then go on
  for ever where the loop below ends.
\<close>

definition overBudget :: "num option \<Rightarrow> num \<Rightarrow> num \<Rightarrow> bool" where
  "overBudget maxTimeMS curTime startTimeMS =
     (case maxTimeMS of
        None \<Rightarrow> False
      | Some m \<Rightarrow> truthy m \<and> jgt (jsub curTime startTimeMS) m)"

partial_function (option) trackLoop ::
  "env \<Rightarrow> string list \<Rightarrow> num \<Rightarrow> num option \<Rightarrow> latlon list \<Rightarrow> num \<Rightarrow> latlon option \<Rightarrow> num
     \<Rightarrow> cache \<Rightarrow> (error + (latlon list \<times> cache)) option" where
  "trackLoop e TLEArr startTimeMS maxTimeMS latLons curTime lastSeen stepMSCopy c =
     (case getLatLonArr e c (InArr TLEArr) (Some curTime) of
        Inl err \<Rightarrow> Some (Inl err)
      | Inr (curLatLon, c') \<Rightarrow>
          if crossesAntemeridian (map_option snd lastSeen) (Some (snd curLatLon))
          then
            (if strictEq stepMSCopy (Num 500)
                \<or> overBudget maxTimeMS (jsub curTime stepMSCopy) startTimeMS
             then Some (Inr (latLons, c'))
             else trackLoop e TLEArr startTimeMS maxTimeMS latLons (jsub curTime stepMSCopy)
                    lastSeen (Num 500) c')
          else
            (if overBudget maxTimeMS (jadd curTime stepMSCopy) startTimeMS
             then Some (Inr (latLons @ [curLatLon], c'))
             else trackLoop e TLEArr startTimeMS maxTimeMS (latLons @ [curLatLon])
                    (jadd curTime stepMSCopy) (Some curLatLon) stepMSCopy c'))"

text \<open>Sequencing for calls that may throw or never return.\<close>

definition bindO ::
  "(error + 'a) option \<Rightarrow> ('a \<Rightarrow> (error + 'b) option) \<Rightarrow> (error + 'b) option" where
  "bindO m f = (case m of None \<Rightarrow> None | Some (Inl e) \<Rightarrow> Some (Inl e) | Some (Inr x) \<Rightarrow> f x)"

definition getOrbitTrack ::
  "env \<Rightarrow> cache \<Rightarrow> string list \<Rightarrow> num \<Rightarrow> num option \<Rightarrow> num option
     \<Rightarrow> (error + (latlon list \<times> cache)) option" where
  "getOrbitTrack e c TLEArr startTimeMS stepMS maxTimeMS =
     (if \<not> truthy startTimeMS then Some (Inr ([], c))
      else
        (let cacheKey = (take 30 (concat TLEArr), toFixed (jdiv startTimeMS (Num 10000)), stepMS)
         in case orbitTrackCache c cacheKey of
              Some cached \<Rightarrow> Some (Inr (cached, c))
            | None \<Rightarrow>
                bindO (trackLoop e TLEArr startTimeMS maxTimeMS [] startTimeMS None
                         (orDefault stepMS (Num (1000 * 60 * 1))) c)
                  (\<lambda>(latLons, c').
                     Some (Inr (latLons,
                                c'\<lparr>orbitTrackCache := (orbitTrackCache c')(cacheKey \<mapsto> latLons)\<rparr>)))))"

text \<open>
  \<^verbatim>\<open>
  getGroundTrackLatLng(tle, stepMS, optionalTimeMS) {
    const fnName = 'getGroundTrackLatLng';
    const timeMS = optionalTimeMS || Date.now();
    const timeS = (timeMS / 1000).toFixed();
    const parsedTLE = this.parseTLE(tle);
    const tleStrTrimmed = parsedTLE.arr[1].substr(0, 30);
    const orbitTimeMS = this.getOrbitTimeMS(tle);
    const curOrbitStartMS = this.getLastAntemeridianCrossingTimeMS(parsedTLE, timeMS);
    const foundCrossing = curOrbitStartMS !== -1;
    let cacheKey;
    if (foundCrossing) {
      const curOrbitStartS = (curOrbitStartMS / 1000).toFixed();
      cacheKey = `${fnName}-${tleStrTrimmed}-${stepMS}-${curOrbitStartS}`;
      if (this.cache[cacheKey]) return this.cache[cacheKey];
    } else {
      cacheKey = `${fnName}-${tleStrTrimmed}-${stepMS}-${timeS}`;
      if (this.cache[cacheKey]) return this.cache[cacheKey];
      this.cache[cacheKey] = [
        this.getOrbitTrack(parsedTLE.arr, timeMS, 600000, 86400000)
      ];
      return this.cache[cacheKey];
    }
    const lastOrbitStartMS = this.getLastAntemeridianCrossingTimeMS(tle, curOrbitStartMS - 10000);
    const nextOrbitStartMS = this.getLastAntemeridianCrossingTimeMS(
        tle, curOrbitStartMS + orbitTimeMS + (1000 * 60 * 30));
    const orbitStartTimes = [lastOrbitStartMS, curOrbitStartMS, nextOrbitStartMS];
    const orbitLatLons = orbitStartTimes.map(
      orbitStartMS => this.getOrbitTrack(parsedTLE.arr, orbitStartMS, stepMS, false)
    );
    this.cache[cacheKey] = orbitLatLons;
    return orbitLatLons;
  }
  \<close>
  \<open>groundTrackKey\<close> is the key either branch looks up: the first 30 characters of line
  2, the step, and the time in seconds of the crossing found, or of the query when none
  was found.
\<close>

definition groundTrackKey ::
  "tle \<Rightarrow> num option \<Rightarrow> num \<Rightarrow> num \<Rightarrow> string \<times> num option \<times> fixed" where
  "groundTrackKey parsedTLE stepMS timeMS curOrbitStartMS =
     (take 30 (arr parsedTLE ! 1), stepMS,
      toFixed (jdiv (if strictEq curOrbitStartMS (Num (- 1)) then timeMS else curOrbitStartMS)
                 (Num 1000)))"

definition threeTracks ::
  "env \<Rightarrow> cache \<Rightarrow> input \<Rightarrow> tle \<Rightarrow> num option \<Rightarrow> num \<Rightarrow> num
     \<Rightarrow> (error + (latlon list list \<times> cache)) option" where
  "threeTracks e c tle parsedTLE stepMS orbitTimeMS curOrbitStartMS =
     bindO (Some (getLastAntemeridianCrossingTimeMS e c tle (jsub curOrbitStartMS (Num 10000))))
       (\<lambda>(lastOrbitStartMS, c1).
     bindO (Some (getLastAntemeridianCrossingTimeMS e c1 tle
                    (jadd (jadd curOrbitStartMS orbitTimeMS) (Num (1000 * 60 * 30)))))
       (\<lambda>(nextOrbitStartMS, c2).
     bindO (getOrbitTrack e c2 (arr parsedTLE) lastOrbitStartMS stepMS None) (\<lambda>(track1, c3).
     bindO (getOrbitTrack e c3 (arr parsedTLE) curOrbitStartMS stepMS None) (\<lambda>(track2, c4).
     bindO (getOrbitTrack e c4 (arr parsedTLE) nextOrbitStartMS stepMS None) (\<lambda>(track3, c5).
       Some (Inr ([track1, track2, track3], c5)))))))"

definition getGroundTrackLatLng ::
  "env \<Rightarrow> cache \<Rightarrow> input \<Rightarrow> num option \<Rightarrow> num option
     \<Rightarrow> (error + (latlon list list \<times> cache)) option" where
  "getGroundTrackLatLng e c tle stepMS optionalTimeMS =
     (let timeMS = orDefault optionalTimeMS (now e)
      in bindO (Some (parseTLE c tle)) (\<lambda>(parsedTLE, c1).
           if length (arr parsedTLE) < 2 then Some (Inl TypeError)
           else
           bindO (Some (getOrbitTimeMS c1 tle)) (\<lambda>(orbitTimeMS, c2).
           bindO (Some (getLastAntemeridianCrossingTimeMS e c2 (InRec parsedTLE) timeMS))
             (\<lambda>(curOrbitStartMS, c3).
                (let foundCrossing = \<not> strictEq curOrbitStartMS (Num (- 1));
                     cacheKey = groundTrackKey parsedTLE stepMS timeMS curOrbitStartMS
                 in case groundTrackCache c3 cacheKey of
                      Some cached \<Rightarrow> Some (Inr (cached, c3))
                    | None \<Rightarrow>
                        if foundCrossing
                        then bindO (threeTracks e c3 tle parsedTLE stepMS orbitTimeMS
                                      curOrbitStartMS)
                               (\<lambda>(orbitLatLons, c4).
                                  Some (Inr (orbitLatLons,
                                             c4\<lparr>groundTrackCache :=
                                                  (groundTrackCache c4)
                                                    (cacheKey \<mapsto> orbitLatLons)\<rparr>)))
                        else bindO (getOrbitTrack e c3 (arr parsedTLE) timeMS
                                      (Some (Num 600000)) (Some (Num 86400000)))
                               (\<lambda>(track, c4).
                                  Some (Inr ([track],
                                             c4\<lparr>groundTrackCache :=
                                                  (groundTrackCache c4)
                                                    (cacheKey \<mapsto> [track])\<rparr>))))))))"

section \<open>The search loop is bounded\<close>

lemma searchBody_tries [simp]: "tries (searchBody s curLatLon) = Suc (tries s)"
  by (simp add: searchBody_def Let_def)

lemma searchLoop_bound:
  "tries s \<le> maxTries \<Longrightarrow> searchLoop e tleArr s c = Inr (s', c') \<Longrightarrow>
     tries s < tries s' \<and> tries s' \<le> Suc maxTries \<and> (step s' < 500 \<or> tries s' = Suc maxTries)"
proof (induction e tleArr s c rule: searchLoop.induct)
  case (1 e tleArr s c)
  from "1.prems"(2) obtain curLatLon c1 where
    sample: "getLatLonArr e c (InArr tleArr) (Some (curTimeMS s)) = Inr (curLatLon, c1)"
    by (subst (asm) searchLoop.simps) (auto split: sum.splits)
  show ?case
  proof (cases "step (searchBody s curLatLon) < 500 \<or> maxTries \<le> tries s")
    case True
    with "1.prems" sample have "s' = searchBody s curLatLon"
      by (subst (asm) searchLoop.simps) auto
    with True "1.prems"(1) show ?thesis by auto
  next
    case False
    with "1.prems" sample have rec: "searchLoop e tleArr (searchBody s curLatLon) c1 = Inr (s', c')"
      by (subst (asm) searchLoop.simps) auto
    from False have "tries (searchBody s curLatLon) \<le> maxTries" by simp
    from "1.IH" [OF sample refl False this rec] show ?thesis by simp
  qed
qed

text \<open>
  C6 (as amended). For every TLE, reference time, cache and environment (so for every
  sampler), the search loop of \<open>getLastAntemeridianCrossingTimeMS\<close> terminates:
  \<open>searchLoop\<close> is a total function. It either passes on an exception of the sampler or
  stops after at least one and at most 1001 passes through its body, and when it stops
  the step size is below 500 ms or the body has run 1001 times. The bound is 1001, not
  1000, because \<open>tries >= maxTries\<close> is tested before \<open>tries\<close> is incremented.
\<close>

theorem searchLoop_terminates:
  "(\<exists>err. searchLoop e tleArr (initialSearch time) c = Inl err)
   \<or> (\<exists>s' c'. searchLoop e tleArr (initialSearch time) c = Inr (s', c')
          \<and> 1 \<le> tries s' \<and> tries s' \<le> 1001 \<and> (step s' < 500 \<or> tries s' = 1001))"
proof (cases "searchLoop e tleArr (initialSearch time) c")
  case (Inl err)
  then show ?thesis by simp
next
  case (Inr r)
  obtain s' c' where r: "r = (s', c')" by (cases r)
  have "tries (initialSearch time) \<le> maxTries" by (simp add: initialSearch_def)
  from searchLoop_bound [OF this Inr [unfolded r]] show ?thesis
    using Inr r by (simp add: maxTries_def initialSearch_def)
qed

section \<open>What the calls leave unchanged in the cache\<close>

definition cacheExtends :: "cache \<Rightarrow> cache \<Rightarrow> bool" where
  "cacheExtends c c' =
     (antemeridianCrossings c' = antemeridianCrossings c
      \<and> orbitLengthCache c' = orbitLengthCache c
      \<and> groundTrackCache c' = groundTrackCache c
      \<and> orbitTrackCache c' = orbitTrackCache c
      \<and> parseCache c \<subseteq>\<^sub>m parseCache c')"

lemma cacheExtends_refl [simp]: "cacheExtends c c"
  by (simp add: cacheExtends_def)

lemma cacheExtends_trans: "cacheExtends a b \<Longrightarrow> cacheExtends b c \<Longrightarrow> cacheExtends a c"
  by (auto simp: cacheExtends_def intro: map_le_trans)

lemma parseTLE_extends: "parseTLE c tle = Inr (p, c') \<Longrightarrow> cacheExtends c c'"
  by (auto simp: parseTLE_def cacheExtends_def map_le_def split: input.splits option.splits)

lemma parseTLE_stable:
  assumes "parseTLE c tle = Inr (p, c1)" "parseCache c1 \<subseteq>\<^sub>m parseCache c'"
  shows "parseTLE c' tle = Inr (p, c')"
proof (cases tle)
  case (InRec r)
  with assms show ?thesis by (simp add: parseTLE_def)
next
  case (InStr s)
  with assms(1) have "parseCache c1 (tleStrOf tle) = Some p"
    by (auto simp: parseTLE_def split: option.splits)
  with assms(2) have "parseCache c' (tleStrOf tle) = Some p"
    by (auto simp: map_le_def dom_def)
  with InStr show ?thesis by (simp add: parseTLE_def)
next
  case (InArr a)
  with assms(1) have "parseCache c1 (tleStrOf tle) = Some p"
    by (auto simp: parseTLE_def split: option.splits)
  with assms(2) have "parseCache c' (tleStrOf tle) = Some p"
    by (auto simp: map_le_def dom_def)
  with InArr show ?thesis by (simp add: parseTLE_def)
next
  case InOther
  with assms(1) have "parseCache c1 (tleStrOf tle) = Some p"
    by (auto simp: parseTLE_def split: option.splits)
  with assms(2) have "parseCache c' (tleStrOf tle) = Some p"
    by (auto simp: map_le_def dom_def)
  with InOther show ?thesis by (simp add: parseTLE_def)
qed

lemma getField_extends: "getField f c tle = Inr (v, c') \<Longrightarrow> cacheExtends c c'"
  by (auto simp: getField_parse split: sum.splits if_splits dest: parseTLE_extends)

lemma getField_stable:
  assumes "getField f c tle = Inr (v, c1)" "parseCache c1 \<subseteq>\<^sub>m parseCache c'"
  shows "getField f c' tle = Inr (v, c')"
proof -
  from assms(1) obtain p where p: "parseTLE c tle = Inr (p, c1)"
    by (auto simp: getField_parse split: sum.splits if_splits)
  from parseTLE_stable [OF p assms(2)] assms(1) p show ?thesis
    by (auto simp: getField_parse split: if_splits)
qed

lemma checkLine_cache: "checkLine c p i = Inr (b, c') \<Longrightarrow> c' = c"
  by (auto simp: checkLine_def getField_rec bindE_def Let_def
      split: option.splits sum.splits if_splits prod.splits)

lemma forEachLine_cache: "forEachLine c p is v = Inr (b, c') \<Longrightarrow> c' = c"
proof (induction "is" arbitrary: c v)
  case Nil
  then show ?case by simp
next
  case (Cons i "is")
  show ?case
  proof (cases v)
    case False
    with Cons show ?thesis by simp
  next
    case True
    with Cons.prems obtain ok c1 where ck: "checkLine c p i = Inr (ok, c1)"
      and rest: "forEachLine c1 p is ok = Inr (b, c')"
      by (auto simp: bindE_def split: sum.splits)
    from checkLine_cache [OF ck] Cons.IH [OF rest] show ?thesis by simp
  qed
qed

lemma isValidTLE_extends: "isValidTLE c tle = Inr (b, c') \<Longrightarrow> cacheExtends c c'"
proof -
  assume a: "isValidTLE c tle = Inr (b, c')"
  then obtain p c1 where p: "parseTLE c tle = Inr (p, c1)"
    by (auto simp: isValidTLE_def bindE_def split: sum.splits)
  have "cacheExtends c1 c'"
    using a p
    by (auto simp: isValidTLE_def Let_def bindE_def cacheExtends_def
        split: if_splits sum.splits dest!: forEachLine_cache)
  with parseTLE_extends [OF p] show ?thesis by (rule cacheExtends_trans)
qed

lemma getSatelliteInfo_extends:
  "getSatelliteInfo e c tle t ol og oh = Inr (r, c') \<Longrightarrow> cacheExtends c c'"
proof -
  assume a: "getSatelliteInfo e c tle t ol og oh = Inr (r, c')"
  then obtain p c1 where p: "parseTLE c tle = Inr (p, c1)"
    by (auto simp: getSatelliteInfo_def Let_def bindE_def split: sum.splits)
  have "cacheExtends c1 c'"
    using a p
    by (auto simp: getSatelliteInfo_def Let_def bindE_def cacheExtends_def
        split: option.splits sum.splits)
  with parseTLE_extends [OF p] show ?thesis by (rule cacheExtends_trans)
qed

lemma getLatLonArr_extends:
  "getLatLonArr e c tle t = Inr (r, c') \<Longrightarrow> cacheExtends c c'"
proof -
  assume a: "getLatLonArr e c tle t = Inr (r, c')"
  then obtain p c1 c2 info where
    p: "parseTLE c tle = Inr (p, c1)" and
    v: "isValidTLE c1 (InRec p) = Inr (True, c2)" and
    s: "getSatelliteInfo e c2 (InArr (arr p)) (Some (case t of None \<Rightarrow> now e | Some t \<Rightarrow> t))
          None None None = Inr (info, c')"
    by (auto simp: getLatLonArr_def getLatLon_def Let_def bindE_def split: sum.splits if_splits)
  from parseTLE_extends [OF p] isValidTLE_extends [OF v] getSatelliteInfo_extends [OF s]
  show ?thesis by (blast intro: cacheExtends_trans)
qed

lemma searchLoop_extends:
  "searchLoop e tleArr s c = Inr (s', c') \<Longrightarrow> cacheExtends c c'"
proof (induction e tleArr s c rule: searchLoop.induct)
  case (1 e tleArr s c)
  from "1.prems" obtain curLatLon c1 where
    sample: "getLatLonArr e c (InArr tleArr) (Some (curTimeMS s)) = Inr (curLatLon, c1)"
    by (subst (asm) searchLoop.simps) (auto split: sum.splits)
  note ext = getLatLonArr_extends [OF sample]
  show ?case
  proof (cases "step (searchBody s curLatLon) < 500 \<or> maxTries \<le> tries s")
    case True
    with "1.prems" sample have "c' = c1"
      by (subst (asm) searchLoop.simps) auto
    with ext show ?thesis by simp
  next
    case False
    with "1.prems" sample have rec: "searchLoop e tleArr (searchBody s curLatLon) c1 = Inr (s', c')"
      by (subst (asm) searchLoop.simps) auto
    from "1.IH" [OF sample refl False rec] ext show ?thesis
      by (blast intro: cacheExtends_trans)
  qed
qed

section \<open>The ISS lines under a propagator with a given longitude\<close>

text \<open>
  A propagator that reports the longitude \<open>f t\<close> at time \<open>t\<close>, on the equator, for every
  element set and observer: the sampler of the search loop as an arbitrary function of
  the time. The clock and the date parser are those of \<open>env2026\<close>.
\<close>

definition infoAt :: "num \<Rightarrow> satinfo" where
  "infoAt l =
     \<lparr>lng = l, lat = Num 0, elevation = Num 0, azimuth = Num 0, rangeSat = Num 0,
      height = Num 0, velocity = Num 0\<rparr>"

definition envLongitude :: "(num \<Rightarrow> num) \<Rightarrow> env" where
  "envLongitude f =
     env2026\<lparr>propagate := (\<lambda>tleArr t obsLat obsLng obsHeight. Inr (infoAt (f t)))\<rparr>"

definition issArr :: "string list" where
  "issArr = [issLine1, issLine2]"

definition issRec :: tle where
  "issRec = \<lparr>name = ''Unknown'', arr = issArr\<rparr>"

definition issKey :: string where
  "issKey = take 30 issLine1"

text \<open>
  The cache states met while the ISS lines are queried under \<open>envLongitude f\<close>: the entry
  of the parser for these lines, if there is one, is their record, and the stored
  satellite positions are those of \<open>f\<close>.
\<close>

definition issCacheOk :: "(num \<Rightarrow> num) \<Rightarrow> cache \<Rightarrow> bool" where
  "issCacheOk f c =
     ((parseCache c issKey = None \<or> parseCache c issKey = Some issRec)
      \<and> (\<forall>t. satInfoCache c (issKey, t, None, None, None) = None
             \<or> satInfoCache c (issKey, t, None, None, None) = Some (infoAt (f t))))"

lemma iss_key [simp]: "take 30 (concat issArr) = issKey"
  by (simp add: issArr_def issKey_def issLine1_def)

lemma iss_arr [simp]: "arr issRec = issArr" "length issArr = 2"
  "issArr ! 0 = issLine1" "issArr ! 1 = issLine2" "issArr ! Suc 0 = issLine2"
  by (simp_all add: issRec_def issArr_def)

lemma iss_build [simp]: "buildTLE issArr = issRec"
  by (simp add: buildTLE_def issRec_def issArr_def issLine1_def issLine2_def trim_def isWhiteSpace_def)

lemma iss_checksums:
  "tleLineChecksum issLine1 = Inr (Num 3)" "tleLineChecksum issLine2 = Inr (Num 0)"
  using tleLineChecksum_digit_first [of "butlast issLine1" "last issLine1"]
        tleLineChecksum_digit_first [of "butlast issLine2" "last issLine2"]
  by (simp_all add: issLine1_def issLine2_def isDigit_def digitVal_def)

lemma iss_line_fields:
  "decode T_INT (substr issLine1 0 (Suc 0)) = VNum (Num 1)"
  "decode T_INT (substr issLine1 68 (Suc 0)) = VNum (Num 3)"
  "decode T_INT (substr issLine2 0 (Suc 0)) = VNum (Num 2)"
  "decode T_INT (substr issLine2 68 (Suc 0)) = VNum (Num 0)"
  by (simp_all add: decode_def issLine1_def issLine2_def str_eval)

lemma iss_lines_valid: "forEachLine c issRec [0 ..< 2] True = Inr (True, c)"
  by (simp add: upt_0_2 checkLine_def lineGetters_def getField_rec lineNumber1_def lineNumber2_def
      checksum1_def checksum2_def iss_checksums iss_line_fields strictEq_def)


lemma issCacheOk_empty [simp]: "issCacheOk f emptyCache"
  by (simp add: issCacheOk_def)

lemma iss_parseTLE:
  assumes "issCacheOk f c"
  shows "\<exists>c'. parseTLE c (InArr issArr) = Inr (issRec, c') \<and> issCacheOk f c'
            \<and> cacheExtends c c' \<and> parseCache c' issKey = Some issRec
            \<and> satInfoCache c' = satInfoCache c"
proof (cases "parseCache c issKey")
  case None
  with assms show ?thesis
    by (auto simp: parseTLE_def tleStrOf_def issCacheOk_def cacheExtends_def map_le_def)
next
  case (Some r)
  with assms have "r = issRec" by (auto simp: issCacheOk_def)
  with Some assms show ?thesis by (simp add: parseTLE_def tleStrOf_def)
qed

lemma iss_parseTLE_cached:
  "parseCache c issKey = Some issRec \<Longrightarrow> parseTLE c (InArr issArr) = Inr (issRec, c)"
  by (simp add: parseTLE_def tleStrOf_def)

lemma iss_isValidTLE:
  assumes "issCacheOk f c"
  shows "\<exists>c'. isValidTLE c (InRec issRec) = Inr (True, c') \<and> issCacheOk f c'
            \<and> cacheExtends c c' \<and> parseCache c' = parseCache c
            \<and> satInfoCache c' = satInfoCache c"
proof (cases "validCache c issKey = Some True")
  case True
  with assms show ?thesis by (simp add: isValidTLE_def parseTLE_def)
next
  case False
  with assms show ?thesis
    by (simp add: isValidTLE_def parseTLE_def iss_lines_valid issCacheOk_def cacheExtends_def)
qed

lemma iss_getSatelliteInfo:
  assumes "issCacheOk f c" "parseCache c issKey = Some issRec"
  shows "\<exists>c'. getSatelliteInfo (envLongitude f) c (InArr issArr) (Some t) None None None
              = Inr (infoAt (f (if truthy t then t else now env2026)), c')
            \<and> issCacheOk f c' \<and> cacheExtends c c'"
proof -
  define ts where "ts = (if truthy t then t else now env2026)"
  have od: "orDefault (Some t) (now (envLongitude f)) = ts"
    by (simp add: orDefault_def ts_def envLongitude_def)
  have pr: "\<And>a x y z. propagate (envLongitude f) a ts x y z = Inr (infoAt (f ts))"
    by (simp add: envLongitude_def)
  from assms(1) have
    "satInfoCache c (issKey, ts, None, None, None) = None
     \<or> satInfoCache c (issKey, ts, None, None, None) = Some (infoAt (f ts))"
    by (simp add: issCacheOk_def)
  then show ?thesis
  proof
    assume "satInfoCache c (issKey, ts, None, None, None) = None"
    with assms show ?thesis
      unfolding ts_def [symmetric]
      by (simp add: getSatelliteInfo_def od pr iss_parseTLE_cached Let_def
          issCacheOk_def cacheExtends_def del: divide_eq_eq_numeral1 )
  next
    assume "satInfoCache c (issKey, ts, None, None, None) = Some (infoAt (f ts))"
    with assms show ?thesis
      unfolding ts_def [symmetric]
      by (simp add: getSatelliteInfo_def od iss_parseTLE_cached Let_def)
  qed
qed

lemma iss_sample:
  assumes "issCacheOk f c"
  shows "\<exists>c'. getLatLonArr (envLongitude f) c (InArr issArr) (Some t)
              = Inr ((Num 0, f (if truthy t then t else now env2026)), c')
            \<and> issCacheOk f c' \<and> cacheExtends c c'"
proof -
  from iss_parseTLE [OF assms] obtain c1 where
    p: "parseTLE c (InArr issArr) = Inr (issRec, c1)" and ok1: "issCacheOk f c1"
    and e1: "cacheExtends c c1" and k1: "parseCache c1 issKey = Some issRec" by blast
  from iss_isValidTLE [OF ok1] obtain c2 where
    v: "isValidTLE c1 (InRec issRec) = Inr (True, c2)" and ok2: "issCacheOk f c2"
    and e2: "cacheExtends c1 c2" and k2: "parseCache c2 = parseCache c1" by blast
  from k1 k2 have "parseCache c2 issKey = Some issRec" by simp
  from iss_getSatelliteInfo [OF ok2 this, of t] obtain c3 where
    s: "getSatelliteInfo (envLongitude f) c2 (InArr issArr) (Some t) None None None
          = Inr (infoAt (f (if truthy t then t else now env2026)), c3)"
    and ok3: "issCacheOk f c3" and e3: "cacheExtends c2 c3" by blast
  have "getLatLonArr (envLongitude f) c (InArr issArr) (Some t)
          = Inr ((Num 0, f (if truthy t then t else now env2026)), c3)"
    by (simp add: getLatLonArr_def getLatLon_def p v s infoAt_def)
  with ok3 e1 e2 e3 show ?thesis by (blast intro: cacheExtends_trans)
qed

section \<open>The search loop on given samples\<close>

text \<open>
  The loop of the search with the sample at time \<open>t\<close> read off \<open>f\<close> (the time \<open>0\<close> is
  falsy and sampled at the clock's \<open>nw\<close>). On the ISS lines under \<open>envLongitude f\<close> this
  is what \<open>searchLoop\<close> computes.
\<close>

function pureSearch :: "(num \<Rightarrow> num) \<Rightarrow> num \<Rightarrow> search_state \<Rightarrow> search_state" where
  "pureSearch f nw s =
     (if step (searchBody s (Num 0, f (if truthy (curTimeMS s) then curTimeMS s else nw))) < 500
         \<or> maxTries \<le> tries s
      then searchBody s (Num 0, f (if truthy (curTimeMS s) then curTimeMS s else nw))
      else pureSearch f nw
             (searchBody s (Num 0, f (if truthy (curTimeMS s) then curTimeMS s else nw))))"
  by pat_completeness auto
termination
  by (relation "measure (\<lambda>(f, nw, s). maxTries - tries s)") auto

declare pureSearch.simps [simp del]

lemma iss_searchLoop:
  "issCacheOk f c \<Longrightarrow>
     \<exists>c'. searchLoop (envLongitude f) issArr s c = Inr (pureSearch f (now env2026) s, c')
          \<and> issCacheOk f c' \<and> cacheExtends c c'"
proof (induction f "now env2026" s arbitrary: c rule: pureSearch.induct)
  case (1 f s)
  define s1 where
    "s1 = searchBody s (Num 0, f (if truthy (curTimeMS s) then curTimeMS s else now env2026))"
  from iss_sample [OF "1.prems", of "curTimeMS s"] obtain c1 where
    smp: "getLatLonArr (envLongitude f) c (InArr issArr) (Some (curTimeMS s))
            = Inr ((Num 0, f (if truthy (curTimeMS s) then curTimeMS s else now env2026)), c1)"
    and ok1: "issCacheOk f c1" and e1: "cacheExtends c c1" by blast
  show ?case
  proof (cases "step s1 < 500 \<or> maxTries \<le> tries s")
    case True
    then have "searchLoop (envLongitude f) issArr s c = Inr (s1, c1)"
      by (subst searchLoop.simps) (simp add: smp s1_def)
    moreover from True have "pureSearch f (now env2026) s = s1"
      by (subst pureSearch.simps) (simp add: s1_def)
    ultimately show ?thesis using ok1 e1 by simp
  next
    case False
    then have "searchLoop (envLongitude f) issArr s c = searchLoop (envLongitude f) issArr s1 c1"
      by (subst searchLoop.simps) (simp add: smp s1_def)
    moreover from False have "pureSearch f (now env2026) s = pureSearch f (now env2026) s1"
      by (subst pureSearch.simps) (simp add: s1_def)
    moreover from "1.hyps" [OF False [unfolded s1_def] ok1] obtain c' where
      "searchLoop (envLongitude f) issArr s1 c1 = Inr (pureSearch f (now env2026) s1, c')"
      "issCacheOk f c'" "cacheExtends c1 c'" unfolding s1_def by blast
    ultimately show ?thesis using e1 by (auto intro: cacheExtends_trans)
  qed
qed

text \<open>A longitude that stays the same during the whole search: the cap is reached.\<close>

lemma pureSearch_cap:
  "\<forall>x \<le> T. f (if x = 0 then nw else Num x) = L \<Longrightarrow> tries s \<le> maxTries \<Longrightarrow>
     500 \<le> step s \<Longrightarrow> curTimeMS s = Num x \<Longrightarrow> x \<le> T \<Longrightarrow>
     lastLatLon s = None \<or> (\<exists>la. lastLatLon s = Some (la, L)) \<Longrightarrow>
     tries (pureSearch f nw s) = Suc maxTries \<and> step (pureSearch f nw s) = step s"
proof (induction f nw s arbitrary: x rule: pureSearch.induct)
  case (1 f nw s)
  note tries_le = "1.prems"(2) and step_ge = "1.prems"(3) and cur = "1.prems"(4)
    and x_le = "1.prems"(5) and last = "1.prems"(6)
  from "1.prems"(1) x_le have "f (if x = 0 then nw else Num x) = L" by blast
  then have smp: "f (if truthy (curTimeMS s) then curTimeMS s else nw) = L"
    using cur by (cases "x = 0") simp_all
  have nc: "\<not> crossesAntemeridian (map_option snd (lastLatLon s)) (Some L)"
    using last by (auto simp: crossesAntemeridian_def)
  define s1 where "s1 = searchBody s (Num 0, L)"
  have sb: "searchBody s (Num 0, f (if truthy (curTimeMS s) then curTimeMS s else nw)) = s1"
    by (simp only: smp s1_def)
  have s1: "step s1 = step s" "tries s1 = Suc (tries s)" "curTimeMS s1 = Num (x - step s)"
    "lastLatLon s1 = Some (Num 0, L)"
    using nc cur by (simp_all add: s1_def searchBody_def Let_def jsub_def)
  show ?case
  proof (cases "maxTries \<le> tries s")
    case True
    then have "pureSearch f nw s = s1"
      by (subst pureSearch.simps) (simp only: sb simp_thms if_True)
    with True tries_le s1 show ?thesis by simp
  next
    case False
    with step_ge s1 have cond: "\<not> (step s1 < 500 \<or> maxTries \<le> tries s)" by simp
    then have unf: "pureSearch f nw s = pureSearch f nw s1"
      by (subst pureSearch.simps) (simp only: sb if_False)
    have a: "tries s1 \<le> maxTries" using False s1 by simp
    have b: "500 \<le> step s1" using step_ge s1 by simp
    have c: "x - step s \<le> T" using x_le step_ge by simp
    have d: "lastLatLon s1 = None \<or> (\<exists>la. lastLatLon s1 = Some (la, L))" using s1 by simp
    from "1.IH" [unfolded sb, OF cond "1.prems"(1) a b s1(3) c d] unf s1
    show ?thesis by simp
  qed
qed


section \<open>A search that ends by the cap\<close>

text \<open>
  The claim as stated ("after at most 1000 iterations") fails for a satellite whose
  longitude stays at 10 degrees: from the empty cache, the search on the ISS lines from
  the reference time 1000 stops only after the body has run 1001 times, the step still
  being 600000 ms.
\<close>

theorem searchLoop_1001_counterexample:
  "\<exists>s' c'. searchLoop (envLongitude (\<lambda>t. Num 10)) [issLine1, issLine2]
             (initialSearch (Num 1000)) emptyCache = Inr (s', c')
           \<and> tries s' = 1001 \<and> step s' = 600000"
proof -
  define s where "s = pureSearch (\<lambda>t. Num 10) (now env2026) (initialSearch (Num 1000))"
  from iss_searchLoop [of "\<lambda>t. Num 10" emptyCache "initialSearch (Num 1000)"] obtain c' where
    run: "searchLoop (envLongitude (\<lambda>t. Num 10)) issArr (initialSearch (Num 1000)) emptyCache
            = Inr (s, c')"
    unfolding s_def by auto
  have "tries s = Suc maxTries \<and> step s = step (initialSearch (Num 1000))"
    unfolding s_def
    by (rule pureSearch_cap [where T = 1000 and L = "Num 10" and x = 1000])
       (simp_all add: initialSearch_def maxTries_def)
  then have "tries s = 1001 \<and> step s = 600000"
    by (simp add: maxTries_def initialSearch_def)
  with run show ?thesis by (auto simp: issArr_def)
qed

section \<open>Later states of the cache\<close>

text \<open>
  What a later state of the cache keeps of an earlier one: no function of the file
  removes an entry of the parser, replaces the sentinel \<open>-1\<close> of a crossing history, or
  replaces a stored orbit length that is truthy.
\<close>

definition laterState :: "cache \<Rightarrow> cache \<Rightarrow> bool" where
  "laterState c c' =
     (parseCache c \<subseteq>\<^sub>m parseCache c'
      \<and> (\<forall>k. antemeridianCrossings c k = Some NoCrossing
              \<longrightarrow> antemeridianCrossings c' k = Some NoCrossing)
      \<and> (\<forall>k v. orbitLengthCache c k = Some v \<and> truthy v \<longrightarrow> orbitLengthCache c' k = Some v))"

lemma laterState_refl [simp]: "laterState c c"
  by (simp add: laterState_def)

lemma laterState_trans: "laterState a b \<Longrightarrow> laterState b c \<Longrightarrow> laterState a c"
  unfolding laterState_def by (meson map_le_trans)

lemma cacheExtends_later: "cacheExtends c c' \<Longrightarrow> laterState c c'"
  by (simp add: cacheExtends_def laterState_def)

lemma getAverageOrbitLengthMins_later:
  assumes "getAverageOrbitLengthMins c tle = Inr (m, c')"
  shows "laterState c c' \<and> antemeridianCrossings c' = antemeridianCrossings c"
proof -
  from assms obtain a where a: "tle = InArr a"
    by (cases tle) (simp_all add: getAverageOrbitLengthMins_def)
  show ?thesis
  proof (cases "\<exists>v. orbitLengthCache c (take 30 (concat a)) = Some v \<and> truthy v")
    case True
    with assms a show ?thesis by (auto simp: getAverageOrbitLengthMins_def)
  next
    case False
    with assms a obtain mm c1 where
      mm: "getMeanMotion c tle = Inr (mm, c1)" and
      c': "c' = c1\<lparr>orbitLengthCache := (orbitLengthCache c1)(take 30 (concat a) \<mapsto> m)\<rparr>"
      by (auto simp: getAverageOrbitLengthMins_def Let_def bindE_def
          split: option.splits sum.splits if_splits)
    from getField_extends [OF mm [unfolded getMeanMotion_def]] False c' show ?thesis
      by (auto simp: cacheExtends_def laterState_def)
  qed
qed

lemma getCached_orbitLength:
  "getCachedLastAntemeridianCrossingTimeMS c p t = Inr (v, c') \<Longrightarrow>
     \<exists>m. getAverageOrbitLengthMins c (InArr (arr p)) = Inr (m, c')"
  by (auto simp: getCachedLastAntemeridianCrossingTimeMS_def Let_def bindE_def
      split: sum.splits option.splits crossings.splits)

lemma getCached_later:
  "getCachedLastAntemeridianCrossingTimeMS c p t = Inr (v, c') \<Longrightarrow>
     laterState c c' \<and> antemeridianCrossings c' = antemeridianCrossings c"
  using getCached_orbitLength getAverageOrbitLengthMins_later by blast

lemma getCached_sentinel:
  assumes "getAverageOrbitLengthMins c (InArr (arr p)) = Inr (m, c')"
    and "antemeridianCrossings c (take 30 (concat (arr p))) = Some NoCrossing"
  shows "getCachedLastAntemeridianCrossingTimeMS c p t = Inr (Some (Num (- 1)), c')"
  using assms getAverageOrbitLengthMins_later [OF assms(1)]
  by (simp add: getCachedLastAntemeridianCrossingTimeMS_def Let_def)

lemma getAverageOrbitLengthMins_stable:
  assumes "getAverageOrbitLengthMins c (InArr a) = Inr (m, c1)" and "laterState c1 c2"
  shows "\<exists>m' c3. getAverageOrbitLengthMins c2 (InArr a) = Inr (m', c3)"
proof (cases "\<exists>v. orbitLengthCache c2 (take 30 (concat a)) = Some v \<and> truthy v")
  case True
  then show ?thesis by (auto simp: getAverageOrbitLengthMins_def)
next
  case False
  have "\<not> (\<exists>v. orbitLengthCache c (take 30 (concat a)) = Some v \<and> truthy v)"
  proof
    assume "\<exists>v. orbitLengthCache c (take 30 (concat a)) = Some v \<and> truthy v"
    then obtain v where v: "orbitLengthCache c (take 30 (concat a)) = Some v" "truthy v" by blast
    with assms(1) have "c1 = c" by (simp add: getAverageOrbitLengthMins_def)
    with v assms(2) have "orbitLengthCache c2 (take 30 (concat a)) = Some v"
      by (auto simp: laterState_def)
    with v False show False by simp
  qed
  with assms(1) obtain mm c' where
    mm: "getMeanMotion c (InArr a) = Inr (mm, c')" and "parseCache c1 = parseCache c'"
    by (auto simp: getAverageOrbitLengthMins_def Let_def bindE_def
        split: option.splits sum.splits if_splits)
  with assms(2) have "parseCache c' \<subseteq>\<^sub>m parseCache c2" by (simp add: laterState_def)
  from getField_stable [OF mm [unfolded getMeanMotion_def] this]
  have "getMeanMotion c2 (InArr a) = Inr (mm, c2)" by (simp add: getMeanMotion_def)
  with False show ?thesis
    by (auto simp: getAverageOrbitLengthMins_def Let_def split: option.splits)
qed

lemma searchAndStore_later:
  assumes "searchAndStore e c p t = Inr (r, c')"
  shows "laterState c c'"
proof -
  from assms obtain s c1 where
    run: "searchLoop e (arr p) (initialSearch (if truthy t then t else now e)) c = Inr (s, c1)"
    by (auto simp: searchAndStore_def Let_def bindE_def split: sum.splits)
  have "laterState c1 c'"
    using assms run
    by (auto simp: searchAndStore_def Let_def laterState_def
        split: if_splits option.splits crossings.splits)
  with cacheExtends_later [OF searchLoop_extends [OF run]] show ?thesis
    by (rule laterState_trans)
qed

lemma getLast_later:
  assumes "getLastAntemeridianCrossingTimeMS e c tle t = Inr (r, c')"
  shows "laterState c c'"
proof -
  from assms obtain p c1 v c2 where
    p: "parseTLE c tle = Inr (p, c1)" and
    g: "getCachedLastAntemeridianCrossingTimeMS c1 p t = Inr (v, c2)"
    by (auto simp: getLastAntemeridianCrossingTimeMS_def bindE_def split: sum.splits)
  have "laterState c2 c'"
    using assms p g searchAndStore_later [of e c2 p t r c']
    by (auto simp: getLastAntemeridianCrossingTimeMS_def split: option.splits if_splits)
  with cacheExtends_later [OF parseTLE_extends [OF p]] getCached_later [OF g]
  show ?thesis by (blast intro: laterState_trans)
qed

section \<open>A search that ends by the cap is remembered\<close>

lemma iss_getMeanMotion_ok:
  assumes "issCacheOk f c"
  shows "\<exists>c'. getMeanMotion c (InArr issArr) = Inr (VNum (Num (1554225995 / 100000000)), c')
            \<and> issCacheOk f c' \<and> cacheExtends c c'"
proof -
  from iss_parseTLE [OF assms] obtain c' where
    "parseTLE c (InArr issArr) = Inr (issRec, c')" "issCacheOk f c'" "cacheExtends c c'" by blast
  then show ?thesis
    using iss_meanMotion by (simp add: getMeanMotion_def getField_parse meanMotion_def)
qed

text \<open>The orbit length of the ISS lines in minutes, as \<open>getAverageOrbitLengthMins\<close> computes it.\<close>

definition issMins :: num where
  "issMins = Num (24 * 60 / (1554225995 / 100000000))"

lemma iss_orbitLength:
  assumes "issCacheOk f c"
    and "orbitLengthCache c issKey = None \<or> orbitLengthCache c issKey = Some issMins"
  shows "\<exists>c'. getAverageOrbitLengthMins c (InArr issArr) = Inr (issMins, c')
            \<and> issCacheOk f c'
            \<and> orbitLengthCache c' = (orbitLengthCache c)(issKey \<mapsto> issMins)
            \<and> antemeridianCrossings c' = antemeridianCrossings c
            \<and> groundTrackCache c' = groundTrackCache c
            \<and> orbitTrackCache c' = orbitTrackCache c"
  using assms(2)
proof
  assume n: "orbitLengthCache c issKey = None"
  from iss_getMeanMotion_ok [OF assms(1)] obtain c1 where
    "getMeanMotion c (InArr issArr) = Inr (VNum (Num (1554225995 / 100000000)), c1)"
    "issCacheOk f c1" "cacheExtends c c1" by blast
  with n show ?thesis
    by (simp add: getAverageOrbitLengthMins_def issMins_def issCacheOk_def cacheExtends_def
        Let_def)
next
  assume s: "orbitLengthCache c issKey = Some issMins"
  have "truthy issMins" by (simp add: issMins_def)
  moreover from s have "(orbitLengthCache c)(issKey \<mapsto> issMins) = orbitLengthCache c"
    by (rule fun_upd_idem)
  ultimately show ?thesis using s assms(1) by (simp add: getAverageOrbitLengthMins_def)
qed

text \<open>
  C5. Suppose a call of \<open>getLastAntemeridianCrossingTimeMS\<close> finds nothing usable in the
  cache and its search loop ends by the iteration cap (the body has run 1001 times).
  Then the call returns \<open>-1\<close> and leaves the sentinel \<open>-1\<close> in the crossing cache under the
  30-character key of the TLE. In every later state of the cache, for every reference
  time and every environment, a call for the same TLE returns \<open>-1\<close> and does not raise;
  it is the cache look-up alone that produces the answer and the cache afterwards, so
  the search is not run again.
\<close>

theorem noCrossing_is_cached:
  assumes parse: "parseTLE c tle = Inr (p, c1)"
    and miss: "getCachedLastAntemeridianCrossingTimeMS c1 p timeMS = Inr (cachedVal, c2)"
    and falsy: "\<not> truthyOpt cachedVal"
    and run: "searchLoop e (arr p) (initialSearch (if truthy timeMS then timeMS else now e)) c2
                = Inr (s, c3)"
    and cap: "tries s = 1001"
  shows "\<exists>c'. getLastAntemeridianCrossingTimeMS e c tle timeMS = Inr (Num (- 1), c')
            \<and> antemeridianCrossings c' (take 30 (concat (arr p))) = Some NoCrossing
            \<and> (\<forall>e' c'' t'. laterState c' c'' \<longrightarrow>
                  (\<exists>c'''. getLastAntemeridianCrossingTimeMS e' c'' tle t' = Inr (Num (- 1), c''')
                     \<and> parseTLE c'' tle = Inr (p, c'')
                     \<and> getCachedLastAntemeridianCrossingTimeMS c'' p t'
                         = Inr (Some (Num (- 1)), c''')))"
proof -
  define k where "k = take 30 (concat (arr p))"
  define c' where "c' = c3\<lparr>antemeridianCrossings := (antemeridianCrossings c3)(k \<mapsto> NoCrossing)\<rparr>"
  have store: "searchAndStore e c2 p timeMS = Inr (Num (- 1), c')"
    using run cap by (simp add: searchAndStore_def Let_def maxTries_def c'_def k_def)
  have first: "getLastAntemeridianCrossingTimeMS e c tle timeMS = Inr (Num (- 1), c')"
    using parse miss falsy store
    by (cases cachedVal) (simp_all add: getLastAntemeridianCrossingTimeMS_def)
  have sentinel: "antemeridianCrossings c' k = Some NoCrossing"
    by (simp add: c'_def)
  from getCached_orbitLength [OF miss] obtain m where
    len: "getAverageOrbitLengthMins c1 (InArr (arr p)) = Inr (m, c2)" by blast
  have l23: "laterState c2 c'"
    using searchAndStore_later [OF store] .
  have l13: "laterState c1 c'"
    using getCached_later [OF miss] l23 by (blast intro: laterState_trans)
  have again: "\<exists>c'''. getLastAntemeridianCrossingTimeMS e' c'' tle t' = Inr (Num (- 1), c''')
                 \<and> parseTLE c'' tle = Inr (p, c'')
                 \<and> getCachedLastAntemeridianCrossingTimeMS c'' p t' = Inr (Some (Num (- 1)), c''')"
    if later: "laterState c' c''" for e' c'' t'
  proof -
    from l13 later have "laterState c1 c''" by (rule laterState_trans)
    then have "parseCache c1 \<subseteq>\<^sub>m parseCache c''" by (simp add: laterState_def)
    from parseTLE_stable [OF parse this] have p': "parseTLE c'' tle = Inr (p, c'')" .
    from l23 later have "laterState c2 c''" by (rule laterState_trans)
    from getAverageOrbitLengthMins_stable [OF len this] obtain m' c''' where
      len': "getAverageOrbitLengthMins c'' (InArr (arr p)) = Inr (m', c''')" by blast
    from sentinel later have "antemeridianCrossings c'' k = Some NoCrossing"
      by (simp add: laterState_def)
    from getCached_sentinel [OF len' this [unfolded k_def]]
    have g: "getCachedLastAntemeridianCrossingTimeMS c'' p t' = Inr (Some (Num (- 1)), c''')" .
    with p' show ?thesis by (simp add: getLastAntemeridianCrossingTimeMS_def)
  qed
  from first sentinel again show ?thesis unfolding k_def by blast
qed

text \<open>
  The ISS lines with a propagator of constant longitude 10, from the empty cache: the
  first call reaches the cap, and a second call returns \<open>-1\<close> under \<open>env2026\<close>, whose
  propagator throws whenever it is called.
\<close>

theorem noCrossing_is_cached_witness:
  "\<exists>c' c''. getLastAntemeridianCrossingTimeMS (envLongitude (\<lambda>t. Num 10)) emptyCache
               (InArr [issLine1, issLine2]) (Num 1000) = Inr (Num (- 1), c')
           \<and> antemeridianCrossings c' (take 30 issLine1) = Some NoCrossing
           \<and> getLastAntemeridianCrossingTimeMS env2026 c' (InArr [issLine1, issLine2]) (Num 5)
               = Inr (Num (- 1), c'')"
proof -
  define f where "f = (\<lambda>t::num. Num 10)"
  from iss_parseTLE [of f emptyCache] obtain c1 where
    p: "parseTLE emptyCache (InArr issArr) = Inr (issRec, c1)" and ok1: "issCacheOk f c1"
    and e1: "cacheExtends emptyCache c1" by auto
  from e1 have f1: "orbitLengthCache c1 issKey = None" "antemeridianCrossings c1 = Map.empty"
    by (simp_all add: cacheExtends_def)
  from iss_orbitLength [OF ok1] f1 obtain c2 where
    len: "getAverageOrbitLengthMins c1 (InArr issArr) = Inr (issMins, c2)"
    and ok2: "issCacheOk f c2" and a2: "antemeridianCrossings c2 = Map.empty" by auto
  have miss: "getCachedLastAntemeridianCrossingTimeMS c1 issRec (Num 1000) = Inr (None, c2)"
    using len a2 by (simp add: getCachedLastAntemeridianCrossingTimeMS_def)
  define s where "s = pureSearch f (now env2026) (initialSearch (Num 1000))"
  from iss_searchLoop [OF ok2, of "initialSearch (Num 1000)"] obtain c3 where
    run: "searchLoop (envLongitude f) (arr issRec)
            (initialSearch (if truthy (Num 1000) then Num 1000 else now (envLongitude f))) c2
            = Inr (s, c3)"
    unfolding s_def by auto
  have "tries s = Suc maxTries \<and> step s = step (initialSearch (Num 1000))"
    unfolding s_def
    by (rule pureSearch_cap [where T = 1000 and L = "Num 10" and x = 1000])
       (simp_all add: initialSearch_def maxTries_def f_def)
  then have cap: "tries s = 1001" by (simp add: maxTries_def)
  have "\<not> truthyOpt None" by simp
  from noCrossing_is_cached [OF p miss this run cap] obtain c' where
    a: "getLastAntemeridianCrossingTimeMS (envLongitude f) emptyCache (InArr issArr) (Num 1000)
          = Inr (Num (- 1), c')" and
    b: "antemeridianCrossings c' (take 30 (concat (arr issRec))) = Some NoCrossing" and
    c: "\<forall>e' c'' t'. laterState c' c'' \<longrightarrow>
          (\<exists>c'''. getLastAntemeridianCrossingTimeMS e' c'' (InArr issArr) t' = Inr (Num (- 1), c''')
                 \<and> parseTLE c'' (InArr issArr) = Inr (issRec, c'')
                 \<and> getCachedLastAntemeridianCrossingTimeMS c'' issRec t'
                     = Inr (Some (Num (- 1)), c'''))"
    by blast
  from c [rule_format, of c' env2026 "Num 5"] obtain c'' where
    d: "getLastAntemeridianCrossingTimeMS env2026 c' (InArr issArr) (Num 5) = Inr (Num (- 1), c'')"
    by auto
  from b have "antemeridianCrossings c' (take 30 issLine1) = Some NoCrossing"
    by (simp add: issKey_def)
  with a d show ?thesis unfolding f_def issArr_def by blast
qed

section \<open>Orbit tracks on given samples\<close>

text \<open>
  The loop of \<open>getOrbitTrack\<close> with the sample at time \<open>t\<close> read off \<open>f\<close>, and with fuel: \<open>None\<close>
  means that \<open>n\<close> passes were not enough. Whatever it returns, \<open>trackLoop\<close> returns on the
  ISS lines under \<open>envLongitude f\<close>.
\<close>

fun pureTrack ::
  "nat \<Rightarrow> (num \<Rightarrow> num) \<Rightarrow> num \<Rightarrow> num \<Rightarrow> num option \<Rightarrow> latlon list \<Rightarrow> num \<Rightarrow> latlon option \<Rightarrow> num
     \<Rightarrow> latlon list option" where
  "pureTrack 0 f nw startTimeMS maxTimeMS latLons curTime lastSeen stepMSCopy = None"
| "pureTrack (Suc n) f nw startTimeMS maxTimeMS latLons curTime lastSeen stepMSCopy =
     (if crossesAntemeridian (map_option snd lastSeen)
           (Some (f (if truthy curTime then curTime else nw)))
      then
        (if strictEq stepMSCopy (Num 500)
            \<or> overBudget maxTimeMS (jsub curTime stepMSCopy) startTimeMS
         then Some latLons
         else pureTrack n f nw startTimeMS maxTimeMS latLons (jsub curTime stepMSCopy)
                lastSeen (Num 500))
      else
        (if overBudget maxTimeMS (jadd curTime stepMSCopy) startTimeMS
         then Some (latLons @ [(Num 0, f (if truthy curTime then curTime else nw))])
         else pureTrack n f nw startTimeMS maxTimeMS
                (latLons @ [(Num 0, f (if truthy curTime then curTime else nw))])
                (jadd curTime stepMSCopy)
                (Some (Num 0, f (if truthy curTime then curTime else nw))) stepMSCopy))"

lemma iss_trackLoop:
  "pureTrack n f (now env2026) st mx ll cur lastSeen stp = Some r \<Longrightarrow> issCacheOk f c \<Longrightarrow>
     \<exists>c'. trackLoop (envLongitude f) issArr st mx ll cur lastSeen stp c = Some (Inr (r, c'))
          \<and> issCacheOk f c' \<and> cacheExtends c c'"
proof (induction n arbitrary: ll cur lastSeen stp c)
  case 0
  then show ?case by simp
next
  case (Suc n)
  define l where "l = f (if truthy cur then cur else now env2026)"
  from iss_sample [OF Suc.prems(2), of cur] obtain c1 where
    smp: "getLatLonArr (envLongitude f) c (InArr issArr) (Some cur) = Inr ((Num 0, l), c1)"
    and ok1: "issCacheOk f c1" and e1: "cacheExtends c c1" unfolding l_def by blast
  show ?case
  proof (cases "crossesAntemeridian (map_option snd lastSeen) (Some l)")
    case True
    show ?thesis
    proof (cases "strictEq stp (Num 500) \<or> overBudget mx (jsub cur stp) st")
      case fin: True
      with True Suc.prems(1) have "r = ll" by (auto simp: l_def)
      moreover from True fin
      have "trackLoop (envLongitude f) issArr st mx ll cur lastSeen stp c = Some (Inr (ll, c1))"
        by (subst trackLoop.simps) (auto simp: smp)
      ultimately show ?thesis using ok1 e1 by simp
    next
      case go: False
      with True Suc.prems(1)
      have "pureTrack n f (now env2026) st mx ll (jsub cur stp) lastSeen (Num 500) = Some r"
        by (simp add: l_def)
      from Suc.IH [OF this ok1] obtain c' where
        "trackLoop (envLongitude f) issArr st mx ll (jsub cur stp) lastSeen (Num 500) c1
           = Some (Inr (r, c'))" "issCacheOk f c'" "cacheExtends c1 c'" by blast
      moreover from True go
      have "trackLoop (envLongitude f) issArr st mx ll cur lastSeen stp c
              = trackLoop (envLongitude f) issArr st mx ll (jsub cur stp) lastSeen (Num 500) c1"
        by (subst trackLoop.simps) (simp add: smp)
      ultimately show ?thesis using e1 by (auto intro: cacheExtends_trans)
    qed
  next
    case False
    show ?thesis
    proof (cases "overBudget mx (jadd cur stp) st")
      case fin: True
      with False Suc.prems(1) have "r = ll @ [(Num 0, l)]" by (auto simp: l_def)
      moreover from False fin
      have "trackLoop (envLongitude f) issArr st mx ll cur lastSeen stp c
              = Some (Inr (ll @ [(Num 0, l)], c1))"
        by (subst trackLoop.simps) (simp add: smp)
      ultimately show ?thesis using ok1 e1 by simp
    next
      case go: False
      with False Suc.prems(1)
      have "pureTrack n f (now env2026) st mx (ll @ [(Num 0, l)]) (jadd cur stp)
              (Some (Num 0, l)) stp = Some r"
        by (simp add: l_def)
      from Suc.IH [OF this ok1] obtain c' where
        "trackLoop (envLongitude f) issArr st mx (ll @ [(Num 0, l)]) (jadd cur stp)
           (Some (Num 0, l)) stp c1 = Some (Inr (r, c'))" "issCacheOk f c'" "cacheExtends c1 c'"
        by blast
      moreover from False go
      have "trackLoop (envLongitude f) issArr st mx ll cur lastSeen stp c
              = trackLoop (envLongitude f) issArr st mx (ll @ [(Num 0, l)]) (jadd cur stp)
                  (Some (Num 0, l)) stp c1"
        by (subst trackLoop.simps) (simp add: smp)
      ultimately show ?thesis using e1 by (auto intro: cacheExtends_trans)
    qed
  qed
qed

section \<open>The calls on the ISS lines, on what they leave in the cache\<close>

text \<open>
  A state of the cache while the ISS lines are queried under \<open>envLongitude f\<close>, described
  by what the results depend on: the crossing history \<open>A\<close> of the lines, the stored orbit
  tracks \<open>K\<close> and the stored ground tracks \<open>G\<close>. The functions \<open>cachedLookup\<close>, \<open>issSearch\<close>,
  \<open>issLast\<close>, \<open>issOrbitTrack\<close>, \<open>issThreeTracks\<close> and \<open>issGroundTrack\<close> below compute, from
  such a description, the result of the call of the same name and the description of the
  state it leaves; the lemma after each one shows that the call of the model does return
  that.
\<close>

definition issState ::
  "(num \<Rightarrow> num) \<Rightarrow> cache \<Rightarrow> crossings option \<Rightarrow> (string \<times> fixed \<times> num option \<rightharpoonup> latlon list)
     \<Rightarrow> (string \<times> num option \<times> fixed \<rightharpoonup> latlon list list) \<Rightarrow> bool" where
  "issState f c A K G =
     (issCacheOk f c
      \<and> (orbitLengthCache c issKey = None \<or> orbitLengthCache c issKey = Some issMins)
      \<and> antemeridianCrossings c issKey = A
      \<and> orbitTrackCache c = K
      \<and> groundTrackCache c = G)"

lemma issState_empty: "issState f emptyCache None Map.empty Map.empty"
  by (simp add: issState_def)

lemma issState_extends: "issState f c A K G \<Longrightarrow> issCacheOk f c' \<Longrightarrow> cacheExtends c c' \<Longrightarrow>
  issState f c' A K G"
  by (simp add: issState_def cacheExtends_def)

lemma iss_parse_state:
  assumes "issState f c A K G" and "tle = InArr issArr \<or> tle = InRec issRec"
  shows "\<exists>c'. parseTLE c tle = Inr (issRec, c') \<and> issState f c' A K G"
  using assms(2)
proof
  assume a: "tle = InArr issArr"
  from assms(1) have "issCacheOk f c" by (simp add: issState_def)
  from iss_parseTLE [OF this] obtain c1 where
    "parseTLE c (InArr issArr) = Inr (issRec, c1)" "issCacheOk f c1" "cacheExtends c c1" by blast
  with a issState_extends [OF assms(1)] show ?thesis by blast
next
  assume "tle = InRec issRec"
  with assms(1) show ?thesis by (simp add: parseTLE_def)
qed

text \<open>The orbit time of the ISS lines, as \<open>getOrbitTimeMS\<close> computes it.\<close>

definition issOrbitTimeMS :: num where
  "issOrbitTimeMS = parseIntNum (jdiv (Num MS_IN_A_DAY) (Num (1554225995 / 100000000)))"

lemma iss_getOrbitTimeMS:
  assumes "issState f c A K G"
  shows "\<exists>c'. getOrbitTimeMS c (InArr issArr) = Inr (issOrbitTimeMS, c') \<and> issState f c' A K G"
proof -
  from assms have "issCacheOk f c" by (simp add: issState_def)
  from iss_getMeanMotion_ok [OF this] obtain c' where
    "getMeanMotion c (InArr issArr) = Inr (VNum (Num (1554225995 / 100000000)), c')"
    "issCacheOk f c'" "cacheExtends c c'" by blast
  with issState_extends [OF assms] show ?thesis
    by (auto simp: getOrbitTimeMS_def issOrbitTimeMS_def simp del: jdiv.simps parseIntNum.simps)
qed

definition cachedLookup :: "crossings option \<Rightarrow> num \<Rightarrow> num option" where
  "cachedLookup A timeMS =
     (case A of
        None \<Rightarrow> None
      | Some NoCrossing \<Rightarrow> Some (Num (- 1))
      | Some (Times cachedCrossingTimes) \<Rightarrow>
          (case filter (\<lambda>val. let diff = jsub timeMS val
                              in jgt diff (Num 0)
                                 \<and> jlt diff (jmul (jmul issMins (Num 60)) (Num 1000)))
                  cachedCrossingTimes of
             [] \<Rightarrow> None
           | t # ts \<Rightarrow> if truthy t then Some t else None))"

lemma iss_getCached:
  assumes "issState f c A K G"
  shows "\<exists>c'. getCachedLastAntemeridianCrossingTimeMS c issRec t = Inr (cachedLookup A t, c')
            \<and> issState f c' A K G"
proof -
  from assms have ok: "issCacheOk f c"
    and len: "orbitLengthCache c issKey = None \<or> orbitLengthCache c issKey = Some issMins"
    and A: "antemeridianCrossings c issKey = A"
    by (simp_all add: issState_def)
  from iss_orbitLength [OF ok len] obtain c' where
    m: "getAverageOrbitLengthMins c (InArr issArr) = Inr (issMins, c')"
    and ok': "issCacheOk f c'"
    and rest: "orbitLengthCache c' = (orbitLengthCache c)(issKey \<mapsto> issMins)"
      "antemeridianCrossings c' = antemeridianCrossings c"
      "groundTrackCache c' = groundTrackCache c" "orbitTrackCache c' = orbitTrackCache c"
    by blast
  have st: "issState f c' A K G"
    using assms ok' rest by (simp add: issState_def)
  have "getCachedLastAntemeridianCrossingTimeMS c issRec t = Inr (cachedLookup A t, c')"
    using m rest(2) A
    by (simp add: getCachedLastAntemeridianCrossingTimeMS_def cachedLookup_def Let_def
        split: option.splits crossings.splits list.splits)
  with st show ?thesis by blast
qed

definition issSearch :: "(num \<Rightarrow> num) \<Rightarrow> crossings option \<Rightarrow> num \<Rightarrow> num \<times> crossings option" where
  "issSearch f A timeMS =
     (let s = pureSearch f (now env2026) (initialSearch (if truthy timeMS then timeMS else now env2026))
      in if tries s - 1 = maxTries then (Num (- 1), Some NoCrossing)
         else (parseIntNum (curTimeMS s),
               Some (Times ((case A of Some (Times ts) \<Rightarrow> ts | _ \<Rightarrow> [])
                            @ [parseIntNum (curTimeMS s)]))))"

definition issLast :: "(num \<Rightarrow> num) \<Rightarrow> crossings option \<Rightarrow> num \<Rightarrow> num \<times> crossings option" where
  "issLast f A timeMS =
     (case cachedLookup A timeMS of
        None \<Rightarrow> issSearch f A timeMS
      | Some v \<Rightarrow> if truthy v then (v, A) else issSearch f A timeMS)"

lemma iss_searchAndStore:
  assumes "issState f c A K G" and "A \<noteq> Some NoCrossing"
  shows "\<exists>c'. searchAndStore (envLongitude f) c issRec t = Inr (fst (issSearch f A t), c')
            \<and> issState f c' (snd (issSearch f A t)) K G"
proof -
  have nw: "now (envLongitude f) = now env2026" by (simp add: envLongitude_def)
  define t0 where "t0 = (if truthy t then t else now env2026)"
  define s where "s = pureSearch f (now env2026) (initialSearch t0)"
  from assms have ok: "issCacheOk f c" by (simp add: issState_def)
  from iss_searchLoop [OF ok, of "initialSearch t0"]
  obtain c1 where
    run: "searchLoop (envLongitude f) issArr (initialSearch t0) c = Inr (s, c1)"
    and ok1: "issCacheOk f c1" and e1: "cacheExtends c c1" unfolding s_def by blast
  have unf: "searchAndStore (envLongitude f) c issRec t =
     (if tries s - 1 = maxTries
      then Inr (Num (- 1),
                c1\<lparr>antemeridianCrossings := (antemeridianCrossings c1)(issKey \<mapsto> NoCrossing)\<rparr>)
      else (case (case antemeridianCrossings c1 issKey of None \<Rightarrow> Times [] | Some h \<Rightarrow> h) of
              Times ts \<Rightarrow>
                Inr (parseIntNum (curTimeMS s),
                     c1\<lparr>antemeridianCrossings :=
                          (antemeridianCrossings c1)
                            (issKey \<mapsto> Times (ts @ [parseIntNum (curTimeMS s)]))\<rparr>)
            | NoCrossing \<Rightarrow> Inl TypeError))"
    unfolding searchAndStore_def nw Let_def t0_def [symmetric]
    by (simp add: run split: crossings.splits)
  have unf2: "issSearch f A t =
     (if tries s - 1 = maxTries then (Num (- 1), Some NoCrossing)
      else (parseIntNum (curTimeMS s),
            Some (Times ((case A of Some (Times ts) \<Rightarrow> ts | _ \<Rightarrow> [])
                         @ [parseIntNum (curTimeMS s)]))))"
    unfolding issSearch_def Let_def t0_def [symmetric] s_def [symmetric] ..
  have st1: "issState f c1 A K G" by (rule issState_extends [OF assms(1) ok1 e1])
  show ?thesis
  proof (cases "tries s - 1 = maxTries")
    case True
    then have "searchAndStore (envLongitude f) c issRec t
                 = Inr (Num (- 1), c1\<lparr>antemeridianCrossings :=
                                        (antemeridianCrossings c1)(issKey \<mapsto> NoCrossing)\<rparr>)"
      by (simp add: unf)
    moreover from True have "issSearch f A t = (Num (- 1), Some NoCrossing)"
      by (simp add: unf2)
    moreover have "issState f (c1\<lparr>antemeridianCrossings :=
                                     (antemeridianCrossings c1)(issKey \<mapsto> NoCrossing)\<rparr>)
                     (Some NoCrossing) K G"
      using st1 by (simp add: issState_def issCacheOk_def)
    ultimately show ?thesis by simp
  next
    case False
    define ts where "ts = (case A of Some (Times ts) \<Rightarrow> ts | _ \<Rightarrow> [])"
    define r where "r = parseIntNum (curTimeMS s)"
    have hist: "(case antemeridianCrossings c1 issKey of None \<Rightarrow> Times [] | Some h \<Rightarrow> h) = Times ts"
      using st1 assms(2) by (auto simp: issState_def ts_def split: option.splits crossings.splits)
    from False have "searchAndStore (envLongitude f) c issRec t
                 = Inr (r, c1\<lparr>antemeridianCrossings :=
                                (antemeridianCrossings c1)(issKey \<mapsto> Times (ts @ [r]))\<rparr>)"
      by (simp add: unf hist r_def)
    moreover from False have "issSearch f A t = (r, Some (Times (ts @ [r])))"
      by (simp add: unf2 ts_def r_def)
    moreover have "issState f (c1\<lparr>antemeridianCrossings :=
                                     (antemeridianCrossings c1)(issKey \<mapsto> Times (ts @ [r]))\<rparr>)
                     (Some (Times (ts @ [r]))) K G"
      using st1 by (simp add: issState_def issCacheOk_def)
    ultimately show ?thesis by simp
  qed
qed

lemma cachedLookup_sentinel: "cachedLookup A t = Some v \<Longrightarrow> truthy v \<or> A \<noteq> Some NoCrossing"
  by (auto simp: cachedLookup_def split: option.splits crossings.splits)

lemma iss_getLast:
  assumes "issState f c A K G" and "tle = InArr issArr \<or> tle = InRec issRec"
  shows "\<exists>c'. getLastAntemeridianCrossingTimeMS (envLongitude f) c tle t
              = Inr (fst (issLast f A t), c')
            \<and> issState f c' (snd (issLast f A t)) K G"
proof -
  from iss_parse_state [OF assms] obtain c1 where
    p: "parseTLE c tle = Inr (issRec, c1)" and st1: "issState f c1 A K G" by blast
  from iss_getCached [OF st1, of t] obtain c2 where
    g: "getCachedLastAntemeridianCrossingTimeMS c1 issRec t = Inr (cachedLookup A t, c2)"
    and st2: "issState f c2 A K G" by blast
  show ?thesis
  proof (cases "\<exists>v. cachedLookup A t = Some v \<and> truthy v")
    case True
    then obtain v where v: "cachedLookup A t = Some v" "truthy v" by blast
    then have "getLastAntemeridianCrossingTimeMS (envLongitude f) c tle t = Inr (v, c2)"
      by (simp add: getLastAntemeridianCrossingTimeMS_def p g)
    moreover from v have "issLast f A t = (v, A)" by (simp add: issLast_def)
    ultimately show ?thesis using st2 by simp
  next
    case False
    then have nc: "A \<noteq> Some NoCrossing" by (auto simp: cachedLookup_def)
    from False have "getLastAntemeridianCrossingTimeMS (envLongitude f) c tle t
                       = searchAndStore (envLongitude f) c2 issRec t"
      by (auto simp: getLastAntemeridianCrossingTimeMS_def p g split: option.splits)
    moreover from False have "issLast f A t = issSearch f A t"
      by (auto simp: issLast_def split: option.splits)
    ultimately show ?thesis using iss_searchAndStore [OF st2 nc, of t] by simp
  qed
qed

definition issOrbitTrack ::
  "nat \<Rightarrow> (num \<Rightarrow> num) \<Rightarrow> (string \<times> fixed \<times> num option \<rightharpoonup> latlon list) \<Rightarrow> num \<Rightarrow> num option
     \<Rightarrow> num option \<Rightarrow> (latlon list \<times> (string \<times> fixed \<times> num option \<rightharpoonup> latlon list)) option" where
  "issOrbitTrack n f K startTimeMS stepMS maxTimeMS =
     (if \<not> truthy startTimeMS then Some ([], K)
      else
        (case K (issKey, toFixed (jdiv startTimeMS (Num 10000)), stepMS) of
           Some cached \<Rightarrow> Some (cached, K)
         | None \<Rightarrow>
             (case pureTrack n f (now env2026) startTimeMS maxTimeMS [] startTimeMS None
                     (orDefault stepMS (Num (1000 * 60 * 1))) of
                None \<Rightarrow> None
              | Some r \<Rightarrow>
                  Some (r, K((issKey, toFixed (jdiv startTimeMS (Num 10000)), stepMS) \<mapsto> r)))))"

lemma iss_getOrbitTrack:
  assumes "issOrbitTrack n f K st stp mx = Some (r, K')" and "issState f c A K G"
  shows "\<exists>c'. getOrbitTrack (envLongitude f) c issArr st stp mx = Some (Inr (r, c'))
            \<and> issState f c' A K' G"
proof (cases "truthy st")
  case False
  with assms show ?thesis by (simp add: issOrbitTrack_def getOrbitTrack_def)
next
  case True
  define key where "key = (issKey, toFixed (jdiv st (Num 10000)), stp)"
  from assms(2) have K: "orbitTrackCache c = K" and ok: "issCacheOk f c"
    by (simp_all add: issState_def)
  show ?thesis
  proof (cases "K key")
    case (Some cached)
    with True assms(1) have "r = cached" "K' = K"
      by (simp_all add: issOrbitTrack_def key_def [symmetric])
    moreover from True Some K
    have "getOrbitTrack (envLongitude f) c issArr st stp mx = Some (Inr (cached, c))"
      by (simp add: getOrbitTrack_def key_def [symmetric])
    ultimately show ?thesis using assms(2) by simp
  next
    case None
    with True assms(1) have
      run: "pureTrack n f (now env2026) st mx [] st None (orDefault stp (Num (1000 * 60 * 1)))
              = Some r" and K': "K' = K(key \<mapsto> r)"
      by (auto simp: issOrbitTrack_def key_def [symmetric] split: option.splits)
    from iss_trackLoop [OF run ok] obtain c1 where
      loop: "trackLoop (envLongitude f) issArr st mx [] st None
               (orDefault stp (Num (1000 * 60 * 1))) c = Some (Inr (r, c1))"
      and ok1: "issCacheOk f c1" and e1: "cacheExtends c c1" by blast
    have st1: "issState f c1 A K G" by (rule issState_extends [OF assms(2) ok1 e1])
    from True None K loop
    have "getOrbitTrack (envLongitude f) c issArr st stp mx
            = Some (Inr (r, c1\<lparr>orbitTrackCache := (orbitTrackCache c1)(key \<mapsto> r)\<rparr>))"
      by (simp add: getOrbitTrack_def key_def [symmetric] bindO_def)
    moreover have "issState f (c1\<lparr>orbitTrackCache := (orbitTrackCache c1)(key \<mapsto> r)\<rparr>) A K' G"
      using st1 K' by (simp add: issState_def issCacheOk_def)
    ultimately show ?thesis by blast
  qed
qed

definition issThreeTracks ::
  "nat \<Rightarrow> (num \<Rightarrow> num) \<Rightarrow> crossings option \<Rightarrow> (string \<times> fixed \<times> num option \<rightharpoonup> latlon list)
     \<Rightarrow> num option \<Rightarrow> num
     \<Rightarrow> (latlon list list \<times> crossings option \<times> (string \<times> fixed \<times> num option \<rightharpoonup> latlon list)) option"
  where
  "issThreeTracks n f A K stepMS curOrbitStartMS =
     (case issOrbitTrack n f K (fst (issLast f A (jsub curOrbitStartMS (Num 10000)))) stepMS None of
        None \<Rightarrow> None
      | Some (track1, K1) \<Rightarrow>
          (case issOrbitTrack n f K1 curOrbitStartMS stepMS None of
             None \<Rightarrow> None
           | Some (track2, K2) \<Rightarrow>
               (case issOrbitTrack n f K2
                       (fst (issLast f (snd (issLast f A (jsub curOrbitStartMS (Num 10000))))
                               (jadd (jadd curOrbitStartMS issOrbitTimeMS) (Num (1000 * 60 * 30)))))
                       stepMS None of
                  None \<Rightarrow> None
                | Some (track3, K3) \<Rightarrow>
                    Some ([track1, track2, track3],
                          snd (issLast f (snd (issLast f A (jsub curOrbitStartMS (Num 10000))))
                                 (jadd (jadd curOrbitStartMS issOrbitTimeMS) (Num (1000 * 60 * 30)))),
                          K3))))"

lemma iss_threeTracks:
  assumes "issThreeTracks n f A K stepMS cur = Some (tracks, A', K')" and "issState f c A K G"
  shows "\<exists>c'. threeTracks (envLongitude f) c (InArr issArr) issRec stepMS issOrbitTimeMS cur
              = Some (Inr (tracks, c'))
            \<and> issState f c' A' K' G"
proof -
  define l where "l = issLast f A (jsub cur (Num 10000))"
  define tn where "tn = jadd (jadd cur issOrbitTimeMS) (Num (1000 * 60 * 30))"
  define nx where "nx = issLast f (snd l) tn"
  from assms(1) obtain t1 K1 t2 K2 t3 where
    o1: "issOrbitTrack n f K (fst l) stepMS None = Some (t1, K1)" and
    o2: "issOrbitTrack n f K1 cur stepMS None = Some (t2, K2)" and
    o3: "issOrbitTrack n f K2 (fst nx) stepMS None = Some (t3, K')" and
    res: "tracks = [t1, t2, t3]" "A' = snd nx"
    unfolding issThreeTracks_def l_def [symmetric] tn_def [symmetric] nx_def [symmetric]
    by (auto split: option.splits prod.splits)
  from iss_getLast [OF assms(2), of "InArr issArr" "jsub cur (Num 10000)"] obtain c1 where
    g1: "getLastAntemeridianCrossingTimeMS (envLongitude f) c (InArr issArr) (jsub cur (Num 10000))
           = Inr (fst l, c1)" and s1: "issState f c1 (snd l) K G"
    unfolding l_def by blast
  from iss_getLast [OF s1, of "InArr issArr" tn]
  obtain c2 where
    g2: "getLastAntemeridianCrossingTimeMS (envLongitude f) c1 (InArr issArr) tn
           = Inr (fst nx, c2)"
    and s2: "issState f c2 (snd nx) K G"
    unfolding nx_def by blast
  from iss_getOrbitTrack [OF o1 s2] obtain c3 where
    r1: "getOrbitTrack (envLongitude f) c2 issArr (fst l) stepMS None = Some (Inr (t1, c3))"
    and s3: "issState f c3 (snd nx) K1 G" by blast
  from iss_getOrbitTrack [OF o2 s3] obtain c4 where
    r2: "getOrbitTrack (envLongitude f) c3 issArr cur stepMS None = Some (Inr (t2, c4))"
    and s4: "issState f c4 (snd nx) K2 G" by blast
  from iss_getOrbitTrack [OF o3 s4] obtain c5 where
    r3: "getOrbitTrack (envLongitude f) c4 issArr (fst nx) stepMS None = Some (Inr (t3, c5))"
    and s5: "issState f c5 (snd nx) K' G" by blast
  have "threeTracks (envLongitude f) c (InArr issArr) issRec stepMS issOrbitTimeMS cur
          = Some (Inr ([t1, t2, t3], c5))"
    unfolding threeTracks_def tn_def [symmetric]
    by (simp add: bindO_def g1 g2 r1 r2 r3)
  with s5 res show ?thesis by blast
qed

definition issGroundKey :: "num option \<Rightarrow> num \<Rightarrow> num \<Rightarrow> string \<times> num option \<times> fixed" where
  "issGroundKey stepMS timeMS curOrbitStartMS =
     (take 30 issLine2, stepMS,
      toFixed (jdiv (if strictEq curOrbitStartMS (Num (- 1)) then timeMS else curOrbitStartMS)
                 (Num 1000)))"

definition issGroundTrack ::
  "nat \<Rightarrow> (num \<Rightarrow> num) \<Rightarrow> crossings option \<Rightarrow> (string \<times> fixed \<times> num option \<rightharpoonup> latlon list)
     \<Rightarrow> (string \<times> num option \<times> fixed \<rightharpoonup> latlon list list) \<Rightarrow> num option \<Rightarrow> num
     \<Rightarrow> (latlon list list \<times> crossings option \<times> (string \<times> fixed \<times> num option \<rightharpoonup> latlon list)
          \<times> (string \<times> num option \<times> fixed \<rightharpoonup> latlon list list)) option" where
  "issGroundTrack n f A K G stepMS timeMS =
     (case G (issGroundKey stepMS timeMS (fst (issLast f A timeMS))) of
        Some cached \<Rightarrow> Some (cached, snd (issLast f A timeMS), K, G)
      | None \<Rightarrow>
          if \<not> strictEq (fst (issLast f A timeMS)) (Num (- 1))
          then (case issThreeTracks n f (snd (issLast f A timeMS)) K stepMS
                       (fst (issLast f A timeMS)) of
                  None \<Rightarrow> None
                | Some (tracks, A', K') \<Rightarrow>
                    Some (tracks, A', K',
                          G(issGroundKey stepMS timeMS (fst (issLast f A timeMS)) \<mapsto> tracks)))
          else (case issOrbitTrack n f K timeMS (Some (Num 600000)) (Some (Num 86400000)) of
                  None \<Rightarrow> None
                | Some (track, K') \<Rightarrow>
                    Some ([track], snd (issLast f A timeMS), K',
                          G(issGroundKey stepMS timeMS (fst (issLast f A timeMS)) \<mapsto> [track]))))"

lemma iss_getGroundTrackLatLng:
  assumes "issGroundTrack n f A K G stepMS (orDefault optionalTimeMS (now env2026))
             = Some (tracks, A', K', G')"
    and "issState f c A K G"
  shows "\<exists>c'. getGroundTrackLatLng (envLongitude f) c (InArr issArr) stepMS optionalTimeMS
              = Some (Inr (tracks, c'))
            \<and> issState f c' A' K' G'"
proof -
  define timeMS where "timeMS = orDefault optionalTimeMS (now env2026)"
  define cur where "cur = fst (issLast f A timeMS)"
  define A1 where "A1 = snd (issLast f A timeMS)"
  define key where "key = issGroundKey stepMS timeMS cur"
  have nw: "orDefault optionalTimeMS (now (envLongitude f)) = timeMS"
    by (simp add: envLongitude_def timeMS_def)
  from iss_parse_state [OF assms(2), of "InArr issArr"] obtain c1 where
    p: "parseTLE c (InArr issArr) = Inr (issRec, c1)" and s1: "issState f c1 A K G" by blast
  from iss_getOrbitTimeMS [OF s1] obtain c2 where
    o: "getOrbitTimeMS c1 (InArr issArr) = Inr (issOrbitTimeMS, c2)"
    and s2: "issState f c2 A K G" by blast
  from iss_getLast [OF s2, of "InRec issRec" timeMS] obtain c3 where
    g: "getLastAntemeridianCrossingTimeMS (envLongitude f) c2 (InRec issRec) timeMS
          = Inr (cur, c3)" and s3: "issState f c3 A1 K G"
    unfolding cur_def A1_def by blast
  have k: "groundTrackKey issRec stepMS timeMS cur = key"
    by (simp add: groundTrackKey_def key_def issGroundKey_def)
  from s3 have G3: "groundTrackCache c3 = G" by (simp add: issState_def)
  have unf: "getGroundTrackLatLng (envLongitude f) c (InArr issArr) stepMS optionalTimeMS =
     (case G key of
        Some cached \<Rightarrow> Some (Inr (cached, c3))
      | None \<Rightarrow>
          if \<not> strictEq cur (Num (- 1))
          then bindO (threeTracks (envLongitude f) c3 (InArr issArr) issRec stepMS issOrbitTimeMS cur)
                 (\<lambda>(orbitLatLons, c4).
                    Some (Inr (orbitLatLons,
                               c4\<lparr>groundTrackCache := (groundTrackCache c4)(key \<mapsto> orbitLatLons)\<rparr>)))
          else bindO (getOrbitTrack (envLongitude f) c3 issArr timeMS
                        (Some (Num 600000)) (Some (Num 86400000)))
                 (\<lambda>(track, c4).
                    Some (Inr ([track],
                               c4\<lparr>groundTrackCache := (groundTrackCache c4)(key \<mapsto> [track])\<rparr>))))"
    unfolding getGroundTrackLatLng_def nw Let_def
    by (simp add: p o g k G3 bindO_def split: option.splits)
  have mir: "(case G key of
        Some cached \<Rightarrow> Some (cached, A1, K, G)
      | None \<Rightarrow>
          if \<not> strictEq cur (Num (- 1))
          then (case issThreeTracks n f A1 K stepMS cur of
                  None \<Rightarrow> None
                | Some (tracks, A', K') \<Rightarrow> Some (tracks, A', K', G(key \<mapsto> tracks)))
          else (case issOrbitTrack n f K timeMS (Some (Num 600000)) (Some (Num 86400000)) of
                  None \<Rightarrow> None
                | Some (track, K') \<Rightarrow> Some ([track], A1, K', G(key \<mapsto> [track]))))
      = Some (tracks, A', K', G')"
    using assms(1)
    unfolding issGroundTrack_def timeMS_def [symmetric] cur_def [symmetric] A1_def [symmetric]
      key_def [symmetric] .
  show ?thesis
  proof (cases "G key")
    case (Some cached)
    with mir unf s3 show ?thesis by auto
  next
    case None
    show ?thesis
    proof (cases "strictEq cur (Num (- 1))")
      case False
      with None mir have
        t: "issThreeTracks n f A1 K stepMS cur = Some (tracks, A', K')"
        and G': "G' = G(key \<mapsto> tracks)"
        by (auto split: option.splits)
      from iss_threeTracks [OF t s3] obtain c4 where
        r: "threeTracks (envLongitude f) c3 (InArr issArr) issRec stepMS issOrbitTimeMS cur
              = Some (Inr (tracks, c4))" and s4: "issState f c4 A' K' G" by blast
      have "issState f (c4\<lparr>groundTrackCache := (groundTrackCache c4)(key \<mapsto> tracks)\<rparr>) A' K' G'"
        using s4 G' by (simp add: issState_def issCacheOk_def)
      with None False unf r show ?thesis by (simp add: bindO_def)
    next
      case True
      with None mir obtain track where
        t: "issOrbitTrack n f K timeMS (Some (Num 600000)) (Some (Num 86400000)) = Some (track, K')"
        and res: "tracks = [track]" "A' = A1" "G' = G(key \<mapsto> [track])"
        by (auto split: option.splits)
      from iss_getOrbitTrack [OF t s3] obtain c4 where
        r: "getOrbitTrack (envLongitude f) c3 issArr timeMS (Some (Num 600000))
              (Some (Num 86400000)) = Some (Inr (track, c4))"
        and s4: "issState f c4 A1 K' G" by blast
      have "issState f (c4\<lparr>groundTrackCache := (groundTrackCache c4)(key \<mapsto> [track])\<rparr>) A' K' G'"
        using s4 res by (simp add: issState_def issCacheOk_def)
      with None True unf r res show ?thesis by (simp add: bindO_def)
    qed
  qed
qed

section \<open>A satellite that drifts over the antemeridian\<close>

text \<open>
  A satellite whose longitude is 170 degrees before the time 600 ms, \<open>-170\<close> from then
  until 3600 ms and 170 again afterwards: it goes over the antemeridian at 600 ms, for the
  first time. What follows evaluates its searches and tracks at the query time 1000, and
  the one track of the satellite of the sections above, which stays at 10 degrees.
\<close>

definition driftLongitude :: "num \<Rightarrow> num" where
  "driftLongitude t =
     (case t of
        Num x \<Rightarrow> if x < 600 \<or> 3600 \<le> x then Num 170 else Num (- 170)
      | _ \<Rightarrow> Num 170)"

lemma pureTrack_numeral:
  "pureTrack (numeral k) f nw startTimeMS maxTimeMS latLons curTime lastSeen stepMSCopy =
     (if crossesAntemeridian (map_option snd lastSeen)
           (Some (f (if truthy curTime then curTime else nw)))
      then
        (if strictEq stepMSCopy (Num 500)
            \<or> overBudget maxTimeMS (jsub curTime stepMSCopy) startTimeMS
         then Some latLons
         else pureTrack (pred_numeral k) f nw startTimeMS maxTimeMS latLons (jsub curTime stepMSCopy)
                lastSeen (Num 500))
      else
        (if overBudget maxTimeMS (jadd curTime stepMSCopy) startTimeMS
         then Some (latLons @ [(Num 0, f (if truthy curTime then curTime else nw))])
         else pureTrack (pred_numeral k) f nw startTimeMS maxTimeMS
                (latLons @ [(Num 0, f (if truthy curTime then curTime else nw))])
                (jadd curTime stepMSCopy)
                (Some (Num 0, f (if truthy curTime then curTime else nw))) stepMSCopy))"
  by (simp only: numeral_eq_Suc pureTrack.simps)

lemmas track_eval = pureTrack_numeral overBudget_def strictEq_def jsub_def crossesAntemeridian_def
  orDefault_def issOrbitTrack_def

lemma drift_search_1:
  "pureSearch driftLongitude (now env2026) (initialSearch (Num 1000)) =
     \<lparr>step = 625 / 2, curTimeMS = Num 1000, lastLatLon = Some (Num 0, Num (- 170)), tries = 14\<rparr>"
  by (simp add: pureSearch.simps searchBody_def initialSearch_def driftLongitude_def
      crossesAntemeridian_def maxTries_def jsub_def)

lemma drift_last_1:
  "issLast driftLongitude None (Num 1000) = (Num 1000, Some (Times [Num 1000]))"
  by (simp add: issLast_def cachedLookup_def issSearch_def drift_search_1 maxTries_def)

lemma drift_search_2:
  "tries (pureSearch driftLongitude (now env2026) (initialSearch (Num (- 9000)))) = Suc maxTries"
proof -
  have "tries (pureSearch driftLongitude (now env2026) (initialSearch (Num (- 9000)))) = Suc maxTries
        \<and> step (pureSearch driftLongitude (now env2026) (initialSearch (Num (- 9000))))
            = step (initialSearch (Num (- 9000)))"
    by (rule pureSearch_cap [where T = "- 9000" and L = "Num 170" and x = "- 9000"])
       (simp_all add: initialSearch_def maxTries_def driftLongitude_def)
  then show ?thesis by simp
qed

lemma drift_last_2:
  "issLast driftLongitude (Some (Times [Num 1000])) (Num (- 9000)) = (Num (- 1), Some NoCrossing)"
  by (simp add: issLast_def cachedLookup_def issSearch_def drift_search_2 jsub_def)

lemma issLast_sentinel: "issLast f (Some NoCrossing) t = (Num (- 1), Some NoCrossing)"
  by (simp add: issLast_def cachedLookup_def)

text \<open>The tracks from the times \<open>-1\<close> and 1000 with the step 1000.\<close>

definition driftTrack1 :: "latlon list" where
  "driftTrack1 = [(Num 0, Num 170), (Num 0, Num 170), (Num 0, Num 170)]"

definition driftTrack2 :: "latlon list" where
  "driftTrack2 = [(Num 0, Num (- 170)), (Num 0, Num (- 170)), (Num 0, Num (- 170)),
                  (Num 0, Num (- 170)), (Num 0, Num (- 170))]"

lemma drift_track_1:
  "issOrbitTrack 10 driftLongitude Map.empty (Num (- 1)) (Some (Num 1000)) None =
     Some (driftTrack1, [(issKey, Fixed True 0, Some (Num 1000)) \<mapsto> driftTrack1])"
  by (simp add: track_eval driftLongitude_def driftTrack1_def)

lemma drift_track_2:
  "issOrbitTrack 10 driftLongitude [(issKey, Fixed True 0, Some (Num 1000)) \<mapsto> driftTrack1]
     (Num 1000) (Some (Num 1000)) None =
     Some (driftTrack2, [(issKey, Fixed True 0, Some (Num 1000)) \<mapsto> driftTrack1,
                         (issKey, Fixed False 0, Some (Num 1000)) \<mapsto> driftTrack2])"
  by (simp add: track_eval driftLongitude_def driftTrack2_def)

lemma drift_track_3:
  "issOrbitTrack 10 driftLongitude
     [(issKey, Fixed True 0, Some (Num 1000)) \<mapsto> driftTrack1,
      (issKey, Fixed False 0, Some (Num 1000)) \<mapsto> driftTrack2]
     (Num (- 1)) (Some (Num 1000)) None =
     Some (driftTrack1, [(issKey, Fixed True 0, Some (Num 1000)) \<mapsto> driftTrack1,
                         (issKey, Fixed False 0, Some (Num 1000)) \<mapsto> driftTrack2])"
  by (simp add: issOrbitTrack_def)

lemma drift_three:
  "issThreeTracks 10 driftLongitude (Some (Times [Num 1000])) Map.empty (Some (Num 1000)) (Num 1000) =
     Some ([driftTrack1, driftTrack2, driftTrack1], Some NoCrossing,
           [(issKey, Fixed True 0, Some (Num 1000)) \<mapsto> driftTrack1,
            (issKey, Fixed False 0, Some (Num 1000)) \<mapsto> driftTrack2])"
proof -
  have a: "jsub (Num 1000) (Num 10000) = Num (- 9000)" by (simp add: jsub_def)
  show ?thesis
    unfolding issThreeTracks_def a drift_last_2 fst_conv snd_conv issLast_sentinel
    by (simp add: drift_track_1 drift_track_2 drift_track_3)
qed

lemma drift_ground_1:
  "issGroundTrack 10 driftLongitude None Map.empty Map.empty (Some (Num 1000)) (Num 1000) =
     Some ([driftTrack1, driftTrack2, driftTrack1], Some NoCrossing,
           [(issKey, Fixed True 0, Some (Num 1000)) \<mapsto> driftTrack1,
            (issKey, Fixed False 0, Some (Num 1000)) \<mapsto> driftTrack2],
           [(take 30 issLine2, Some (Num 1000), Fixed False 1)
              \<mapsto> [driftTrack1, driftTrack2, driftTrack1]])"
  unfolding issGroundTrack_def drift_last_1 fst_conv snd_conv
  by (simp add: issGroundKey_def strictEq_def drift_three)

lemma drift_ground_2:
  "issGroundTrack 10 driftLongitude (Some NoCrossing)
     [(issKey, Fixed True 0, Some (Num 1000)) \<mapsto> driftTrack1,
      (issKey, Fixed False 0, Some (Num 1000)) \<mapsto> driftTrack2]
     [(take 30 issLine2, Some (Num 1000), Fixed False 1)
        \<mapsto> [driftTrack1, driftTrack2, driftTrack1]]
     (Some (Num 1000)) (Num 1000) =
     Some ([driftTrack1, driftTrack2, driftTrack1], Some NoCrossing,
           [(issKey, Fixed True 0, Some (Num 1000)) \<mapsto> driftTrack1,
            (issKey, Fixed False 0, Some (Num 1000)) \<mapsto> driftTrack2],
           [(take 30 issLine2, Some (Num 1000), Fixed False 1)
              \<mapsto> [driftTrack1, driftTrack2, driftTrack1]])"
  unfolding issGroundTrack_def issLast_sentinel fst_conv snd_conv
  by (simp add: issGroundKey_def strictEq_def)

lemma const_track:
  "\<exists>t. issOrbitTrack 150 (\<lambda>t. Num 10) Map.empty (Num 1000) (Some (Num 600000)) (Some (Num 86400000))
       = Some (t, [(issKey, Fixed False 0, Some (Num 600000)) \<mapsto> t]) \<and> length t = 145"
  by (simp add: track_eval)

section \<open>A track with no time budget may never end\<close>

text \<open>
  With \<open>maxTimeMS = false\<close> only a crossing seen at the step 500 ends the loop of
  \<open>getOrbitTrack\<close>. \<open>divergeInv\<close> describes the states of that loop, on the ISS lines under
  \<open>envLongitude f\<close>, from which no crossing is ever seen: the time is at least \<open>X\<close>, from
  where on the longitude is always \<open>L\<close>.
\<close>

definition divergeInv ::
  "(num \<Rightarrow> num) \<Rightarrow> real \<Rightarrow> num \<Rightarrow> env \<Rightarrow> string list \<Rightarrow> num option \<Rightarrow> num \<Rightarrow> latlon option \<Rightarrow> num
     \<Rightarrow> cache \<Rightarrow> bool" where
  "divergeInv f X L e a mx cur lastSeen stp c =
     (e = envLongitude f \<and> a = issArr \<and> mx = None \<and> issCacheOk f c
      \<and> (\<exists>y. cur = Num y \<and> X \<le> y) \<and> (\<exists>s. stp = Num s \<and> 0 \<le> s)
      \<and> (lastSeen = None \<or> (\<exists>la. lastSeen = Some (la, L))))"

lemma divergeInv_step:
  assumes "0 < X" and "\<forall>x \<ge> X. f (Num x) = L" and "divergeInv f X L e a mx cur lastSeen stp c"
  shows "\<exists>c1. getLatLonArr e c (InArr a) (Some cur) = Inr ((Num 0, L), c1)
           \<and> \<not> crossesAntemeridian (map_option snd lastSeen) (Some L)
           \<and> \<not> overBudget mx (jadd cur stp) st
           \<and> divergeInv f X L e a mx (jadd cur stp) (Some (Num 0, L)) stp c1"
proof -
  from assms(3) obtain y s where
    e: "e = envLongitude f" and a: "a = issArr" and mx: "mx = None" and ok: "issCacheOk f c"
    and cur: "cur = Num y" and y: "X \<le> y" and stp: "stp = Num s" and s: "0 \<le> s"
    and last: "lastSeen = None \<or> (\<exists>la. lastSeen = Some (la, L))"
    unfolding divergeInv_def by blast
  from y assms(1) have "truthy cur" by (simp add: cur)
  moreover from y assms(2) have "f cur = L" by (simp add: cur)
  ultimately have "f (if truthy cur then cur else now env2026) = L" by simp
  with iss_sample [OF ok, of cur] obtain c1 where
    smp: "getLatLonArr (envLongitude f) c (InArr issArr) (Some cur) = Inr ((Num 0, L), c1)"
    and ok1: "issCacheOk f c1" by auto
  have nc: "\<not> crossesAntemeridian (map_option snd lastSeen) (Some L)"
    using last by (auto simp: crossesAntemeridian_def)
  have "divergeInv f X L e a mx (jadd cur stp) (Some (Num 0, L)) stp c1"
    unfolding divergeInv_def using e a mx ok1 y s by (simp add: cur stp)
  with smp nc show ?thesis by (simp add: e a mx overBudget_def)
qed

lemma trackLoop_diverges_aux:
  assumes X: "0 < X" and f: "\<forall>x \<ge> X. f (Num x) = L"
    and run: "trackLoop e a st mx ll cur lastSeen stp c = Some r"
  shows "\<not> divergeInv f X L e a mx cur lastSeen stp c"
proof (rule trackLoop.raw_induct
    [where P = "\<lambda>e a st mx ll cur lastSeen stp c r. \<not> divergeInv f X L e a mx cur lastSeen stp c",
     OF _ run])
  fix loop e a st mx ll cur lastSeen stp c r
  assume IH: "\<And>e' a' st' mx' ll' cur' lastSeen' stp' c' r'.
                loop e' a' st' mx' ll' cur' lastSeen' stp' c' = Some r' \<Longrightarrow>
                \<not> divergeInv f X L e' a' mx' cur' lastSeen' stp' c'"
    and body: "(case getLatLonArr e c (InArr a) (Some cur) of
      Inl err \<Rightarrow> Some (Inl err)
      | Inr (curLatLon, c') \<Rightarrow>
          if crossesAntemeridian (map_option snd lastSeen) (Some (snd curLatLon))
          then if strictEq stp (Num 500) \<or> overBudget mx (jsub cur stp) st
               then Some (Inr (ll, c'))
               else loop e a st mx ll (jsub cur stp) lastSeen (Num 500) c'
          else if overBudget mx (jadd cur stp) st
               then Some (Inr (ll @ [curLatLon], c'))
               else loop e a st mx (ll @ [curLatLon]) (jadd cur stp) (Some curLatLon) stp c')
      = Some r"
  show "\<not> divergeInv f X L e a mx cur lastSeen stp c"
  proof
    assume inv: "divergeInv f X L e a mx cur lastSeen stp c"
    from divergeInv_step [OF X f inv, of st] obtain c1 where
      smp: "getLatLonArr e c (InArr a) (Some cur) = Inr ((Num 0, L), c1)"
      and nc: "\<not> crossesAntemeridian (map_option snd lastSeen) (Some L)"
      and nb: "\<not> overBudget mx (jadd cur stp) st"
      and inv1: "divergeInv f X L e a mx (jadd cur stp) (Some (Num 0, L)) stp c1" by blast
    from body have "loop e a st mx (ll @ [(Num 0, L)]) (jadd cur stp) (Some (Num 0, L)) stp c1
                      = Some r"
      by (simp add: smp nc nb)
    from IH [OF this] inv1 show False ..
  qed
qed

lemma trackLoop_diverges:
  assumes "0 < X" and "\<forall>x \<ge> X. f (Num x) = L" and "issCacheOk f c" and "X \<le> y" and "0 \<le> s"
    and "lastSeen = None \<or> (\<exists>la. lastSeen = Some (la, L))"
  shows "trackLoop (envLongitude f) issArr st None ll (Num y) lastSeen (Num s) c = None"
proof (cases "trackLoop (envLongitude f) issArr st None ll (Num y) lastSeen (Num s) c")
  case None
  then show ?thesis .
next
  case (Some r)
  have "divergeInv f X L (envLongitude f) issArr None (Num y) lastSeen (Num s) c"
    unfolding divergeInv_def using assms(3-6) by simp
  with trackLoop_diverges_aux [OF assms(1,2) Some] show ?thesis ..
qed

lemma iss_getOrbitTrack_diverges:
  assumes "issState f c A K G" and "0 < X" and "\<forall>x \<ge> X. f (Num x) = L" and "X \<le> y"
    and "K (issKey, toFixed (jdiv (Num y) (Num 10000)), Some (Num s)) = None" and "0 < s"
  shows "getOrbitTrack (envLongitude f) c issArr (Num y) (Some (Num s)) None = None"
proof -
  from assms(1) have ok: "issCacheOk f c" and K: "orbitTrackCache c = K"
    by (simp_all add: issState_def)
  from assms(2,4) have y: "y \<noteq> 0" by simp
  from assms(6) have s: "orDefault (Some (Num s)) (Num (1000 * 60 * 1)) = Num s" "0 \<le> s"
    by (simp_all add: orDefault_def)
  from trackLoop_diverges [OF assms(2,3) ok assms(4) s(2), of None "Num y" "[]"]
  have "trackLoop (envLongitude f) issArr (Num y) None [] (Num y) None (Num s) c = None"
    by simp
  then show ?thesis
    unfolding getOrbitTrack_def s(1) Let_def
    using y assms(5) K by (simp add: bindO_def)
qed

lemma iss_threeTracks_unfold:
  assumes "issState f c A K G"
  shows "\<exists>c2. issState f c2
                (snd (issLast f (snd (issLast f A (jsub cur (Num 10000))))
                        (jadd (jadd cur issOrbitTimeMS) (Num (1000 * 60 * 30))))) K G
            \<and> threeTracks (envLongitude f) c (InArr issArr) issRec stepMS issOrbitTimeMS cur =
                bindO (getOrbitTrack (envLongitude f) c2 issArr
                         (fst (issLast f A (jsub cur (Num 10000)))) stepMS None)
                  (\<lambda>(track1, c3).
                bindO (getOrbitTrack (envLongitude f) c3 issArr cur stepMS None) (\<lambda>(track2, c4).
                bindO (getOrbitTrack (envLongitude f) c4 issArr
                         (fst (issLast f (snd (issLast f A (jsub cur (Num 10000))))
                                 (jadd (jadd cur issOrbitTimeMS) (Num (1000 * 60 * 30)))))
                         stepMS None) (\<lambda>(track3, c5).
                  Some (Inr ([track1, track2, track3], c5)))))"
proof -
  define l where "l = issLast f A (jsub cur (Num 10000))"
  define tn where "tn = jadd (jadd cur issOrbitTimeMS) (Num (1000 * 60 * 30))"
  define nx where "nx = issLast f (snd l) tn"
  from iss_getLast [OF assms, of "InArr issArr" "jsub cur (Num 10000)"] obtain c1 where
    g1: "getLastAntemeridianCrossingTimeMS (envLongitude f) c (InArr issArr) (jsub cur (Num 10000))
           = Inr (fst l, c1)" and s1: "issState f c1 (snd l) K G"
    unfolding l_def by blast
  from iss_getLast [OF s1, of "InArr issArr" tn] obtain c2 where
    g2: "getLastAntemeridianCrossingTimeMS (envLongitude f) c1 (InArr issArr) tn
           = Inr (fst nx, c2)"
    and s2: "issState f c2 (snd nx) K G"
    unfolding nx_def by blast
  have "threeTracks (envLongitude f) c (InArr issArr) issRec stepMS issOrbitTimeMS cur =
          bindO (getOrbitTrack (envLongitude f) c2 issArr (fst l) stepMS None) (\<lambda>(track1, c3).
          bindO (getOrbitTrack (envLongitude f) c3 issArr cur stepMS None) (\<lambda>(track2, c4).
          bindO (getOrbitTrack (envLongitude f) c4 issArr (fst nx) stepMS None) (\<lambda>(track3, c5).
            Some (Inr ([track1, track2, track3], c5)))))"
    unfolding threeTracks_def tn_def [symmetric]
    by (simp add: bindO_def g1 g2)
  with s2 show ?thesis
    unfolding l_def [symmetric] tn_def [symmetric] nx_def [symmetric] by blast
qed

lemma iss_ground_unfold:
  assumes "issState f c A K G"
    and "G (issGroundKey stepMS (orDefault optionalTimeMS (now env2026))
             (fst (issLast f A (orDefault optionalTimeMS (now env2026))))) = None"
    and "\<not> strictEq (fst (issLast f A (orDefault optionalTimeMS (now env2026)))) (Num (- 1))"
  shows "\<exists>c3. issState f c3 (snd (issLast f A (orDefault optionalTimeMS (now env2026)))) K G
            \<and> getGroundTrackLatLng (envLongitude f) c (InArr issArr) stepMS optionalTimeMS =
                bindO (threeTracks (envLongitude f) c3 (InArr issArr) issRec stepMS issOrbitTimeMS
                         (fst (issLast f A (orDefault optionalTimeMS (now env2026)))))
                  (\<lambda>(orbitLatLons, c4).
                     Some (Inr (orbitLatLons,
                                c4\<lparr>groundTrackCache :=
                                     (groundTrackCache c4)
                                       (issGroundKey stepMS (orDefault optionalTimeMS (now env2026))
                                          (fst (issLast f A (orDefault optionalTimeMS (now env2026))))
                                        \<mapsto> orbitLatLons)\<rparr>)))"
proof -
  define timeMS where "timeMS = orDefault optionalTimeMS (now env2026)"
  define cur where "cur = fst (issLast f A timeMS)"
  define key where "key = issGroundKey stepMS timeMS cur"
  have nw: "orDefault optionalTimeMS (now (envLongitude f)) = timeMS"
    by (simp add: envLongitude_def timeMS_def)
  from iss_parse_state [OF assms(1), of "InArr issArr"] obtain c1 where
    p: "parseTLE c (InArr issArr) = Inr (issRec, c1)" and s1: "issState f c1 A K G" by blast
  from iss_getOrbitTimeMS [OF s1] obtain c2 where
    o: "getOrbitTimeMS c1 (InArr issArr) = Inr (issOrbitTimeMS, c2)"
    and s2: "issState f c2 A K G" by blast
  from iss_getLast [OF s2, of "InRec issRec" timeMS] obtain c3 where
    g: "getLastAntemeridianCrossingTimeMS (envLongitude f) c2 (InRec issRec) timeMS
          = Inr (cur, c3)" and s3: "issState f c3 (snd (issLast f A timeMS)) K G"
    unfolding cur_def by blast
  have k: "groundTrackKey issRec stepMS timeMS cur = key"
    by (simp add: groundTrackKey_def key_def issGroundKey_def)
  from s3 have G3: "groundTrackCache c3 = G" by (simp add: issState_def)
  from assms(2,3) have fresh: "G key = None" and found: "\<not> strictEq cur (Num (- 1))"
    unfolding timeMS_def [symmetric] cur_def [symmetric] key_def [symmetric] by simp_all
  have "getGroundTrackLatLng (envLongitude f) c (InArr issArr) stepMS optionalTimeMS =
          bindO (threeTracks (envLongitude f) c3 (InArr issArr) issRec stepMS issOrbitTimeMS cur)
            (\<lambda>(orbitLatLons, c4).
               Some (Inr (orbitLatLons,
                          c4\<lparr>groundTrackCache := (groundTrackCache c4)(key \<mapsto> orbitLatLons)\<rparr>)))"
    unfolding getGroundTrackLatLng_def nw Let_def
    by (simp add: p o g k G3 bindO_def fresh found)
  with s3 show ?thesis
    unfolding timeMS_def [symmetric] cur_def [symmetric] key_def [symmetric] by blast
qed

text \<open>
  A satellite that goes over the antemeridian once, at 600 ms, from 170 to \<open>-170\<close> degrees,
  and stays there.
\<close>

definition onceLongitude :: "num \<Rightarrow> num" where
  "onceLongitude t = (case t of Num x \<Rightarrow> if x < 600 then Num 170 else Num (- 170) | _ \<Rightarrow> Num 170)"

lemma once_last_1:
  "issLast onceLongitude None (Num 1000) = (Num 1000, Some (Times [Num 1000]))"
proof -
  have "pureSearch onceLongitude (now env2026) (initialSearch (Num 1000)) =
     \<lparr>step = 625 / 2, curTimeMS = Num 1000, lastLatLon = Some (Num 0, Num (- 170)), tries = 14\<rparr>"
    by (simp add: pureSearch.simps searchBody_def initialSearch_def onceLongitude_def
        crossesAntemeridian_def maxTries_def jsub_def)
  then show ?thesis
    by (simp add: issLast_def cachedLookup_def issSearch_def maxTries_def)
qed

lemma once_last_2:
  "issLast onceLongitude (Some (Times [Num 1000])) (Num (- 9000)) = (Num (- 1), Some NoCrossing)"
proof -
  have "tries (pureSearch onceLongitude (now env2026) (initialSearch (Num (- 9000)))) = Suc maxTries
        \<and> step (pureSearch onceLongitude (now env2026) (initialSearch (Num (- 9000))))
            = step (initialSearch (Num (- 9000)))"
    by (rule pureSearch_cap [where T = "- 9000" and L = "Num 170" and x = "- 9000"])
       (simp_all add: initialSearch_def maxTries_def onceLongitude_def)
  then show ?thesis
    by (simp add: issLast_def cachedLookup_def issSearch_def jsub_def)
qed

lemma once_track_1:
  "issOrbitTrack 10 onceLongitude Map.empty (Num (- 1)) (Some (Num 1000)) None =
     Some (driftTrack1, [(issKey, Fixed True 0, Some (Num 1000)) \<mapsto> driftTrack1])"
  by (simp add: track_eval onceLongitude_def driftTrack1_def)

section \<open>A track with a time budget ends\<close>

text \<open>
  With a budget \<open>b\<close> that is not zero, a finite start time and a positive step, every pass
  either ends the loop, or moves the time forward by the step, or (once) replaces the
  step by 500: the loop returns or passes on an exception of the sampler, for every
  environment, cache and TLE. The times are the exact reals of \<open>trackLoop\<close>; for the code
  this is the loop's behaviour where its sums are exact, see the remark at \<open>trackLoop\<close>.
\<close>

lemma nat_ceiling_pred: "1 \<le> (q::real) \<Longrightarrow> nat \<lceil>q - 1\<rceil> < nat \<lceil>q\<rceil>"
proof -
  assume "1 \<le> q"
  then have "1 \<le> \<lceil>q\<rceil>" by linarith
  moreover have "\<lceil>q - 1\<rceil> = \<lceil>q\<rceil> - 1" by simp
  ultimately show ?thesis by simp
qed

lemma trackLoop_fine_returns:
  "b \<noteq> 0 \<Longrightarrow> 0 \<le> x + b - y \<Longrightarrow>
     \<exists>r. trackLoop e a (Num x) (Some (Num b)) ll (Num y) lastSeen (Num 500) c = Some r"
proof (induction "nat \<lceil>(x + b - y) / 500\<rceil>" arbitrary: y ll lastSeen c rule: less_induct)
  case less
  show ?case
  proof (cases "getLatLonArr e c (InArr a) (Some (Num y))")
    case (Inl err)
    then show ?thesis by (subst trackLoop.simps) simp
  next
    case (Inr r)
    obtain curLatLon c1 where r: "r = (curLatLon, c1)" by (cases r)
    show ?thesis
    proof (cases "crossesAntemeridian (map_option snd lastSeen) (Some (snd curLatLon))")
      case True
      with Inr r show ?thesis by (subst trackLoop.simps) (simp add: strictEq_def)
    next
      case False
      show ?thesis
      proof (cases "overBudget (Some (Num b)) (jadd (Num y) (Num 500)) (Num x)")
        case True
        with Inr r False show ?thesis by (subst trackLoop.simps) simp
      next
        case nb: False
        with less.prems(1) have le: "y + 500 - x \<le> b" by (simp add: overBudget_def jsub_def)
        have eq: "(x + b - (y + 500)) / 500 = (x + b - y) / 500 - 1" by (simp add: field_simps)
        from le have "1 \<le> (x + b - y) / 500" by (simp add: field_simps)
        then have m: "nat \<lceil>(x + b - (y + 500)) / 500\<rceil> < nat \<lceil>(x + b - y) / 500\<rceil>"
          unfolding eq by (rule nat_ceiling_pred)
        from le have "0 \<le> x + b - (y + 500)" by simp
        from less.hyps [OF m less.prems(1) this] obtain r' where
          "trackLoop e a (Num x) (Some (Num b)) (ll @ [curLatLon]) (Num (y + 500))
             (Some curLatLon) (Num 500) c1 = Some r'" by blast
        with Inr r False nb show ?thesis by (subst trackLoop.simps) simp
      qed
    qed
  qed
qed

lemma trackLoop_budget_returns:
  "0 < s \<Longrightarrow> b \<noteq> 0 \<Longrightarrow> 0 \<le> x + b - y \<Longrightarrow>
     \<exists>r. trackLoop e a (Num x) (Some (Num b)) ll (Num y) lastSeen (Num s) c = Some r"
proof (induction "nat \<lceil>(x + b - y) / s\<rceil>" arbitrary: y ll lastSeen c rule: less_induct)
  case less
  show ?case
  proof (cases "getLatLonArr e c (InArr a) (Some (Num y))")
    case (Inl err)
    then show ?thesis by (subst trackLoop.simps) simp
  next
    case (Inr r)
    obtain curLatLon c1 where r: "r = (curLatLon, c1)" by (cases r)
    show ?thesis
    proof (cases "crossesAntemeridian (map_option snd lastSeen) (Some (snd curLatLon))")
      case True
      show ?thesis
      proof (cases "strictEq (Num s) (Num 500)
                    \<or> overBudget (Some (Num b)) (jsub (Num y) (Num s)) (Num x)")
        case fin: True
        with Inr r True show ?thesis by (subst trackLoop.simps) simp
      next
        case go: False
        from less.prems have "0 \<le> x + b - (y - s)" by simp
        from trackLoop_fine_returns [OF less.prems(2) this] obtain r' where
          "trackLoop e a (Num x) (Some (Num b)) ll (Num (y - s)) lastSeen (Num 500) c1 = Some r'"
          by blast
        with Inr r True go show ?thesis by (subst trackLoop.simps) (simp add: jsub_def)
      qed
    next
      case False
      show ?thesis
      proof (cases "overBudget (Some (Num b)) (jadd (Num y) (Num s)) (Num x)")
        case True
        with Inr r False show ?thesis by (subst trackLoop.simps) simp
      next
        case nb: False
        with less.prems(2) have le: "y + s - x \<le> b" by (simp add: overBudget_def jsub_def)
        have eq: "(x + b - (y + s)) / s = (x + b - y) / s - 1"
          using less.prems(1) by (simp add: field_simps)
        from le less.prems(1) have "1 \<le> (x + b - y) / s" by (simp add: field_simps)
        then have m: "nat \<lceil>(x + b - (y + s)) / s\<rceil> < nat \<lceil>(x + b - y) / s\<rceil>"
          unfolding eq by (rule nat_ceiling_pred)
        from le have "0 \<le> x + b - (y + s)" by simp
        from less.hyps [OF m less.prems(1,2) this] obtain r' where
          "trackLoop e a (Num x) (Some (Num b)) (ll @ [curLatLon]) (Num (y + s))
             (Some curLatLon) (Num s) c1 = Some r'" by blast
        with Inr r False nb show ?thesis by (subst trackLoop.simps) simp
      qed
    qed
  qed
qed

lemma getOrbitTrack_budget_returns:
  assumes "0 < s" and "0 < b"
  shows "\<exists>r. getOrbitTrack e c a (Num x) (Some (Num s)) (Some (Num b)) = Some r"
proof (cases "truthy (Num x) \<and> orbitTrackCache c
                (take 30 (concat a), toFixed (jdiv (Num x) (Num 10000)), Some (Num s)) = None")
  case False
  then show ?thesis by (auto simp: getOrbitTrack_def Let_def split: option.splits)
next
  case True
  from assms have s: "orDefault (Some (Num s)) (Num (1000 * 60 * 1)) = Num s"
    by (simp add: orDefault_def)
  from assms have "b \<noteq> 0" "0 \<le> x + b - x" by simp_all
  from trackLoop_budget_returns [OF assms(1) this] obtain r where
    "trackLoop e a (Num x) (Some (Num b)) [] (Num x) None (Num s) c = Some r" by blast
  with True show ?thesis
    unfolding getOrbitTrack_def s Let_def
    by (cases r) (auto simp: bindO_def)
qed

section \<open>What a ground track is made of\<close>

text \<open>
  A track that the loop of \<open>getOrbitTrack\<close> returns extends the positions collected so
  far; started with none and with no previous position, it begins with the position at
  the start time.
\<close>

lemma trackLoop_prefix:
  assumes run: "trackLoop e a st mx ll cur lastSeen stp c = Some r"
  shows "\<forall>t c'. r = Inr (t, c') \<longrightarrow> (\<exists>rest. t = ll @ rest)"
proof (rule trackLoop.raw_induct
    [where P = "\<lambda>e a st mx ll cur lastSeen stp c r.
                  \<forall>t c'. r = Inr (t, c') \<longrightarrow> (\<exists>rest. t = ll @ rest)",
     OF _ run])
  fix loop e a st mx ll cur lastSeen stp c r
  assume IH: "\<And>e' a' st' mx' ll' cur' lastSeen' stp' c' r'.
                loop e' a' st' mx' ll' cur' lastSeen' stp' c' = Some r' \<Longrightarrow>
                \<forall>t c'. r' = Inr (t, c') \<longrightarrow> (\<exists>rest. t = ll' @ rest)"
    and body: "(case getLatLonArr e c (InArr a) (Some cur) of
      Inl err \<Rightarrow> Some (Inl err)
      | Inr (curLatLon, c') \<Rightarrow>
          if crossesAntemeridian (map_option snd lastSeen) (Some (snd curLatLon))
          then if strictEq stp (Num 500) \<or> overBudget mx (jsub cur stp) st
               then Some (Inr (ll, c'))
               else loop e a st mx ll (jsub cur stp) lastSeen (Num 500) c'
          else if overBudget mx (jadd cur stp) st
               then Some (Inr (ll @ [curLatLon], c'))
               else loop e a st mx (ll @ [curLatLon]) (jadd cur stp) (Some curLatLon) stp c')
      = Some r"
  show "\<forall>t c'. r = Inr (t, c') \<longrightarrow> (\<exists>rest. t = ll @ rest)"
  proof (cases "getLatLonArr e c (InArr a) (Some cur)")
    case (Inl err)
    with body show ?thesis by auto
  next
    case (Inr pr)
    obtain p c1 where pr: "pr = (p, c1)" by (cases pr)
    show ?thesis
    proof (cases "crossesAntemeridian (map_option snd lastSeen) (Some (snd p))")
      case True
      show ?thesis
      proof (cases "strictEq stp (Num 500) \<or> overBudget mx (jsub cur stp) st")
        case fin: True
        with body Inr pr True show ?thesis by auto
      next
        case go: False
        with body Inr pr True
        have "loop e a st mx ll (jsub cur stp) lastSeen (Num 500) c1 = Some r" by simp
        from IH [OF this] show ?thesis .
      qed
    next
      case False
      show ?thesis
      proof (cases "overBudget mx (jadd cur stp) st")
        case fin: True
        with body Inr pr False show ?thesis by auto
      next
        case go: False
        with body Inr pr False
        have "loop e a st mx (ll @ [p]) (jadd cur stp) (Some p) stp c1 = Some r" by simp
        from IH [OF this] show ?thesis by auto
      qed
    qed
  qed
qed

lemma trackLoop_first:
  assumes run: "trackLoop e a st mx [] cur None stp c = Some (Inr (t, c'))"
  shows "\<exists>first c1 rest. getLatLonArr e c (InArr a) (Some cur) = Inr (first, c1)
                         \<and> t = first # rest"
proof (cases "getLatLonArr e c (InArr a) (Some cur)")
  case (Inl err)
  with run show ?thesis by (subst (asm) trackLoop.simps) simp
next
  case (Inr pr)
  obtain p c1 where pr: "pr = (p, c1)" by (cases pr)
  have nc: "\<not> crossesAntemeridian (map_option snd None) (Some (snd p))"
    by (simp add: crossesAntemeridian_def)
  show ?thesis
  proof (cases "overBudget mx (jadd cur stp) st")
    case True
    with run Inr pr nc show ?thesis by (subst (asm) trackLoop.simps) auto
  next
    case False
    with run Inr pr nc
    have "trackLoop e a st mx ([] @ [p]) (jadd cur stp) (Some p) stp c1 = Some (Inr (t, c'))"
      by (subst (asm) trackLoop.simps) simp
    from trackLoop_prefix [OF this] Inr pr show ?thesis by auto
  qed
qed

text \<open>
  C7 (as amended). For every TLE, step, query time, cache and environment in which the
  first steps of \<open>getGroundTrackLatLng\<close> succeed (the TLE parses, the orbit time is read,
  the crossing search returns) and no ground track is memoized under the key looked up
  (the first 30 characters of line 2, the step, and the time in seconds of the crossing
  found, or of the query when none was found):
  \<^item> when the search finds a crossing (a result other than \<open>-1\<close>) and the call returns, the
    result is exactly three tracks, in this order what \<open>getOrbitTrack\<close> returns, with the
    caller's step and no time budget, for the result of the search from 10 s before that
    crossing, for the crossing, and for the result of the search from the crossing plus
    one orbit time plus 30 minutes;
  \<^item> when the search reports \<open>-1\<close> and the call returns, the result is a single-element
    sequence holding what \<open>getOrbitTrack\<close> returns for the query time with the step
    600000 ms and the budget 86400000 ms;
  \<^item> that single track is the one the loop of \<open>getOrbitTrack\<close> builds from the query time
    with the step 600000 ms and the budget 86400000 ms, and its first position is the
    position of the satellite at the query time, when in addition no orbit track is
    memoized under the key of \<open>getOrbitTrack\<close> (the first 30 characters of the two lines
    joined, the query time in units of 10 s, rounded, and the step 600000);
  \<^item> when an orbit track is memoized under that key, the search reports \<open>-1\<close> and the TLE
    has two lines, the call returns that memoized track as the single element, whatever
    time it was built from;
  \<^item> when the search reports \<open>-1\<close> and the query time is a whole number of milliseconds
    of magnitude at most 8640000000000000 (the range of a JavaScript date, where every
    time the loop computes is an integer that binary64 represents), the call does return
    or raise: the loop of that track ends.
  In the first case the call need not return, see \<open>getGroundTrackLatLng_never_returns\<close>
  below.
\<close>

theorem getGroundTrackLatLng_tracks:
  assumes p: "parseTLE c tle = Inr (p, c1)"
    and o: "getOrbitTimeMS c1 tle = Inr (orbitTimeMS, c2)"
    and g: "getLastAntemeridianCrossingTimeMS e c2 (InRec p) (orDefault optionalTimeMS (now e))
              = Inr (cur, c3)"
    and fresh: "groundTrackCache c3 (groundTrackKey p stepMS (orDefault optionalTimeMS (now e)) cur)
                  = None"
  shows "(cur \<noteq> Num (- 1)
            \<and> getGroundTrackLatLng e c tle stepMS optionalTimeMS = Some (Inr (tracks, c')) \<longrightarrow>
            (\<exists>prev ca nxt cb t1 cc t2 cd t3 ce.
               getLastAntemeridianCrossingTimeMS e c3 tle (jsub cur (Num 10000)) = Inr (prev, ca)
               \<and> getLastAntemeridianCrossingTimeMS e ca tle
                    (jadd (jadd cur orbitTimeMS) (Num 1800000)) = Inr (nxt, cb)
               \<and> getOrbitTrack e cb (arr p) prev stepMS None = Some (Inr (t1, cc))
               \<and> getOrbitTrack e cc (arr p) cur stepMS None = Some (Inr (t2, cd))
               \<and> getOrbitTrack e cd (arr p) nxt stepMS None = Some (Inr (t3, ce))
               \<and> tracks = [t1, t2, t3]))
         \<and> (cur = Num (- 1)
            \<and> getGroundTrackLatLng e c tle stepMS optionalTimeMS = Some (Inr (tracks, c')) \<longrightarrow>
            (\<exists>t ca. getOrbitTrack e c3 (arr p) (orDefault optionalTimeMS (now e))
                       (Some (Num 600000)) (Some (Num 86400000)) = Some (Inr (t, ca))
                    \<and> tracks = [t]))
         \<and> (cur = Num (- 1)
            \<and> getGroundTrackLatLng e c tle stepMS optionalTimeMS = Some (Inr (tracks, c'))
            \<and> truthy (orDefault optionalTimeMS (now e))
            \<and> orbitTrackCache c3
                 (take 30 (concat (arr p)),
                  toFixed (jdiv (orDefault optionalTimeMS (now e)) (Num 10000)),
                  Some (Num 600000)) = None \<longrightarrow>
            (\<exists>t ca first cb rest.
               trackLoop e (arr p) (orDefault optionalTimeMS (now e)) (Some (Num 86400000)) []
                 (orDefault optionalTimeMS (now e)) None (Num 600000) c3 = Some (Inr (t, ca))
               \<and> getLatLonArr e c3 (InArr (arr p)) (Some (orDefault optionalTimeMS (now e)))
                   = Inr (first, cb)
               \<and> t = first # rest
               \<and> tracks = [t]))
         \<and> (cur = Num (- 1)
            \<and> 2 \<le> length (arr p)
            \<and> truthy (orDefault optionalTimeMS (now e))
            \<and> orbitTrackCache c3
                 (take 30 (concat (arr p)),
                  toFixed (jdiv (orDefault optionalTimeMS (now e)) (Num 10000)),
                  Some (Num 600000)) = Some memoized \<longrightarrow>
            (\<exists>ca. getGroundTrackLatLng e c tle stepMS optionalTimeMS
                     = Some (Inr ([memoized], ca))))
         \<and> (cur = Num (- 1)
            \<and> orDefault optionalTimeMS (now e) = Num (of_int k)
            \<and> \<bar>k\<bar> \<le> 8640000000000000 \<longrightarrow>
            (\<exists>r. getGroundTrackLatLng e c tle stepMS optionalTimeMS = Some r))"
proof -
  define timeMS where "timeMS = orDefault optionalTimeMS (now e)"
  define key where "key = groundTrackKey p stepMS timeMS cur"
  define okey where
    "okey = (take 30 (concat (arr p)), toFixed (jdiv timeMS (Num 10000)), Some (Num 600000))"
  have found: "strictEq cur (Num (- 1)) \<longleftrightarrow> cur = Num (- 1)"
    by (auto simp: strictEq_def)
  have stp: "orDefault (Some (Num 600000)) (Num (1000 * 60 * 1)) = Num 600000"
    by (simp add: orDefault_def)
  have unf: "getGroundTrackLatLng e c tle stepMS optionalTimeMS =
     (if length (arr p) < 2 then Some (Inl TypeError)
      else if cur \<noteq> Num (- 1)
      then bindO (threeTracks e c3 tle p stepMS orbitTimeMS cur)
             (\<lambda>(orbitLatLons, c4).
                Some (Inr (orbitLatLons,
                           c4\<lparr>groundTrackCache := (groundTrackCache c4)(key \<mapsto> orbitLatLons)\<rparr>)))
      else bindO (getOrbitTrack e c3 (arr p) timeMS (Some (Num 600000)) (Some (Num 86400000)))
             (\<lambda>(track, c4).
                Some (Inr ([track],
                           c4\<lparr>groundTrackCache := (groundTrackCache c4)(key \<mapsto> [track])\<rparr>))))"
    using fresh [folded timeMS_def key_def] g [folded timeMS_def]
    unfolding getGroundTrackLatLng_def timeMS_def [symmetric] Let_def
    by (simp add: p o bindO_def key_def found)
  have single: "\<exists>t ca. getOrbitTrack e c3 (arr p) timeMS (Some (Num 600000)) (Some (Num 86400000))
                         = Some (Inr (t, ca)) \<and> tracks = [t]"
    if "cur = Num (- 1)"
      and "getGroundTrackLatLng e c tle stepMS optionalTimeMS = Some (Inr (tracks, c'))"
    using that unf
    by (auto simp: bindO_def split: option.splits sum.splits if_splits)
  show ?thesis
    unfolding timeMS_def [symmetric] okey_def [symmetric]
  proof (intro conjI impI)
    assume "cur \<noteq> Num (- 1)
            \<and> getGroundTrackLatLng e c tle stepMS optionalTimeMS = Some (Inr (tracks, c'))"
    with unf obtain c4 where
      "threeTracks e c3 tle p stepMS orbitTimeMS cur = Some (Inr (tracks, c4))"
      by (auto simp: bindO_def split: option.splits sum.splits if_splits)
    then show "\<exists>prev ca nxt cb t1 cc t2 cd t3 ce.
               getLastAntemeridianCrossingTimeMS e c3 tle (jsub cur (Num 10000)) = Inr (prev, ca)
               \<and> getLastAntemeridianCrossingTimeMS e ca tle
                    (jadd (jadd cur orbitTimeMS) (Num 1800000)) = Inr (nxt, cb)
               \<and> getOrbitTrack e cb (arr p) prev stepMS None = Some (Inr (t1, cc))
               \<and> getOrbitTrack e cc (arr p) cur stepMS None = Some (Inr (t2, cd))
               \<and> getOrbitTrack e cd (arr p) nxt stepMS None = Some (Inr (t3, ce))
               \<and> tracks = [t1, t2, t3]"
      unfolding threeTracks_def bindO_def
      by (auto split: option.splits sum.splits prod.splits)
  next
    assume "cur = Num (- 1)
            \<and> getGroundTrackLatLng e c tle stepMS optionalTimeMS = Some (Inr (tracks, c'))"
    with single show "\<exists>t ca. getOrbitTrack e c3 (arr p) timeMS
                       (Some (Num 600000)) (Some (Num 86400000)) = Some (Inr (t, ca))
                    \<and> tracks = [t]"
      by blast
  next
    assume a: "cur = Num (- 1)
            \<and> getGroundTrackLatLng e c tle stepMS optionalTimeMS = Some (Inr (tracks, c'))
            \<and> truthy timeMS \<and> orbitTrackCache c3 okey = None"
    with single obtain t ca where
      t: "getOrbitTrack e c3 (arr p) timeMS (Some (Num 600000)) (Some (Num 86400000))
            = Some (Inr (t, ca))" and tr: "tracks = [t]" by blast
    from t a obtain cl where
      run: "trackLoop e (arr p) timeMS (Some (Num 86400000)) [] timeMS None (Num 600000) c3
              = Some (Inr (t, cl))"
      unfolding getOrbitTrack_def Let_def okey_def [symmetric] stp
      by (auto simp: bindO_def split: option.splits sum.splits)
    from trackLoop_first [OF run] obtain first cb rest where
      "getLatLonArr e c3 (InArr (arr p)) (Some timeMS) = Inr (first, cb)" "t = first # rest"
      by blast
    with run tr show "\<exists>t ca first cb rest.
               trackLoop e (arr p) timeMS (Some (Num 86400000)) [] timeMS None (Num 600000) c3
                 = Some (Inr (t, ca))
               \<and> getLatLonArr e c3 (InArr (arr p)) (Some timeMS) = Inr (first, cb)
               \<and> t = first # rest
               \<and> tracks = [t]"
      by blast
  next
    assume a: "cur = Num (- 1) \<and> 2 \<le> length (arr p) \<and> truthy timeMS
               \<and> orbitTrackCache c3 okey = Some memoized"
    then have "getOrbitTrack e c3 (arr p) timeMS (Some (Num 600000)) (Some (Num 86400000))
                 = Some (Inr (memoized, c3))"
      unfolding getOrbitTrack_def Let_def okey_def [symmetric] by simp
    with a unf show "\<exists>ca. getGroundTrackLatLng e c tle stepMS optionalTimeMS
                          = Some (Inr ([memoized], ca))"
      by (simp add: bindO_def)
  next
    assume a: "cur = Num (- 1) \<and> timeMS = Num (of_int k) \<and> \<bar>k\<bar> \<le> 8640000000000000"
    from getOrbitTrack_budget_returns [of 600000 86400000 e c3 "arr p" "of_int k"] obtain r where
      "getOrbitTrack e c3 (arr p) (Num (of_int k)) (Some (Num 600000)) (Some (Num 86400000))
         = Some r"
      by auto
    with a unf show "\<exists>r. getGroundTrackLatLng e c tle stepMS optionalTimeMS = Some r"
      by (cases r) (auto simp: bindO_def)
  qed
qed

lemma const_last: "issLast (\<lambda>t. Num 10) None (Num 1000) = (Num (- 1), Some NoCrossing)"
proof -
  have "tries (pureSearch (\<lambda>t. Num 10) (now env2026) (initialSearch (Num 1000))) = Suc maxTries
        \<and> step (pureSearch (\<lambda>t. Num 10) (now env2026) (initialSearch (Num 1000)))
            = step (initialSearch (Num 1000))"
    by (rule pureSearch_cap [where T = 1000 and L = "Num 10" and x = 1000])
       (simp_all add: initialSearch_def maxTries_def)
  then show ?thesis by (simp add: issLast_def cachedLookup_def issSearch_def)
qed

text \<open>
  A satellite that stays at 10 degrees of longitude, except from 2000 ms to 4000 ms, when
  it is at 20 degrees. No search from the time 1000 finds a crossing, and the track from
  the time 1000 with the step 600000 and the budget 86400000 has 145 positions, all at 10
  degrees.
\<close>

definition blipLongitude :: "num \<Rightarrow> num" where
  "blipLongitude t =
     (case t of
        Num x \<Rightarrow> if 2000 \<le> x \<and> x < 4000 then Num 20 else Num 10
      | _ \<Rightarrow> Num 10)"

lemma blip_last: "issLast blipLongitude None (Num 1000) = (Num (- 1), Some NoCrossing)"
proof -
  have "tries (pureSearch blipLongitude (now env2026) (initialSearch (Num 1000))) = Suc maxTries
        \<and> step (pureSearch blipLongitude (now env2026) (initialSearch (Num 1000)))
            = step (initialSearch (Num 1000))"
    by (rule pureSearch_cap [where T = 1000 and L = "Num 10" and x = 1000])
       (simp_all add: initialSearch_def maxTries_def blipLongitude_def env2026_def)
  then show ?thesis by (simp add: issLast_def cachedLookup_def issSearch_def)
qed

lemma blip_track:
  "\<exists>t. issOrbitTrack 150 blipLongitude Map.empty (Num 1000) (Some (Num 600000))
         (Some (Num 86400000))
       = Some (t, [(issKey, Fixed False 0, Some (Num 600000)) \<mapsto> t])
       \<and> hd t = (Num 0, Num 10) \<and> length t = 145"
  by (simp add: track_eval blipLongitude_def)

lemma blip_two_calls:
  "\<exists>c1 tr ca cb cc cd c2.
     getGroundTrackLatLng (envLongitude blipLongitude) emptyCache (InArr issArr) None
       (Some (Num 1000)) = Some (Inr ([tr], c1))
     \<and> hd tr = (Num 0, Num 10) \<and> length tr = 145
     \<and> parseTLE c1 (InArr issArr) = Inr (issRec, ca)
     \<and> getOrbitTimeMS ca (InArr issArr) = Inr (issOrbitTimeMS, cb)
     \<and> getLastAntemeridianCrossingTimeMS (envLongitude blipLongitude) cb (InRec issRec) (Num 3000)
         = Inr (Num (- 1), cc)
     \<and> groundTrackCache cc (groundTrackKey issRec None (Num 3000) (Num (- 1))) = None
     \<and> orbitTrackCache cc
          (take 30 (concat issArr), toFixed (jdiv (Num 3000) (Num 10000)), Some (Num 600000))
         = Some tr
     \<and> getLatLonArr (envLongitude blipLongitude) cc (InArr issArr) (Some (Num 3000))
         = Inr ((Num 0, Num 20), cd)
     \<and> getGroundTrackLatLng (envLongitude blipLongitude) c1 (InArr issArr) None
          (Some (Num 3000)) = Some (Inr ([tr], c2))"
proof -
  define f where "f = blipLongitude"
  have st0: "issState f emptyCache None Map.empty Map.empty" by (rule issState_empty)
  have t: "orDefault (Some (Num 1000)) (now env2026) = Num 1000"
    "orDefault (Some (Num 3000)) (now env2026) = Num 3000"
    by (simp_all add: orDefault_def)
  from blip_track obtain tr where
    tr: "issOrbitTrack 150 f Map.empty (Num 1000) (Some (Num 600000)) (Some (Num 86400000))
           = Some (tr, [(issKey, Fixed False 0, Some (Num 600000)) \<mapsto> tr])"
    and hd: "hd tr = (Num 0, Num 10)" and len: "length tr = 145" unfolding f_def by blast
  define K where "K = [(issKey, Fixed False 0, Some (Num 600000)) \<mapsto> tr]"
  define G where "G = [(take 30 issLine2, None :: num option, Fixed False 1) \<mapsto> [tr]]"
  define G' where "G' = G((take 30 issLine2, None :: num option, Fixed False 3) \<mapsto> [tr])"
  have "issGroundTrack 150 f None Map.empty Map.empty None
          (orDefault (Some (Num 1000)) (now env2026))
        = Some ([tr], Some NoCrossing, K, G)"
    unfolding issGroundTrack_def t blip_last [folded f_def] fst_conv snd_conv K_def G_def
    by (simp add: issGroundKey_def strictEq_def tr)
  from iss_getGroundTrackLatLng [OF this st0] obtain c1 where
    r1: "getGroundTrackLatLng (envLongitude f) emptyCache (InArr issArr) None (Some (Num 1000))
           = Some (Inr ([tr], c1))"
    and s1: "issState f c1 (Some NoCrossing) K G" by blast
  from iss_parse_state [OF s1, of "InArr issArr"] obtain ca where
    p: "parseTLE c1 (InArr issArr) = Inr (issRec, ca)"
    and sa: "issState f ca (Some NoCrossing) K G" by blast
  from iss_getOrbitTimeMS [OF sa] obtain cb where
    o: "getOrbitTimeMS ca (InArr issArr) = Inr (issOrbitTimeMS, cb)"
    and sb: "issState f cb (Some NoCrossing) K G" by blast
  from iss_getLast [OF sb, of "InRec issRec" "Num 3000"] obtain cc where
    g: "getLastAntemeridianCrossingTimeMS (envLongitude f) cb (InRec issRec) (Num 3000)
          = Inr (Num (- 1), cc)"
    and sc: "issState f cc (Some NoCrossing) K G"
    by (auto simp: issLast_sentinel)
  from sc have fresh: "groundTrackCache cc (groundTrackKey issRec None (Num 3000) (Num (- 1)))
                         = None"
    by (simp add: issState_def G_def groundTrackKey_def issRec_def issArr_def strictEq_def)
  from sc have memo: "orbitTrackCache cc
      (take 30 (concat issArr), toFixed (jdiv (Num 3000) (Num 10000)), Some (Num 600000))
      = Some tr"
    by (simp add: issState_def K_def issKey_def issArr_def issLine1_def)
  from sc have "issCacheOk f cc" by (simp add: issState_def)
  from iss_sample [OF this, of "Num 3000"] obtain cd where
    smp: "getLatLonArr (envLongitude f) cc (InArr issArr) (Some (Num 3000))
            = Inr ((Num 0, Num 20), cd)"
    by (auto simp: f_def blipLongitude_def)
  have "issGroundTrack 150 f (Some NoCrossing) K G None
          (orDefault (Some (Num 3000)) (now env2026))
        = Some ([tr], Some NoCrossing, K, G')"
    unfolding issGroundTrack_def t issLast_sentinel fst_conv snd_conv K_def G_def G'_def
    by (simp add: issGroundKey_def strictEq_def issOrbitTrack_def)
  from iss_getGroundTrackLatLng [OF this s1] obtain c2 where
    r2: "getGroundTrackLatLng (envLongitude f) c1 (InArr issArr) None (Some (Num 3000))
           = Some (Inr ([tr], c2))" by blast
  from r1 hd len p o g fresh memo smp r2 show ?thesis
    unfolding f_def by blast
qed

text \<open>
  All cases occur. From the empty cache, the drifting satellite at the query time 1000
  with the step 1000 gives three tracks, and the satellite that stays at 10 degrees gives
  one track of 145 positions that begins with its position at the query time. For the
  satellite that is at 20 degrees from 2000 ms to 4000 ms only, the query at 3000 that
  follows the query at 1000 returns the track memoized by the first.
\<close>

theorem getGroundTrackLatLng_tracks_witness:
  "(\<exists>c'. getGroundTrackLatLng (envLongitude driftLongitude) emptyCache (InArr [issLine1, issLine2])
            (Some (Num 1000)) (Some (Num 1000))
          = Some (Inr ([driftTrack1, driftTrack2, driftTrack1], c')))
   \<and> (\<exists>t rest c'. getGroundTrackLatLng (envLongitude (\<lambda>t. Num 10)) emptyCache
                (InArr [issLine1, issLine2]) None (Some (Num 1000))
              = Some (Inr ([t], c')) \<and> length t = 145 \<and> t = (Num 0, Num 10) # rest)
   \<and> (\<exists>tr c1 c2. getGroundTrackLatLng (envLongitude blipLongitude) emptyCache
                (InArr [issLine1, issLine2]) None (Some (Num 1000))
              = Some (Inr ([tr], c1))
            \<and> getGroundTrackLatLng (envLongitude blipLongitude) c1
                (InArr [issLine1, issLine2]) None (Some (Num 3000))
              = Some (Inr ([tr], c2)))"
proof (intro conjI)
  define f where "f = driftLongitude"
  have st0: "issState f emptyCache None Map.empty Map.empty" by (rule issState_empty)
  have t: "orDefault (Some (Num 1000)) (now env2026) = Num 1000"
    "orDefault (Some (Num 1000)) (now (envLongitude f)) = Num 1000"
    by (simp_all add: orDefault_def)
  have "issGroundTrack 10 f None Map.empty Map.empty (Some (Num 1000))
          (orDefault (Some (Num 1000)) (now env2026)) =
     Some ([driftTrack1, driftTrack2, driftTrack1], Some NoCrossing,
           [(issKey, Fixed True 0, Some (Num 1000)) \<mapsto> driftTrack1,
            (issKey, Fixed False 0, Some (Num 1000)) \<mapsto> driftTrack2],
           [(take 30 issLine2, Some (Num 1000), Fixed False 1)
              \<mapsto> [driftTrack1, driftTrack2, driftTrack1]])"
    unfolding t f_def by (rule drift_ground_1)
  from iss_getGroundTrackLatLng [OF this st0] obtain c' where
    ret: "getGroundTrackLatLng (envLongitude f) emptyCache (InArr issArr) (Some (Num 1000))
            (Some (Num 1000)) = Some (Inr ([driftTrack1, driftTrack2, driftTrack1], c'))"
    unfolding t by blast
  from iss_parse_state [OF st0, of "InArr issArr"] obtain c1 where
    p: "parseTLE emptyCache (InArr issArr) = Inr (issRec, c1)"
    and s1: "issState f c1 None Map.empty Map.empty" by blast
  from iss_getOrbitTimeMS [OF s1] obtain c2 where
    o: "getOrbitTimeMS c1 (InArr issArr) = Inr (issOrbitTimeMS, c2)"
    and s2: "issState f c2 None Map.empty Map.empty" by blast
  from iss_getLast [OF s2, of "InRec issRec" "Num 1000"] obtain c3 where
    g: "getLastAntemeridianCrossingTimeMS (envLongitude f) c2 (InRec issRec)
          (orDefault (Some (Num 1000)) (now (envLongitude f))) = Inr (Num 1000, c3)"
    and s3: "issState f c3 (Some (Times [Num 1000])) Map.empty Map.empty"
    unfolding t by (auto simp: f_def drift_last_1)
  from s3 have fresh: "groundTrackCache c3
      (groundTrackKey issRec (Some (Num 1000)) (orDefault (Some (Num 1000)) (now (envLongitude f)))
         (Num 1000)) = None"
    by (simp add: issState_def)
  from getGroundTrackLatLng_tracks [OF p o g fresh,
      where tracks = "[driftTrack1, driftTrack2, driftTrack1]" and c' = c'] ret
  have "\<exists>t1 t2 t3. [driftTrack1, driftTrack2, driftTrack1] = [t1, t2, t3]" by auto
  with ret show "\<exists>c'. getGroundTrackLatLng (envLongitude driftLongitude) emptyCache
                   (InArr [issLine1, issLine2]) (Some (Num 1000)) (Some (Num 1000))
                 = Some (Inr ([driftTrack1, driftTrack2, driftTrack1], c'))"
    unfolding f_def issArr_def by blast
next
  define f where "f = (\<lambda>t::num. Num 10)"
  have st0: "issState f emptyCache None Map.empty Map.empty" by (rule issState_empty)
  have t: "orDefault (Some (Num 1000)) (now env2026) = Num 1000"
    "orDefault (Some (Num 1000)) (now (envLongitude f)) = Num 1000"
    by (simp_all add: orDefault_def)
  from const_track obtain tr where
    tr: "issOrbitTrack 150 f Map.empty (Num 1000) (Some (Num 600000)) (Some (Num 86400000))
           = Some (tr, [(issKey, Fixed False 0, Some (Num 600000)) \<mapsto> tr])"
    and len: "length tr = 145" unfolding f_def by blast
  have "issGroundTrack 150 f None Map.empty Map.empty None
          (orDefault (Some (Num 1000)) (now env2026))
        = Some ([tr], Some NoCrossing, [(issKey, Fixed False 0, Some (Num 600000)) \<mapsto> tr],
                [(take 30 issLine2, None, Fixed False 1) \<mapsto> [tr]])"
    unfolding issGroundTrack_def t const_last [folded f_def] fst_conv snd_conv
    by (simp add: issGroundKey_def strictEq_def tr)
  from iss_getGroundTrackLatLng [OF this st0] obtain c' where
    ret: "getGroundTrackLatLng (envLongitude f) emptyCache (InArr issArr) None (Some (Num 1000))
            = Some (Inr ([tr], c'))" by blast
  from iss_parse_state [OF st0, of "InArr issArr"] obtain c1 where
    p: "parseTLE emptyCache (InArr issArr) = Inr (issRec, c1)"
    and s1: "issState f c1 None Map.empty Map.empty" by blast
  from iss_getOrbitTimeMS [OF s1] obtain c2 where
    o: "getOrbitTimeMS c1 (InArr issArr) = Inr (issOrbitTimeMS, c2)"
    and s2: "issState f c2 None Map.empty Map.empty" by blast
  from iss_getLast [OF s2, of "InRec issRec" "Num 1000"] obtain c3 where
    g: "getLastAntemeridianCrossingTimeMS (envLongitude f) c2 (InRec issRec)
          (orDefault (Some (Num 1000)) (now (envLongitude f))) = Inr (Num (- 1), c3)"
    and s3: "issState f c3 (Some NoCrossing) Map.empty Map.empty"
    unfolding t by (auto simp: const_last [folded f_def])
  from s3 have fresh: "groundTrackCache c3
      (groundTrackKey issRec None (orDefault (Some (Num 1000)) (now (envLongitude f)))
         (Num (- 1))) = None"
    by (simp add: issState_def)
  from s3 have nomemo: "orbitTrackCache c3 = Map.empty" and ok3: "issCacheOk f c3"
    by (simp_all add: issState_def)
  from iss_sample [OF ok3, of "Num 1000"] obtain cs where
    smp: "getLatLonArr (envLongitude f) c3 (InArr issArr) (Some (Num 1000))
            = Inr ((Num 0, Num 10), cs)"
    by (auto simp: f_def)
  have arr: "arr issRec = issArr" by (simp add: issRec_def)
  from getGroundTrackLatLng_tracks [OF p o g fresh,
      where tracks = "[tr]" and c' = c' and k = 1000] ret nomemo smp
  have "(\<exists>rest. tr = (Num 0, Num 10) # rest)
        \<and> (\<exists>r. getGroundTrackLatLng (envLongitude f) emptyCache (InArr issArr) None
                   (Some (Num 1000)) = Some r)"
    unfolding t arr by auto
  with ret len show "\<exists>t rest c'. getGroundTrackLatLng (envLongitude (\<lambda>t. Num 10)) emptyCache
                (InArr [issLine1, issLine2]) None (Some (Num 1000))
              = Some (Inr ([t], c')) \<and> length t = 145 \<and> t = (Num 0, Num 10) # rest"
    unfolding f_def issArr_def by blast
next
  define e where "e = envLongitude blipLongitude"
  have t: "orDefault (Some (Num 3000)) (now e) = Num 3000"
    by (simp add: orDefault_def)
  have arr: "arr issRec = issArr" by (simp add: issRec_def)
  have len: "2 \<le> length issArr" by (simp add: issArr_def)
  from blip_two_calls obtain c1 tr ca cb cc where
    r1: "getGroundTrackLatLng e emptyCache (InArr issArr) None (Some (Num 1000))
           = Some (Inr ([tr], c1))"
    and p: "parseTLE c1 (InArr issArr) = Inr (issRec, ca)"
    and o: "getOrbitTimeMS ca (InArr issArr) = Inr (issOrbitTimeMS, cb)"
    and g: "getLastAntemeridianCrossingTimeMS e cb (InRec issRec)
              (orDefault (Some (Num 3000)) (now e)) = Inr (Num (- 1), cc)"
    and fresh: "groundTrackCache cc
                  (groundTrackKey issRec None (orDefault (Some (Num 3000)) (now e)) (Num (- 1)))
                  = None"
    and memo: "orbitTrackCache cc
          (take 30 (concat issArr), toFixed (jdiv (Num 3000) (Num 10000)), Some (Num 600000))
         = Some tr"
    unfolding e_def [symmetric] t by blast
  from getGroundTrackLatLng_tracks [OF p o g fresh,
      where memoized = tr and tracks = "[tr]" and c' = c1 and k = 3000] memo len
  obtain c2 where
    "getGroundTrackLatLng e c1 (InArr issArr) None (Some (Num 3000)) = Some (Inr ([tr], c2))"
    unfolding t arr by auto
  with r1 show "\<exists>tr c1 c2. getGroundTrackLatLng (envLongitude blipLongitude) emptyCache
                (InArr [issLine1, issLine2]) None (Some (Num 1000))
              = Some (Inr ([tr], c1))
            \<and> getGroundTrackLatLng (envLongitude blipLongitude) c1
                (InArr [issLine1, issLine2]) None (Some (Num 3000))
              = Some (Inr ([tr], c2))"
    unfolding e_def issArr_def by blast
qed

text \<open>
  The claim as stated fails in two ways, both from the empty cache.

  The same query made twice for the drifting satellite: the first call finds the crossing
  1000 and returns three tracks, memoized under the second 1; while it looks for the
  previous crossing, the search ends by the cap and the sentinel \<open>-1\<close> replaces the
  crossing history. In the second call the search therefore reports \<open>-1\<close>, the key is that
  of the query time, again the second 1, and the call returns the three memoized tracks,
  not a single one.

  Two queries, at 1000 and then at 3000, for the satellite that is at 20 degrees from
  2000 ms to 4000 ms only: neither search finds a crossing and the second call finds no
  ground track memoized, its key being that of the second 3. It asks \<open>getOrbitTrack\<close>
  for the track from 3000, whose key, the time in units of 10 s, is that of the track
  from 1000: the call returns the track that begins with the position at 1000, at 10
  degrees, while the satellite is at 20 degrees at the query time.
\<close>

theorem getGroundTrackLatLng_memo_counterexample:
  "(\<exists>c1 ca cb cc c2.
     getGroundTrackLatLng (envLongitude driftLongitude) emptyCache (InArr [issLine1, issLine2])
       (Some (Num 1000)) (Some (Num 1000))
       = Some (Inr ([driftTrack1, driftTrack2, driftTrack1], c1))
     \<and> parseTLE c1 (InArr [issLine1, issLine2])
         = Inr (\<lparr>name = ''Unknown'', arr = [issLine1, issLine2]\<rparr>, ca)
     \<and> getOrbitTimeMS ca (InArr [issLine1, issLine2]) = Inr (issOrbitTimeMS, cb)
     \<and> getLastAntemeridianCrossingTimeMS (envLongitude driftLongitude) cb
          (InRec \<lparr>name = ''Unknown'', arr = [issLine1, issLine2]\<rparr>) (Num 1000)
         = Inr (Num (- 1), cc)
     \<and> getGroundTrackLatLng (envLongitude driftLongitude) c1 (InArr [issLine1, issLine2])
          (Some (Num 1000)) (Some (Num 1000))
         = Some (Inr ([driftTrack1, driftTrack2, driftTrack1], c2)))
   \<and> (\<exists>c1 tr ca cb cc cd c2.
     getGroundTrackLatLng (envLongitude blipLongitude) emptyCache (InArr [issLine1, issLine2])
       None (Some (Num 1000)) = Some (Inr ([tr], c1))
     \<and> hd tr = (Num 0, Num 10)
     \<and> parseTLE c1 (InArr [issLine1, issLine2])
         = Inr (\<lparr>name = ''Unknown'', arr = [issLine1, issLine2]\<rparr>, ca)
     \<and> getOrbitTimeMS ca (InArr [issLine1, issLine2]) = Inr (issOrbitTimeMS, cb)
     \<and> getLastAntemeridianCrossingTimeMS (envLongitude blipLongitude) cb
          (InRec \<lparr>name = ''Unknown'', arr = [issLine1, issLine2]\<rparr>) (Num 3000)
         = Inr (Num (- 1), cc)
     \<and> groundTrackCache cc
          (groundTrackKey \<lparr>name = ''Unknown'', arr = [issLine1, issLine2]\<rparr> None (Num 3000)
             (Num (- 1))) = None
     \<and> getLatLonArr (envLongitude blipLongitude) cc (InArr [issLine1, issLine2])
          (Some (Num 3000)) = Inr ((Num 0, Num 20), cd)
     \<and> getGroundTrackLatLng (envLongitude blipLongitude) c1 (InArr [issLine1, issLine2])
          None (Some (Num 3000)) = Some (Inr ([tr], c2)))"
proof
  define f where "f = driftLongitude"
  define K where "K = [(issKey, Fixed True 0, Some (Num 1000)) \<mapsto> driftTrack1,
                       (issKey, Fixed False 0, Some (Num 1000)) \<mapsto> driftTrack2]"
  define G where "G = [(take 30 issLine2, Some (Num 1000), Fixed False 1)
                         \<mapsto> [driftTrack1, driftTrack2, driftTrack1]]"
  have st0: "issState f emptyCache None Map.empty Map.empty" by (rule issState_empty)
  have t: "orDefault (Some (Num 1000)) (now env2026) = Num 1000"
    by (simp add: orDefault_def)
  have "issGroundTrack 10 f None Map.empty Map.empty (Some (Num 1000))
          (orDefault (Some (Num 1000)) (now env2026)) =
     Some ([driftTrack1, driftTrack2, driftTrack1], Some NoCrossing, K, G)"
    unfolding t f_def K_def G_def by (rule drift_ground_1)
  from iss_getGroundTrackLatLng [OF this st0] obtain c1 where
    r1: "getGroundTrackLatLng (envLongitude f) emptyCache (InArr issArr) (Some (Num 1000))
           (Some (Num 1000)) = Some (Inr ([driftTrack1, driftTrack2, driftTrack1], c1))"
    and s1: "issState f c1 (Some NoCrossing) K G" by blast
  from iss_parse_state [OF s1, of "InArr issArr"] obtain ca where
    p: "parseTLE c1 (InArr issArr) = Inr (issRec, ca)"
    and sa: "issState f ca (Some NoCrossing) K G" by blast
  from iss_getOrbitTimeMS [OF sa] obtain cb where
    o: "getOrbitTimeMS ca (InArr issArr) = Inr (issOrbitTimeMS, cb)"
    and sb: "issState f cb (Some NoCrossing) K G" by blast
  from iss_getLast [OF sb, of "InRec issRec" "Num 1000"] obtain cc where
    g: "getLastAntemeridianCrossingTimeMS (envLongitude f) cb (InRec issRec) (Num 1000)
          = Inr (Num (- 1), cc)"
    by (auto simp: issLast_sentinel)
  have "issGroundTrack 10 f (Some NoCrossing) K G (Some (Num 1000))
          (orDefault (Some (Num 1000)) (now env2026)) =
     Some ([driftTrack1, driftTrack2, driftTrack1], Some NoCrossing, K, G)"
    unfolding t f_def K_def G_def by (rule drift_ground_2)
  from iss_getGroundTrackLatLng [OF this s1] obtain c2 where
    r2: "getGroundTrackLatLng (envLongitude f) c1 (InArr issArr) (Some (Num 1000))
           (Some (Num 1000)) = Some (Inr ([driftTrack1, driftTrack2, driftTrack1], c2))"
    by blast
  from r1 p o g r2 show "\<exists>c1 ca cb cc c2.
     getGroundTrackLatLng (envLongitude driftLongitude) emptyCache (InArr [issLine1, issLine2])
       (Some (Num 1000)) (Some (Num 1000))
       = Some (Inr ([driftTrack1, driftTrack2, driftTrack1], c1))
     \<and> parseTLE c1 (InArr [issLine1, issLine2])
         = Inr (\<lparr>name = ''Unknown'', arr = [issLine1, issLine2]\<rparr>, ca)
     \<and> getOrbitTimeMS ca (InArr [issLine1, issLine2]) = Inr (issOrbitTimeMS, cb)
     \<and> getLastAntemeridianCrossingTimeMS (envLongitude driftLongitude) cb
          (InRec \<lparr>name = ''Unknown'', arr = [issLine1, issLine2]\<rparr>) (Num 1000)
         = Inr (Num (- 1), cc)
     \<and> getGroundTrackLatLng (envLongitude driftLongitude) c1 (InArr [issLine1, issLine2])
          (Some (Num 1000)) (Some (Num 1000))
         = Some (Inr ([driftTrack1, driftTrack2, driftTrack1], c2))"
    unfolding f_def issArr_def issRec_def by blast
next
  from blip_two_calls show "\<exists>c1 tr ca cb cc cd c2.
     getGroundTrackLatLng (envLongitude blipLongitude) emptyCache (InArr [issLine1, issLine2])
       None (Some (Num 1000)) = Some (Inr ([tr], c1))
     \<and> hd tr = (Num 0, Num 10)
     \<and> parseTLE c1 (InArr [issLine1, issLine2])
         = Inr (\<lparr>name = ''Unknown'', arr = [issLine1, issLine2]\<rparr>, ca)
     \<and> getOrbitTimeMS ca (InArr [issLine1, issLine2]) = Inr (issOrbitTimeMS, cb)
     \<and> getLastAntemeridianCrossingTimeMS (envLongitude blipLongitude) cb
          (InRec \<lparr>name = ''Unknown'', arr = [issLine1, issLine2]\<rparr>) (Num 3000)
         = Inr (Num (- 1), cc)
     \<and> groundTrackCache cc
          (groundTrackKey \<lparr>name = ''Unknown'', arr = [issLine1, issLine2]\<rparr> None (Num 3000)
             (Num (- 1))) = None
     \<and> getLatLonArr (envLongitude blipLongitude) cc (InArr [issLine1, issLine2])
          (Some (Num 3000)) = Inr ((Num 0, Num 20), cd)
     \<and> getGroundTrackLatLng (envLongitude blipLongitude) c1 (InArr [issLine1, issLine2])
          None (Some (Num 3000)) = Some (Inr ([tr], c2))"
    unfolding issArr_def issRec_def by blast
qed

text \<open>
  A call that finds a crossing need not return. For the satellite that goes over the
  antemeridian once, the query at the time 1000 with the step 1000, from the empty cache,
  finds the crossing 1000; the track of the current orbit is then built with no time
  budget, never sees a second crossing, and the call does not return.
\<close>

theorem getGroundTrackLatLng_never_returns:
  "getGroundTrackLatLng (envLongitude onceLongitude) emptyCache (InArr [issLine1, issLine2])
     (Some (Num 1000)) (Some (Num 1000)) = None"
proof -
  define f where "f = onceLongitude"
  define K1 where "K1 = [(issKey, Fixed True 0, Some (Num 1000)) \<mapsto> driftTrack1]"
  have st0: "issState f emptyCache None Map.empty Map.empty" by (rule issState_empty)
  have t: "orDefault (Some (Num 1000)) (now env2026) = Num 1000"
    by (simp add: orDefault_def)
  have l1: "issLast f None (Num 1000) = (Num 1000, Some (Times [Num 1000]))"
    unfolding f_def by (rule once_last_1)
  have l2: "issLast f (Some (Times [Num 1000])) (jsub (Num 1000) (Num 10000))
              = (Num (- 1), Some NoCrossing)"
    unfolding f_def using once_last_2 by (simp add: jsub_def)
  from iss_ground_unfold [OF st0, of "Some (Num 1000)" "Some (Num 1000)"] obtain c3 where
    s3: "issState f c3 (Some (Times [Num 1000])) Map.empty Map.empty" and
    unf: "getGroundTrackLatLng (envLongitude f) emptyCache (InArr issArr) (Some (Num 1000))
            (Some (Num 1000)) =
          bindO (threeTracks (envLongitude f) c3 (InArr issArr) issRec (Some (Num 1000))
                   issOrbitTimeMS (Num 1000))
            (\<lambda>(orbitLatLons, c4).
               Some (Inr (orbitLatLons,
                          c4\<lparr>groundTrackCache :=
                               (groundTrackCache c4)
                                 (issGroundKey (Some (Num 1000)) (Num 1000) (Num 1000)
                                  \<mapsto> orbitLatLons)\<rparr>)))"
    unfolding t l1 fst_conv snd_conv by (auto simp: strictEq_def)
  from iss_threeTracks_unfold [OF s3, of "Num 1000" "Some (Num 1000)"] obtain c5 where
    s5: "issState f c5 (Some NoCrossing) Map.empty Map.empty" and
    three: "threeTracks (envLongitude f) c3 (InArr issArr) issRec (Some (Num 1000))
              issOrbitTimeMS (Num 1000) =
            bindO (getOrbitTrack (envLongitude f) c5 issArr (Num (- 1)) (Some (Num 1000)) None)
              (\<lambda>(track1, c6).
            bindO (getOrbitTrack (envLongitude f) c6 issArr (Num 1000) (Some (Num 1000)) None)
              (\<lambda>(track2, c7).
            bindO (getOrbitTrack (envLongitude f) c7 issArr (Num (- 1)) (Some (Num 1000)) None)
              (\<lambda>(track3, c8).
              Some (Inr ([track1, track2, track3], c8)))))"
    unfolding l2 fst_conv snd_conv issLast_sentinel by blast
  from iss_getOrbitTrack [OF once_track_1 [folded f_def K1_def] s5] obtain c6 where
    r1: "getOrbitTrack (envLongitude f) c5 issArr (Num (- 1)) (Some (Num 1000)) None
           = Some (Inr (driftTrack1, c6))"
    and s6: "issState f c6 (Some NoCrossing) K1 Map.empty" by blast
  have "getOrbitTrack (envLongitude f) c6 issArr (Num 1000) (Some (Num 1000)) None = None"
    by (rule iss_getOrbitTrack_diverges [OF s6, where X = 600 and L = "Num (- 170)"])
       (simp_all add: f_def onceLongitude_def K1_def)
  with unf three r1 show ?thesis
    by (simp add: bindO_def f_def issArr_def)
qed

end
